(* ===== verification/Go_Prelude.thy ===== *)
theory Go_Prelude
  imports
    Main
    "HOL-Library.Word"
    "HOL-Library.AList"
    "HOL-Library.State_Monad"
    "HOL-Library.Multiset"
begin

section \<open>What the Go language and its standard library contribute\<close>

text \<open>
  The parts of Go and of its standard library that the pd-manager sources use, and
  the generic lemmas the component theories share.

  \<^item> An \<^verbatim>\<open>int32\<close> is a 32-bit word; its sign is read with \<open>sint\<close>.
  \<^item> A slice is a list; \<^verbatim>\<open>nil\<close> and the empty slice are the same list, since the
    modelled code only asks for lengths and elements.
  \<^item> A pointer to a value that is never written through an alias is an \<open>option\<close>.
  \<^item> A map is an association list with distinct keys; the order of the list is the order in
    which a \<^verbatim>\<open>range\<close> loop happens to visit it.
  \<^item> A run-time panic is the constructor \<open>Panic\<close> of \<open>outcome\<close>.
  \<^item> Code that talks to a server is a value of the state monad of
    \<^verbatim>\<open>HOL-Library.State_Monad\<close>, with the state of the outside world threaded through.
\<close>

named_theorems go_defs \<open>unfolding equations of the small language-level definitions\<close>
named_theorems build_defs \<open>unfolding equations of the RoleBasedGroup builder\<close>
named_theorems run_simps \<open>how the effectful operations run on a state\<close>

type_synonym int32 = "32 word"

text \<open>\<^verbatim>\<open>time.Time\<close> as nanoseconds since the zero time, \<^verbatim>\<open>time.Duration\<close> as nanoseconds.\<close>

type_synonym Time = int
type_synonym Duration = int

datatype 'a outcome = Panic string | Returns 'a

text \<open>Sequencing of code that may panic: the continuation runs only after a return.\<close>

definition and_then :: "'a outcome \<Rightarrow> ('a \<Rightarrow> 'b outcome) \<Rightarrow> 'b outcome" where
  "and_then m f = (case m of Panic p \<Rightarrow> Panic p | Returns x \<Rightarrow> f x)"

lemma and_then_simps [simp]:
  "and_then (Panic p) f = Panic p"
  "and_then (Returns x) f = f x"
  by (simp_all add: and_then_def)

lemma and_then_returns_iff:
  "and_then m f = Returns y \<longleftrightarrow> (\<exists>x. m = Returns x \<and> f x = Returns y)"
  by (cases m) auto

lemma and_then_panic_iff:
  "and_then m f = Panic p \<longleftrightarrow> m = Panic p \<or> (\<exists>x. m = Returns x \<and> f x = Panic p)"
  by (cases m) auto

text \<open>A loop that appends one converted element per iteration and stops at the first panic.\<close>

fun map_outcome :: "('a \<Rightarrow> 'b outcome) \<Rightarrow> 'a list \<Rightarrow> 'b list outcome" where
  "map_outcome f [] = Returns []"
| "map_outcome f (x # xs) =
     and_then (f x) (\<lambda>y. and_then (map_outcome f xs) (\<lambda>ys. Returns (y # ys)))"

lemma map_outcome_returns:
  "map_outcome f xs = Returns ys \<longleftrightarrow> list_all2 (\<lambda>x y. f x = Returns y) xs ys"
  by (induction xs arbitrary: ys) (auto simp: and_then_returns_iff list_all2_Cons1)

lemma map_outcome_total: "(\<forall>x \<in> set xs. f x = Returns (g x)) \<Longrightarrow> map_outcome f xs = Returns (map g xs)"
  by (induction xs) auto

lemma map_outcome_no_panic:
  "(\<exists>ys. map_outcome f xs = Returns ys) \<longleftrightarrow> (\<forall>x \<in> set xs. \<exists>y. f x = Returns y)"
  by (induction xs) (auto simp: and_then_returns_iff)

subsection \<open>Decimal text: \<^verbatim>\<open>strconv.Itoa\<close>\<close>

definition digit_char :: "nat \<Rightarrow> char" where
  "digit_char d = char_of (48 + d)"

fun utoa :: "nat \<Rightarrow> string" where
  "utoa n = (if n < 10 then [digit_char n] else utoa (n div 10) @ [digit_char (n mod 10)])"

declare utoa.simps [simp del]

definition itoa :: "int \<Rightarrow> string" where
  "itoa i = (if i < 0 then CHR ''-'' # utoa (nat (- i)) else utoa (nat i))"

lemma digit_char_inj: "d < 10 \<Longrightarrow> e < 10 \<Longrightarrow> digit_char d = digit_char e \<Longrightarrow> d = e"
  by (auto simp: digit_char_def dest: arg_cong [where f = "of_char :: char \<Rightarrow> nat"])

lemma utoa_nonempty [simp]: "utoa n \<noteq> []"
  by (subst utoa.simps) simp

lemma utoa_digits: "set (utoa n) \<subseteq> digit_char ` {..<10}"
proof (induction n rule: utoa.induct)
  case (1 n)
  then show ?case
    by (subst utoa.simps) (auto simp: less_Suc_eq)
qed

lemma utoa_inj: "utoa m = utoa n \<Longrightarrow> m = n"
proof (induction m arbitrary: n rule: utoa.induct)
  case (1 m)
  show ?case
  proof (cases "m < 10")
    case True
    have "n < 10"
    proof (rule ccontr)
      assume "\<not> n < 10"
      with 1(2) True show False
        by (simp add: utoa.simps [of m] utoa.simps [of n] Cons_eq_append_conv)
    qed
    with True 1(2) show ?thesis
      by (simp add: utoa.simps [of m] utoa.simps [of n] digit_char_inj)
  next
    case False
    have n: "\<not> n < 10"
    proof
      assume "n < 10"
      with 1(2) False show False
        by (simp add: utoa.simps [of m] utoa.simps [of n] append_eq_Cons_conv)
    qed
    with False 1(2) have "utoa (m div 10) = utoa (n div 10)" "m mod 10 = n mod 10"
      by (simp_all add: utoa.simps [of m] utoa.simps [of n] digit_char_inj)
    with 1(1) [OF False] show ?thesis
      by (metis div_mult_mod_eq)
  qed
qed

subsection \<open>Quoted text: the \<^verbatim>\<open>%q\<close> verb\<close>

definition hex_digit :: "nat \<Rightarrow> char" where
  "hex_digit d = (if d < 10 then char_of (48 + d) else char_of (87 + d))"

text \<open>
  \<^verbatim>\<open>strconv.Quote\<close> on one byte. Bytes from 128 on are part of the UTF-8 encoding of a
  printable rune and are copied.
\<close>

definition quote_byte :: "char \<Rightarrow> string" where
  "quote_byte c = (let n = (of_char c :: nat) in
     if n = 34 \<or> n = 92 then [char_of (92::nat), c]
     else if n = 7 then [char_of (92::nat), CHR ''a'']
     else if n = 8 then [char_of (92::nat), CHR ''b'']
     else if n = 9 then [char_of (92::nat), CHR ''t'']
     else if n = 10 then [char_of (92::nat), CHR ''n'']
     else if n = 11 then [char_of (92::nat), CHR ''v'']
     else if n = 12 then [char_of (92::nat), CHR ''f'']
     else if n = 13 then [char_of (92::nat), CHR ''r'']
     else if n < 32 \<or> n = 127 then
       [char_of (92::nat), CHR ''x'', hex_digit (n div 16), hex_digit (n mod 16)]
     else [c])"

definition go_quote :: "string \<Rightarrow> string" where
  "go_quote s = char_of (34::nat) # concat (map quote_byte s) @ [char_of (34::nat)]"

subsection \<open>Maps\<close>

type_synonym ('k, 'v) gomap = "('k \<times> 'v) list"

definition gomap_ok :: "('k, 'v) gomap \<Rightarrow> bool" where
  "gomap_ok m \<longleftrightarrow> distinct (map fst m)"

definition gomap_set :: "'k \<Rightarrow> 'v \<Rightarrow> ('k, 'v) gomap \<Rightarrow> ('k, 'v) gomap" where
  "gomap_set k v m = AList.update k v m"

lemma gomap_ok_Nil [simp]: "gomap_ok []"
  by (simp add: gomap_ok_def)

lemma gomap_ok_set [simp]: "gomap_ok m \<Longrightarrow> gomap_ok (gomap_set k v m)"
  by (simp add: gomap_ok_def gomap_set_def distinct_update)

lemma map_of_gomap_set [simp]: "map_of (gomap_set k v m) = (map_of m)(k \<mapsto> v)"
  by (simp add: gomap_set_def update_conv')

lemma gomap_set_nonempty [simp]: "gomap_set k v m \<noteq> []"
  by (cases m) (auto simp: gomap_set_def)

text \<open>Two visits of one map, in any order, read the same entries.\<close>

lemma gomap_perm_lookup:
  assumes "gomap_ok m" and "mset m = mset m'"
  shows "map_of m = map_of m'"
proof -
  from assms(2) have s: "set m = set m'" by (rule mset_eq_setD)
  from assms(2) have "mset (map fst m) = mset (map fst m')" by simp
  with assms(1) have "distinct (map fst m')"
    unfolding gomap_ok_def by (rule mset_eq_imp_distinct_iff [THEN iffD1, rotated])
  with assms(1) s show ?thesis
    by (simp add: gomap_ok_def map_of_inject_set)
qed

subsection \<open>Time\<close>

text \<open>\<^verbatim>\<open>t.Sub\<close> saturates at the bounds of the 64-bit \<^verbatim>\<open>Duration\<close>.\<close>

definition time_since :: "Time \<Rightarrow> Time \<Rightarrow> Duration" where
  "time_since now t = max (- (2 ^ 63)) (min (2 ^ 63 - 1) (now - t))"

definition Second :: Duration where "Second = 1000000000"
definition Minute :: Duration where "Minute = 60 * Second"

lemma time_since_gt:
  "- (2 ^ 63) \<le> d \<Longrightarrow> d < 2 ^ 63 - 1 \<Longrightarrow> time_since now t > d \<longleftrightarrow> now - t > d"
  by (auto simp: time_since_def)

subsection \<open>Running effectful code\<close>

lemma run_state_bind_eq [run_simps]:
  "run_state (State_Monad.bind m f) s = run_state (f (fst (run_state m s))) (snd (run_state m s))"
  by (simp add: case_prod_beta)

end
