(* ===== verification/Kube_Types.thy ===== *)
theory Kube_Types
  imports Go_Prelude
begin

section \<open>Kubernetes and RoleBasedGroup data\<close>

text \<open>
  The vendored Go structs the program reads and writes: \<^verbatim>\<open>metav1.ObjectMeta\<close> and
  \<^verbatim>\<open>Condition\<close>, the \<^verbatim>\<open>corev1\<close> structs of a pod template, and the
  \<^verbatim>\<open>RoleBasedGroup\<close> of the RBG operator. A record carries the fields the program sets,
  reads or passes through; struct fields that stay at their zero value in everything the
  program builds are left out. Field names are the Go names with a prefix for the struct.
\<close>

subsection \<open>Object metadata (\<^verbatim>\<open>k8s.io/apimachinery/pkg/apis/meta/v1\<close>)\<close>

record NamespacedName =
  nn_Namespace :: string
  nn_Name :: string

record TypeMeta =
  tm_Kind :: string
  tm_APIVersion :: string

record OwnerReference =
  or_APIVersion :: string
  or_Kind :: string
  or_Name :: string
  or_UID :: string
  or_Controller :: "bool option"
  or_BlockOwnerDeletion :: "bool option"

record ObjectMeta =
  om_Name :: string
  om_Namespace :: string
  om_UID :: string
  om_ResourceVersion :: string
  om_CreationTimestamp :: Time
  om_DeletionTimestamp :: "Time option"
  om_Labels :: "(string, string) gomap"
  om_Annotations :: "(string, string) gomap"
  om_OwnerReferences :: "OwnerReference list"
  om_Finalizers :: "string list"

definition empty_ObjectMeta :: ObjectMeta where
  "empty_ObjectMeta = \<lparr>om_Name = '''', om_Namespace = '''', om_UID = '''',
     om_ResourceVersion = '''', om_CreationTimestamp = 0, om_DeletionTimestamp = None,
     om_Labels = [], om_Annotations = [], om_OwnerReferences = [], om_Finalizers = []\<rparr>"

text \<open>\<^verbatim>\<open>func (t *Time) IsZero() bool\<close>: a nil pointer and the zero time are both zero.\<close>

definition Time_IsZero :: "Time option \<Rightarrow> bool" where
  "Time_IsZero t = (case t of None \<Rightarrow> True | Some x \<Rightarrow> x = 0)"

lemma Time_IsZero_simps [simp]:
  "Time_IsZero None"
  "Time_IsZero (Some x) \<longleftrightarrow> x = 0"
  by (simp_all add: Time_IsZero_def)

datatype ConditionStatus = ConditionTrue | ConditionFalse | ConditionUnknown

record Condition =
  cd_Type :: string
  cd_Status :: ConditionStatus
  cd_LastTransitionTime :: Time
  cd_Reason :: string
  cd_Message :: string

subsection \<open>Quantities (\<^verbatim>\<open>k8s.io/apimachinery/pkg/api/resource\<close>)\<close>

datatype QuantityFormat = DecimalExponent | BinarySI | DecimalSI

text \<open>
  \<^verbatim>\<open>Quantity\<close>: an \<^verbatim>\<open>int64Amount\<close> (value and decimal scale), or a big decimal in
  \<open>qt_d\<close> as unscaled value and scale, the cached text and the format.
\<close>

record Quantity =
  qt_i_value :: int
  qt_i_scale :: int
  qt_d :: "(int \<times> int) option"
  qt_s :: string
  qt_Format :: QuantityFormat

text \<open>
  The type of \<^verbatim>\<open>resource.ParseQuantity\<close>, an argument of everything that parses quantities: an error
  text or a quantity.
\<close>

type_synonym quantity_parser = "string \<Rightarrow> string + Quantity"

subsection \<open>Pod templates (\<^verbatim>\<open>k8s.io/api/core/v1\<close>)\<close>

record ObjectFieldSelector =
  fs_APIVersion :: string
  fs_FieldPath :: string

record KeySelector =
  ks_Name :: string
  ks_Key :: string
  ks_Optional :: "bool option"

record ResourceFieldSelector =
  rfs_ContainerName :: string
  rfs_Resource :: string
  rfs_Divisor :: Quantity

record FileKeySelector =
  fks_VolumeName :: string
  fks_Path :: string
  fks_Key :: string
  fks_Optional :: "bool option"

record EnvVarSource =
  es_FieldRef :: "ObjectFieldSelector option"
  es_ResourceFieldRef :: "ResourceFieldSelector option"
  es_ConfigMapKeyRef :: "KeySelector option"
  es_SecretKeyRef :: "KeySelector option"
  es_FileKeyRef :: "FileKeySelector option"

record EnvVar =
  ev_Name :: string
  ev_Value :: string
  ev_ValueFrom :: "EnvVarSource option"

record HostPathVolumeSource =
  hp_Path :: string
  hp_Type :: "string option"

record EmptyDirVolumeSource =
  ed_Medium :: string
  ed_SizeLimit :: "Quantity option"

record PersistentVolumeClaimVolumeSource =
  pvcs_ClaimName :: string
  pvcs_ReadOnly :: bool

record VolumeSource =
  src_HostPath :: "HostPathVolumeSource option"
  src_EmptyDir :: "EmptyDirVolumeSource option"
  src_PersistentVolumeClaim :: "PersistentVolumeClaimVolumeSource option"

record Volume =
  vol_Name :: string
  vol_VolumeSource :: VolumeSource

record VolumeMount =
  mnt_Name :: string
  mnt_ReadOnly :: bool
  mnt_MountPath :: string

type_synonym ResourceList = "(string, Quantity) gomap"

record ResourceRequirements =
  rr_Limits :: "ResourceList option"
  rr_Requests :: "ResourceList option"

datatype IntOrString = IntVal int32 | StrVal string

record HTTPGetAction =
  hg_Path :: string
  hg_Port :: IntOrString

record Probe =
  pr_HTTPGet :: "HTTPGetAction option"
  pr_InitialDelaySeconds :: int32
  pr_TimeoutSeconds :: int32
  pr_PeriodSeconds :: int32
  pr_FailureThreshold :: int32

record Container =
  ct_Name :: string
  ct_Image :: string
  ct_Command :: "string list"
  ct_Args :: "string list"
  ct_Env :: "EnvVar list"
  ct_Resources :: ResourceRequirements
  ct_VolumeMounts :: "VolumeMount list"
  ct_LivenessProbe :: "Probe option"
  ct_ReadinessProbe :: "Probe option"

record PodSpec =
  ps_Volumes :: "Volume list"
  ps_Containers :: "Container list"
  ps_NodeSelector :: "(string, string) gomap"

record PodTemplateSpec =
  pt_Labels :: "(string, string) gomap"
  pt_Spec :: PodSpec

subsection \<open>RoleBasedGroup (\<^verbatim>\<open>sigs.k8s.io/rbgs/api/workloads/v1alpha1\<close>)\<close>

record WorkloadSpec =
  ws_APIVersion :: string
  ws_Kind :: string

record RbgEngineRuntime =
  rer_ProfileName :: string
  rer_InjectContainers :: "string list"
  rer_Containers :: "Container list"

record ScalingAdapter =
  sa_Enable :: bool

record RoleSpec =
  rs_Name :: string
  rs_Labels :: "(string, string) gomap"
  rs_Annotations :: "(string, string) gomap"
  rs_Replicas :: "int32 option"
  rs_RestartPolicy :: string
  rs_Dependencies :: "string list"
  rs_Workload :: WorkloadSpec
  rs_Template :: "PodTemplateSpec option"
  rs_TemplateRef :: "string option"
  rs_EngineRuntimes :: "RbgEngineRuntime list"
  rs_ScalingAdapter :: "ScalingAdapter option"
  rs_MinReadySeconds :: int32

record RoleTemplate =
  rt_Name :: string
  rt_Template :: PodTemplateSpec

record CoordinationRollingUpdate =
  cru_MaxSkew :: "string option"
  cru_Partition :: "string option"
  cru_MaxUnavailable :: "string option"

record CoordinationScaling =
  csc_MaxSkew :: "string option"
  csc_Progression :: "string option"

record CoordinationStrategy =
  cst_RollingUpdate :: "CoordinationRollingUpdate option"
  cst_Scaling :: "CoordinationScaling option"

record Coordination =
  co_Name :: string
  co_Roles :: "string list"
  co_Strategy :: "CoordinationStrategy option"

record KubeSchedulingPodGroupPolicySource =
  kpg_ScheduleTimeoutSeconds :: "int32 option"

record VolcanoSchedulingPodGroupPolicySource =
  vpg_PriorityClassName :: string
  vpg_Queue :: string

record PodGroupPolicy =
  pgp_KubeScheduling :: "KubeSchedulingPodGroupPolicySource option"
  pgp_VolcanoScheduling :: "VolcanoSchedulingPodGroupPolicySource option"

record RoleBasedGroupSpec =
  rgs_Roles :: "RoleSpec list"
  rgs_RoleTemplates :: "RoleTemplate list"
  rgs_PodGroupPolicy :: "PodGroupPolicy option"
  rgs_CoordinationRequirements :: "Coordination list"

record RbgRoleStatus =
  rrs_Name :: string
  rrs_ReadyReplicas :: int32
  rrs_Replicas :: int32
  rrs_UpdatedReplicas :: int32

record RoleBasedGroupStatus =
  rgst_Conditions :: "Condition list"
  rgst_RoleStatuses :: "RbgRoleStatus list"

record RoleBasedGroup =
  rbg_ObjectMeta :: ObjectMeta
  rbg_Spec :: RoleBasedGroupSpec
  rbg_Status :: RoleBasedGroupStatus

end
