(* ===== verification/Api_Types.thy ===== *)
theory Api_Types
  imports Kube_Types
begin

section \<open>The custom resources of pd-manager (\<^verbatim>\<open>api/v1alpha1\<close>)\<close>

text \<open>
  The structs of \<^verbatim>\<open>pdinferenceservice_types.go\<close> and
  \<^verbatim>\<open>pdengineprofile_types.go\<close>, field for field and in the order of the source (the list
  types keep their items only), and the zero values Go gives to their variables. \<^verbatim>\<open>EngineType\<close> and \<^verbatim>\<open>Phase\<close> are
  string types with named constants, so a stored value may be any string.
\<close>

type_synonym EngineType = string

definition EngineTypeSGLang :: EngineType where
  "EngineTypeSGLang = ''sglang''"

type_synonym Phase = string

definition PhasePending :: Phase where "PhasePending = ''Pending''"
definition PhaseInitializing :: Phase where "PhaseInitializing = ''Initializing''"
definition PhaseRunning :: Phase where "PhaseRunning = ''Running''"
definition PhaseFailed :: Phase where "PhaseFailed = ''Failed''"
definition PhaseTerminating :: Phase where "PhaseTerminating = ''Terminating''"

lemmas Phase_defs =
  PhasePending_def PhaseInitializing_def PhaseRunning_def PhaseFailed_def PhaseTerminating_def

subsection \<open>Volumes, resources, probes\<close>

record HostPathVolume =
  hpv_Path :: string
  hpv_Type :: string

record EmptyDirVolume =
  edv_Medium :: string
  edv_SizeLimit :: string

record PVCVolume =
  pvc_ClaimName :: string

record VolumeSpec =
  vs_Name :: string
  vs_HostPath :: "HostPathVolume option"
  vs_EmptyDir :: "EmptyDirVolume option"
  vs_PVC :: "PVCVolume option"

record VolumeMountSpec =
  vms_Name :: string
  vms_MountPath :: string
  vms_ReadOnly :: bool

record RoleResources =
  rres_Requests :: "(string, string) gomap"
  rres_Limits :: "(string, string) gomap"

record ProbeSpec =
  prs_HTTPPath :: string
  prs_Port :: int32
  prs_InitialDelaySeconds :: int32
  prs_PeriodSeconds :: int32
  prs_TimeoutSeconds :: int32
  prs_FailureThreshold :: int32

subsection \<open>Engine runtimes (\<^verbatim>\<open>pdengineprofile_types.go\<close>)\<close>

record RuntimeContainer =
  rc_Name :: string
  rc_Args :: "string list"
  rc_Env :: "EnvVar list"

record EngineRuntime =
  er_ProfileName :: string
  er_Containers :: "RuntimeContainer list"

subsection \<open>Roles\<close>

record RouterRoleSpec =
  ror_Image :: string
  ror_Replicas :: int32
  ror_Resources :: "RoleResources option"
  ror_VolumeMounts :: "VolumeMountSpec list"
  ror_Command :: "string list"
  ror_Args :: "string list"
  ror_ReadinessProbe :: "ProbeSpec option"
  ror_LivenessProbe :: "ProbeSpec option"

record InferenceRoleSpec =
  irs_Image :: string
  irs_Replicas :: int32
  irs_GPU :: string
  irs_GPUType :: string
  irs_Resources :: "RoleResources option"
  irs_VolumeMounts :: "VolumeMountSpec list"
  irs_Command :: "string list"
  irs_Args :: "string list"
  irs_ReadinessProbe :: "ProbeSpec option"
  irs_LivenessProbe :: "ProbeSpec option"
  irs_EngineRuntimes :: "EngineRuntime list"

record HPASpec =
  hpa_MinReplicas :: "int32 option"
  hpa_MaxReplicas :: int32

record ScalingSpec =
  sc_Decode :: "HPASpec option"
  sc_Prefill :: "HPASpec option"

subsection \<open>PDInferenceService\<close>

record RoleStatus =
  rst_Name :: string
  rst_Ready :: int32
  rst_Total :: int32

record EventRecord =
  evr_Reason :: string
  evr_Message :: string

record PDInferenceServiceSpec =
  sp_Model :: string
  sp_Engine :: EngineType
  sp_Volumes :: "VolumeSpec list"
  sp_Router :: RouterRoleSpec
  sp_Prefill :: InferenceRoleSpec
  sp_Decode :: InferenceRoleSpec
  sp_PDRatio :: string
  sp_EngineProfileRef :: string
  sp_Scaling :: "ScalingSpec option"

record PDInferenceServiceStatus =
  st_Phase :: Phase
  st_Endpoint :: string
  st_Conditions :: "Condition list"
  st_RoleStatuses :: "RoleStatus list"
  st_LastEvent :: "EventRecord option"

record PDInferenceService =
  pd_TypeMeta :: TypeMeta
  pd_ObjectMeta :: ObjectMeta
  pd_Spec :: PDInferenceServiceSpec
  pd_Status :: PDInferenceServiceStatus

record PDInferenceServiceList =
  pdl_Items :: "PDInferenceService list"

subsection \<open>PDEngineProfile\<close>

record ModelSizeRange =
  msr_MinB :: string
  msr_MaxB :: string

record ApplicabilitySpec =
  ap_GPUTypes :: "string list"
  ap_MinGPUMemoryGiB :: "int32 option"
  ap_TensorParallelSize :: "int32 option"
  ap_ModelSizeRange :: "ModelSizeRange option"
  ap_OptimizedFor :: string
  ap_SGLangVersionRequired :: string

record RoleImages =
  im_Router :: string
  im_Prefill :: string
  im_Decode :: string

record RoleEngineRuntimes =
  re_Router :: "EngineRuntime list"
  re_Prefill :: "EngineRuntime list"
  re_Decode :: "EngineRuntime list"

record RoleCommands =
  rcm_Router :: "string list"
  rcm_Prefill :: "string list"
  rcm_Decode :: "string list"

record RoleArgs =
  ra_Router :: "string list"
  ra_Prefill :: "string list"
  ra_Decode :: "string list"

record PDEngineProfileSpec =
  eps_Description :: string
  eps_Applicability :: "ApplicabilitySpec option"
  eps_Images :: RoleImages
  eps_RoleCommands :: "RoleCommands option"
  eps_RoleArgs :: "RoleArgs option"
  eps_EngineRuntimes :: "RoleEngineRuntimes option"

record PDEngineProfile =
  ep_TypeMeta :: TypeMeta
  ep_ObjectMeta :: ObjectMeta
  ep_Spec :: PDEngineProfileSpec

record PDEngineProfileList =
  epl_Items :: "PDEngineProfile list"

subsection \<open>Zero values\<close>

definition zero_RoleImages :: RoleImages where
  "zero_RoleImages = \<lparr>im_Router = '''', im_Prefill = '''', im_Decode = ''''\<rparr>"

definition zero_RouterRoleSpec :: RouterRoleSpec where
  "zero_RouterRoleSpec = \<lparr>ror_Image = '''', ror_Replicas = 0, ror_Resources = None,
     ror_VolumeMounts = [], ror_Command = [], ror_Args = [], ror_ReadinessProbe = None,
     ror_LivenessProbe = None\<rparr>"

definition zero_InferenceRoleSpec :: InferenceRoleSpec where
  "zero_InferenceRoleSpec = \<lparr>irs_Image = '''', irs_Replicas = 0, irs_GPU = '''',
     irs_GPUType = '''', irs_Resources = None, irs_VolumeMounts = [], irs_Command = [],
     irs_Args = [], irs_ReadinessProbe = None, irs_LivenessProbe = None,
     irs_EngineRuntimes = []\<rparr>"

definition zero_PDInferenceServiceSpec :: PDInferenceServiceSpec where
  "zero_PDInferenceServiceSpec = \<lparr>sp_Model = '''', sp_Engine = '''', sp_Volumes = [],
     sp_Router = zero_RouterRoleSpec, sp_Prefill = zero_InferenceRoleSpec,
     sp_Decode = zero_InferenceRoleSpec, sp_PDRatio = '''', sp_EngineProfileRef = '''',
     sp_Scaling = None\<rparr>"

definition zero_PDInferenceServiceStatus :: PDInferenceServiceStatus where
  "zero_PDInferenceServiceStatus = \<lparr>st_Phase = '''', st_Endpoint = '''', st_Conditions = [],
     st_RoleStatuses = [], st_LastEvent = None\<rparr>"

definition zero_PDInferenceService :: PDInferenceService where
  "zero_PDInferenceService = \<lparr>pd_TypeMeta = \<lparr>tm_Kind = '''', tm_APIVersion = ''''\<rparr>,
     pd_ObjectMeta = empty_ObjectMeta, pd_Spec = zero_PDInferenceServiceSpec,
     pd_Status = zero_PDInferenceServiceStatus\<rparr>"

definition zero_PDEngineProfileSpec :: PDEngineProfileSpec where
  "zero_PDEngineProfileSpec = \<lparr>eps_Description = '''', eps_Applicability = None,
     eps_Images = zero_RoleImages, eps_RoleCommands = None, eps_RoleArgs = None,
     eps_EngineRuntimes = None\<rparr>"

definition zero_PDEngineProfile :: PDEngineProfile where
  "zero_PDEngineProfile = \<lparr>ep_TypeMeta = \<lparr>tm_Kind = '''', tm_APIVersion = ''''\<rparr>,
     ep_ObjectMeta = empty_ObjectMeta, ep_Spec = zero_PDEngineProfileSpec\<rparr>"

lemmas zero_defs =
  empty_ObjectMeta_def zero_RoleImages_def zero_RouterRoleSpec_def zero_InferenceRoleSpec_def
  zero_PDInferenceServiceSpec_def zero_PDInferenceServiceStatus_def zero_PDInferenceService_def
  zero_PDEngineProfileSpec_def zero_PDEngineProfile_def

subsection \<open>Shorthands for the nested fields\<close>

abbreviation pd_Name :: "PDInferenceService \<Rightarrow> string" where
  "pd_Name p \<equiv> om_Name (pd_ObjectMeta p)"
abbreviation pd_Namespace :: "PDInferenceService \<Rightarrow> string" where
  "pd_Namespace p \<equiv> om_Namespace (pd_ObjectMeta p)"
abbreviation ep_Name :: "PDEngineProfile \<Rightarrow> string" where
  "ep_Name p \<equiv> om_Name (ep_ObjectMeta p)"
abbreviation ep_Namespace :: "PDEngineProfile \<Rightarrow> string" where
  "ep_Namespace p \<equiv> om_Namespace (ep_ObjectMeta p)"
abbreviation rbg_Name :: "RoleBasedGroup \<Rightarrow> string" where
  "rbg_Name g \<equiv> om_Name (rbg_ObjectMeta g)"
abbreviation rbg_Namespace :: "RoleBasedGroup \<Rightarrow> string" where
  "rbg_Namespace g \<equiv> om_Namespace (rbg_ObjectMeta g)"

definition mk_key :: "string \<Rightarrow> string \<Rightarrow> NamespacedName" where
  "mk_key ns name = \<lparr>nn_Namespace = ns, nn_Name = name\<rparr>"

lemma mk_key_eq_iff [simp]: "mk_key a b = mk_key c d \<longleftrightarrow> a = c \<and> b = d"
  by (simp add: mk_key_def)

definition meta_key :: "ObjectMeta \<Rightarrow> NamespacedName" where
  "meta_key m = mk_key (om_Namespace m) (om_Name m)"

end
