(* ===== verification/Apimachinery.thy ===== *)
theory Apimachinery
  imports Api_Types
begin

section \<open>Errors, field errors and finalizers of the Kubernetes libraries\<close>

text \<open>
  The vendored helpers the program calls: \<^verbatim>\<open>apierrors.IsNotFound\<close> and its neighbours,
  the \<^verbatim>\<open>field\<close> package that validation errors are built with, the aggregation of error
  lists, and \<^verbatim>\<open>controllerutil\<close>'s finalizer functions.
\<close>

subsection \<open>Error values\<close>

datatype BadValue = BadString string | BadInt32 int32

datatype ErrorType = ErrorTypeRequired | ErrorTypeInvalid | ErrorTypeForbidden

record FieldError =
  fe_Type :: ErrorType
  fe_Field :: string
  fe_BadValue :: BadValue
  fe_Detail :: string

text \<open>
  Go's \<^verbatim>\<open>error\<close> values: \<open>ErrorString\<close> for \<^verbatim>\<open>errors.New\<close> and
  \<^verbatim>\<open>fmt.Errorf\<close>, \<open>StatusError\<close> for an API status (reason, HTTP code, message),
  \<open>WrapError\<close> for \<^verbatim>\<open>fmt.Errorf\<close> with \<^verbatim>\<open>%w\<close> (the text before the wrapped
  error, which the format places at the end), and a non-empty list of field errors.
\<close>

datatype go_error =
    ErrorString string
  | StatusError string int string
  | WrapError string go_error
  | AggregateError "FieldError list"

definition StatusReasonNotFound :: string where "StatusReasonNotFound = ''NotFound''"
definition StatusReasonAlreadyExists :: string where "StatusReasonAlreadyExists = ''AlreadyExists''"
definition StatusReasonConflict :: string where "StatusReasonConflict = ''Conflict''"
definition StatusReasonInvalid :: string where "StatusReasonInvalid = ''Invalid''"
definition StatusReasonBadRequest :: string where "StatusReasonBadRequest = ''BadRequest''"
definition StatusReasonForbidden :: string where "StatusReasonForbidden = ''Forbidden''"

definition knownReasons :: "string list" where
  "knownReasons = [''Unauthorized'', ''Forbidden'', ''NotFound'', ''AlreadyExists'', ''Conflict'',
     ''Gone'', ''Invalid'', ''ServerTimeout'', ''StoreReadError'', ''Timeout'', ''TooManyRequests'',
     ''BadRequest'', ''MethodNotAllowed'', ''NotAcceptable'', ''RequestEntityTooLarge'',
     ''UnsupportedMediaType'', ''InternalError'', ''Expired'', ''ServiceUnavailable'']"

text \<open>\<^verbatim>\<open>reasonAndCodeForError\<close>: \<^verbatim>\<open>errors.As\<close> follows the wrapped errors.\<close>

fun reasonAndCodeForError :: "go_error \<Rightarrow> string \<times> int" where
  "reasonAndCodeForError (StatusError reason code msg) = (reason, code)"
| "reasonAndCodeForError (WrapError msg e) = reasonAndCodeForError e"
| "reasonAndCodeForError (ErrorString msg) = ('''', 0)"
| "reasonAndCodeForError (AggregateError es) = ('''', 0)"

definition IsNotFound :: "go_error \<Rightarrow> bool" where
  "IsNotFound err = (let (reason, code) = reasonAndCodeForError err in
     if reason = StatusReasonNotFound then True
     else if reason \<notin> set knownReasons \<and> code = 404 then True
     else False)"

text \<open>\<^verbatim>\<open>client.IgnoreNotFound\<close>; \<open>None\<close> is the nil error.\<close>

definition IgnoreNotFound :: "go_error \<Rightarrow> go_error option" where
  "IgnoreNotFound err = (if IsNotFound err then None else Some err)"

definition NewNotFound :: "string \<Rightarrow> string \<Rightarrow> go_error" where
  "NewNotFound resource name =
     StatusError StatusReasonNotFound 404 (resource @ '' '' @ go_quote name @ '' not found'')"

definition NewAlreadyExists :: "string \<Rightarrow> string \<Rightarrow> go_error" where
  "NewAlreadyExists resource name =
     StatusError StatusReasonAlreadyExists 409 (resource @ '' '' @ go_quote name @ '' already exists'')"

definition NewConflict :: "string \<Rightarrow> string \<Rightarrow> string \<Rightarrow> go_error" where
  "NewConflict resource name err =
     StatusError StatusReasonConflict 409
       (''Operation cannot be fulfilled on '' @ resource @ '' '' @ go_quote name @ '': '' @ err)"

definition NewBadRequest :: "string \<Rightarrow> go_error" where
  "NewBadRequest reason = StatusError StatusReasonBadRequest 400 reason"

lemma IsNotFound_simps [simp]:
  "IsNotFound (NewNotFound r n)"
  "\<not> IsNotFound (NewAlreadyExists r n)"
  "\<not> IsNotFound (NewConflict r n e)"
  "\<not> IsNotFound (NewBadRequest m)"
  "\<not> IsNotFound (ErrorString m)"
  "\<not> IsNotFound (AggregateError es)"
  "IsNotFound (WrapError m err) = IsNotFound err"
  by (simp_all add: IsNotFound_def NewNotFound_def NewAlreadyExists_def NewConflict_def
      NewBadRequest_def StatusReasonNotFound_def StatusReasonAlreadyExists_def
      StatusReasonConflict_def StatusReasonBadRequest_def knownReasons_def)

subsection \<open>Paths and field errors\<close>

text \<open>\<^verbatim>\<open>field.Path\<close> from the root to the leaf: a name, or a subscript.\<close>

datatype PathElem = PName string | PIndex string

type_synonym Path = "PathElem list"

definition NewPath :: "string list \<Rightarrow> Path" where
  "NewPath names = map PName names"

definition Path_Child :: "Path \<Rightarrow> string \<Rightarrow> Path" where
  "Path_Child p name = p @ [PName name]"

definition Path_Index :: "Path \<Rightarrow> nat \<Rightarrow> Path" where
  "Path_Index p i = p @ [PIndex (itoa (int i))]"

fun Path_render :: "bool \<Rightarrow> Path \<Rightarrow> string" where
  "Path_render root [] = ''''"
| "Path_render root (PName n # ps) =
     (if \<not> root \<and> n \<noteq> '''' then ''.'' else '''') @
     (if n \<noteq> '''' then n else ''[]'') @ Path_render False ps"
| "Path_render root (PIndex i # ps) = ''['' @ i @ '']'' @ Path_render False ps"

definition Path_String :: "Path \<Rightarrow> string" where
  "Path_String p = (if p = [] then ''<nil>'' else Path_render True p)"

definition field_Required :: "Path \<Rightarrow> string \<Rightarrow> FieldError" where
  "field_Required p detail = \<lparr>fe_Type = ErrorTypeRequired, fe_Field = Path_String p,
     fe_BadValue = BadString '''', fe_Detail = detail\<rparr>"

definition field_Invalid :: "Path \<Rightarrow> BadValue \<Rightarrow> string \<Rightarrow> FieldError" where
  "field_Invalid p v detail = \<lparr>fe_Type = ErrorTypeInvalid, fe_Field = Path_String p,
     fe_BadValue = v, fe_Detail = detail\<rparr>"

definition field_Forbidden :: "Path \<Rightarrow> string \<Rightarrow> FieldError" where
  "field_Forbidden p detail = \<lparr>fe_Type = ErrorTypeForbidden, fe_Field = Path_String p,
     fe_BadValue = BadString '''', fe_Detail = detail\<rparr>"

fun ErrorType_String :: "ErrorType \<Rightarrow> string" where
  "ErrorType_String ErrorTypeRequired = ''Required value''"
| "ErrorType_String ErrorTypeInvalid = ''Invalid value''"
| "ErrorType_String ErrorTypeForbidden = ''Forbidden''"

text \<open>\<^verbatim>\<open>(*field.Error).ErrorBody\<close> and \<^verbatim>\<open>Error\<close>.\<close>

definition ErrorBody :: "FieldError \<Rightarrow> string" where
  "ErrorBody e =
     (case fe_Type e of
        ErrorTypeInvalid \<Rightarrow>
          ErrorType_String (fe_Type e) @ '': '' @
          (case fe_BadValue e of BadString s \<Rightarrow> go_quote s | BadInt32 i \<Rightarrow> itoa (sint i))
      | _ \<Rightarrow> ErrorType_String (fe_Type e)) @
     (if fe_Detail e \<noteq> '''' then '': '' @ fe_Detail e else '''')"

definition FieldError_Error :: "FieldError \<Rightarrow> string" where
  "FieldError_Error e = fe_Field e @ '': '' @ ErrorBody e"

text \<open>
  \<^verbatim>\<open>ErrorList.ToAggregate\<close>: nil for an empty list, otherwise the errors with pairwise
  different messages, the first of each kept.
\<close>

fun dedup_msgs :: "string list \<Rightarrow> FieldError list \<Rightarrow> FieldError list" where
  "dedup_msgs seen [] = []"
| "dedup_msgs seen (e # es) =
     (if FieldError_Error e \<in> set seen then dedup_msgs seen es
      else e # dedup_msgs (FieldError_Error e # seen) es)"

definition ToAggregate :: "FieldError list \<Rightarrow> go_error option" where
  "ToAggregate es = (if es = [] then None else Some (AggregateError (dedup_msgs [] es)))"

lemma dedup_msgs_subset: "set (dedup_msgs seen es) \<subseteq> set es"
  by (induction seen es rule: dedup_msgs.induct) auto

lemma dedup_msgs_keeps_messages:
  "set (map FieldError_Error (dedup_msgs seen es)) =
   set (map FieldError_Error es) - set seen"
  by (induction seen es rule: dedup_msgs.induct) auto

lemma dedup_msgs_distinct: "distinct (map FieldError_Error (dedup_msgs seen es))"
proof (induction seen es rule: dedup_msgs.induct)
  case (2 seen e es)
  then show ?case
    using dedup_msgs_keeps_messages [of "FieldError_Error e # seen" es] by auto
qed simp

text \<open>The message of an error; an aggregate of several messages is bracketed.\<close>

fun join_comma :: "string list \<Rightarrow> string" where
  "join_comma [] = ''''"
| "join_comma [m] = m"
| "join_comma (m # ms) = m @ '', '' @ join_comma ms"

fun Error :: "go_error \<Rightarrow> string" where
  "Error (ErrorString m) = m"
| "Error (StatusError reason code m) = m"
| "Error (WrapError m e) = m @ Error e"
| "Error (AggregateError es) =
     (let ms = map FieldError_Error (dedup_msgs [] es) in
      if length ms \<le> 1 then join_comma ms else ''['' @ join_comma ms @ '']'')"

subsection \<open>Finalizers (\<^verbatim>\<open>controllerutil\<close>)\<close>

fun ContainsFinalizer :: "string list \<Rightarrow> string \<Rightarrow> bool" where
  "ContainsFinalizer [] fin = False"
| "ContainsFinalizer (e # f) fin = (if e = fin then True else ContainsFinalizer f fin)"

definition AddFinalizer :: "string list \<Rightarrow> string \<Rightarrow> string list" where
  "AddFinalizer f fin = (if ContainsFinalizer f fin then f else f @ [fin])"

text \<open>The in-place compaction loop: \<open>index\<close> counts the elements kept so far.\<close>

function remove_loop :: "string list \<Rightarrow> string \<Rightarrow> nat \<Rightarrow> nat \<Rightarrow> string list \<times> nat" where
  "remove_loop f fin i index =
     (if i < length f then
        (if f ! i = fin then remove_loop f fin (Suc i) index
         else remove_loop (f[index := f ! i]) fin (Suc i) (Suc index))
      else (f, index))"
  by pat_completeness auto
termination
  by (relation "measure (\<lambda>(f, fin, i, index). length f - i)") auto

declare remove_loop.simps [simp del]

definition RemoveFinalizer :: "string list \<Rightarrow> string \<Rightarrow> string list" where
  "RemoveFinalizer f fin = (let (g, index) = remove_loop f fin 0 0 in take index g)"

lemma ContainsFinalizer_iff [simp]: "ContainsFinalizer f fin \<longleftrightarrow> fin \<in> set f"
  by (induction f) auto

lemma set_AddFinalizer [simp]: "set (AddFinalizer f fin) = insert fin (set f)"
  by (auto simp: AddFinalizer_def)

text \<open>
  The loop keeps, in the first \<open>index\<close> cells, the elements of the part already read that
  differ from the finalizer, and leaves the unread cells alone.
\<close>

lemma remove_loop_spec:
  assumes "index \<le> i" and "i \<le> length f"
    and "take index f = kept"
  shows "take (snd (remove_loop f fin i index)) (fst (remove_loop f fin i index)) =
         kept @ filter (\<lambda>e. e \<noteq> fin) (drop i f)"
  using assms
proof (induction f fin i index arbitrary: kept rule: remove_loop.induct)
  case (1 f fin i index)
  show ?case
  proof (cases "i < length f")
    case False
    with 1 show ?thesis by (subst (1 2) remove_loop.simps) simp
  next
    case True
    note step = Cons_nth_drop_Suc [OF True, symmetric]
    show ?thesis
    proof (cases "f ! i = fin")
      case eq: True
      with True 1 show ?thesis
        by (simp add: remove_loop.simps [of f fin i index] step)
    next
      case neq: False
      let ?g = "f[index := f ! i]"
      have "take (Suc index) ?g = kept @ [f ! i]"
        using True 1(3,5) by (simp add: take_Suc_conv_app_nth)
      moreover have "drop (Suc i) ?g = drop (Suc i) f"
        using 1(3) by simp
      ultimately show ?thesis
        using True neq 1(2) [OF True neq, of "kept @ [f ! i]"] 1(3)
        by (simp add: remove_loop.simps [of f fin i index] step)
    qed
  qed
qed

lemma RemoveFinalizer_filter: "RemoveFinalizer f fin = filter (\<lambda>e. e \<noteq> fin) f"
  using remove_loop_spec [of 0 0 f "[]" fin]
  by (simp add: RemoveFinalizer_def case_prod_beta)

subsection \<open>Properties\<close>

text \<open>
  The in-place compaction of \<^verbatim>\<open>RemoveFinalizer\<close>, which copies the kept elements to
  the front of the slice it reads, is a filter: all occurrences of the finalizer are removed
  and the order of the others is kept. It terminates on every slice, being a total function.
\<close>

lemma RemoveFinalizer_is_filter:
  "RemoveFinalizer f fin = filter (\<lambda>e. e \<noteq> fin) f \<and> \<not> ContainsFinalizer (RemoveFinalizer f fin) fin"
  by (simp add: RemoveFinalizer_filter)

text \<open>
  Aggregating validation errors loses no message and repeats none: the aggregate of a
  non-empty list carries errors of the list with pairwise different messages, and every
  message of the list is among them.
\<close>

lemma ToAggregate_messages:
  "ToAggregate es = (if es = [] then None else Some (AggregateError (dedup_msgs [] es))) \<and>
   set (dedup_msgs [] es) \<subseteq> set es \<and>
   distinct (map FieldError_Error (dedup_msgs [] es)) \<and>
   set (map FieldError_Error (dedup_msgs [] es)) = set (map FieldError_Error es)"
  using dedup_msgs_subset [of "[]" es] dedup_msgs_distinct [of "[]" es]
    dedup_msgs_keeps_messages [of "[]" es]
  by (simp add: ToAggregate_def)

end
