(* ===== verification/Kube_Client.thy ===== *)
theory Kube_Client
  imports Apimachinery
begin

section \<open>The Kubernetes client and what the program relies on\<close>

text \<open>
  The program reaches the cluster through \<^verbatim>\<open>client.Client\<close> and
  \<^verbatim>\<open>client.Reader\<close>. The API server behind them is a service, so it is a parameter: a
  record of operations over a state \<open>'s\<close> of the outside world, one field per kind and verb
  the program uses. A write returns the object as the server answered it, which is what the
  Go client leaves in the variable it was given. \<open>Now\<close> is the clock.

  Nothing is assumed of the operations by the definitions. The locales below name the
  documented behaviour that the proofs about whole handlers rely on, seen through an
  abstraction \<open>cluster\<close> of the state to the stored objects.
\<close>

record 's client =
  Get_PDIS :: "NamespacedName \<Rightarrow> ('s, go_error + PDInferenceService) state"
  Get_Profile :: "NamespacedName \<Rightarrow> ('s, go_error + PDEngineProfile) state"
  Get_RBG :: "NamespacedName \<Rightarrow> ('s, go_error + RoleBasedGroup) state"
  List_PDIS :: "string \<Rightarrow> ('s, go_error + PDInferenceServiceList) state"
  List_Profile :: "string \<Rightarrow> ('s, go_error + PDEngineProfileList) state"
  Create_PDIS :: "PDInferenceService \<Rightarrow> ('s, go_error + PDInferenceService) state"
  Create_Profile :: "PDEngineProfile \<Rightarrow> ('s, go_error + PDEngineProfile) state"
  Create_RBG :: "RoleBasedGroup \<Rightarrow> ('s, go_error + RoleBasedGroup) state"
  Update_PDIS :: "PDInferenceService \<Rightarrow> ('s, go_error + PDInferenceService) state"
  Update_Profile :: "PDEngineProfile \<Rightarrow> ('s, go_error + PDEngineProfile) state"
  Update_RBG :: "RoleBasedGroup \<Rightarrow> ('s, go_error + RoleBasedGroup) state"
  Status_Update_PDIS :: "PDInferenceService \<Rightarrow> ('s, go_error + PDInferenceService) state"
  Delete_PDIS :: "PDInferenceService \<Rightarrow> ('s, go_error option) state"
  Delete_Profile :: "PDEngineProfile \<Rightarrow> ('s, go_error option) state"
  Now :: "('s, Time) state"

text \<open>The objects a cluster stores, by namespace and name.\<close>

record cluster =
  cl_pdis :: "NamespacedName \<rightharpoonup> PDInferenceService"
  cl_profiles :: "NamespacedName \<rightharpoonup> PDEngineProfile"
  cl_rbgs :: "NamespacedName \<rightharpoonup> RoleBasedGroup"

abbreviation pdis_key :: "PDInferenceService \<Rightarrow> NamespacedName" where
  "pdis_key p \<equiv> meta_key (pd_ObjectMeta p)"
abbreviation profile_key :: "PDEngineProfile \<Rightarrow> NamespacedName" where
  "profile_key p \<equiv> meta_key (ep_ObjectMeta p)"
abbreviation rbg_key :: "RoleBasedGroup \<Rightarrow> NamespacedName" where
  "rbg_key g \<equiv> meta_key (rbg_ObjectMeta g)"

subsection \<open>Reading\<close>

text \<open>
  A read leaves the stored objects alone, returns the stored object, and answers "not found"
  exactly for a missing one. Any other error is possible at any time.
\<close>

locale kube_reader =
  fixes api :: "'s client" and cluster :: "'s \<Rightarrow> cluster"
  assumes now_frame: "run_state (Now api) s = (t, s') \<Longrightarrow> cluster s' = cluster s"
    and get_pdis_frame: "run_state (Get_PDIS api k) s = (r, s') \<Longrightarrow> cluster s' = cluster s"
    and get_pdis_found: "run_state (Get_PDIS api k) s = (Inr p, s') \<Longrightarrow>
          cl_pdis (cluster s) k = Some p \<and> pdis_key p = k"
    and get_pdis_missing: "run_state (Get_PDIS api k) s = (Inl e, s') \<Longrightarrow> IsNotFound e \<Longrightarrow>
          cl_pdis (cluster s) k = None"
    and get_profile_frame: "run_state (Get_Profile api k) s = (q, s') \<Longrightarrow> cluster s' = cluster s"
    and get_profile_found: "run_state (Get_Profile api k) s = (Inr f, s') \<Longrightarrow>
          cl_profiles (cluster s) k = Some f \<and> profile_key f = k"
    and get_profile_missing: "run_state (Get_Profile api k) s = (Inl e, s') \<Longrightarrow> IsNotFound e \<Longrightarrow>
          cl_profiles (cluster s) k = None"
    and get_rbg_frame: "run_state (Get_RBG api k) s = (w, s') \<Longrightarrow> cluster s' = cluster s"
    and get_rbg_found: "run_state (Get_RBG api k) s = (Inr g, s') \<Longrightarrow>
          cl_rbgs (cluster s) k = Some g \<and> rbg_key g = k"
    and get_rbg_missing: "run_state (Get_RBG api k) s = (Inl e, s') \<Longrightarrow> IsNotFound e \<Longrightarrow>
          cl_rbgs (cluster s) k = None"
begin

lemmas read_frames = now_frame get_pdis_frame get_profile_frame get_rbg_frame

end

subsection \<open>The writes of the controller\<close>

text \<open>
  What a successful write does to the stored objects. Identity, owner references, finalizers
  and deletion mark are stored as sent; the server chooses the resource version and, on
  creation, the identity stamps. \<^verbatim>\<open>Update\<close> ignores the status it is sent and
  \<^verbatim>\<open>Status().Update\<close> ignores everything but the status. An update that removes the last
  finalizer of an object marked for deletion removes the object. The specification that is
  stored is the one sent after mutating admission, the parameter \<open>admit\<close>: the identity on a
  server without the webhooks, the defaulter on one with them.
\<close>

definition same_identity :: "ObjectMeta \<Rightarrow> ObjectMeta \<Rightarrow> bool" where
  "same_identity m m' \<longleftrightarrow>
     om_Name m' = om_Name m \<and> om_Namespace m' = om_Namespace m \<and>
     om_OwnerReferences m' = om_OwnerReferences m \<and> om_Finalizers m' = om_Finalizers m"

definition same_object_meta :: "ObjectMeta \<Rightarrow> ObjectMeta \<Rightarrow> bool" where
  "same_object_meta m m' \<longleftrightarrow> (\<exists>rv. m' = m\<lparr>om_ResourceVersion := rv\<rparr>)"

definition gone_after_update :: "ObjectMeta \<Rightarrow> bool" where
  "gone_after_update m \<longleftrightarrow> \<not> Time_IsZero (om_DeletionTimestamp m) \<and> om_Finalizers m = []"

lemma same_identity_refl [simp]: "same_identity m m"
  by (simp add: same_identity_def)

lemma same_object_metaD:
  assumes "same_object_meta m m'"
  shows "same_identity m m'" and "meta_key m' = meta_key m"
    and "om_DeletionTimestamp m' = om_DeletionTimestamp m"
    and "om_CreationTimestamp m' = om_CreationTimestamp m" and "om_UID m' = om_UID m"
  using assms by (auto simp: same_object_meta_def same_identity_def meta_key_def)

text \<open>A write, whatever it answers, changes at most the object it names.\<close>

definition only_pdis :: "NamespacedName \<Rightarrow> cluster \<Rightarrow> cluster \<Rightarrow> bool" where
  "only_pdis k c c' \<longleftrightarrow> cl_profiles c' = cl_profiles c \<and> cl_rbgs c' = cl_rbgs c \<and>
     (\<forall>j. j \<noteq> k \<longrightarrow> cl_pdis c' j = cl_pdis c j)"

definition only_rbg :: "NamespacedName \<Rightarrow> cluster \<Rightarrow> cluster \<Rightarrow> bool" where
  "only_rbg k c c' \<longleftrightarrow> cl_profiles c' = cl_profiles c \<and> cl_pdis c' = cl_pdis c \<and>
     (\<forall>j. j \<noteq> k \<longrightarrow> cl_rbgs c' j = cl_rbgs c j)"

definition only_at :: "NamespacedName \<Rightarrow> cluster \<Rightarrow> cluster \<Rightarrow> bool" where
  "only_at k c c' \<longleftrightarrow> cl_profiles c' = cl_profiles c \<and>
     (\<forall>j. j \<noteq> k \<longrightarrow> cl_pdis c' j = cl_pdis c j \<and> cl_rbgs c' j = cl_rbgs c j)"

lemma only_atI:
  "only_pdis k c c' \<Longrightarrow> only_at k c c'" "only_rbg k c c' \<Longrightarrow> only_at k c c'" "only_at k c c"
  by (auto simp: only_pdis_def only_rbg_def only_at_def)

lemma only_at_trans: "only_at k a b \<Longrightarrow> only_at k b c \<Longrightarrow> only_at k a c"
  by (auto simp: only_at_def)

locale kube_writer = kube_reader +
  fixes admit :: "PDInferenceServiceSpec \<Rightarrow> PDInferenceServiceSpec"
  assumes create_rbg_frame: "run_state (Create_RBG api g) s = (r, s') \<Longrightarrow>
          only_rbg (rbg_key g) (cluster s) (cluster s')"
    and update_rbg_frame: "run_state (Update_RBG api g) s = (r, s') \<Longrightarrow>
          only_rbg (rbg_key g) (cluster s) (cluster s')"
    and update_pdis_frame: "run_state (Update_PDIS api p) s = (q, s') \<Longrightarrow>
          only_pdis (pdis_key p) (cluster s) (cluster s')"
    and status_update_pdis_frame: "run_state (Status_Update_PDIS api p) s = (q, s') \<Longrightarrow>
          only_pdis (pdis_key p) (cluster s) (cluster s')"
    and create_rbg_ok: "run_state (Create_RBG api g) s = (Inr g', s') \<Longrightarrow>
          cl_rbgs (cluster s) (rbg_key g) = None \<and>
          cluster s' = (cluster s)\<lparr>cl_rbgs := (cl_rbgs (cluster s))(rbg_key g \<mapsto> g')\<rparr> \<and>
          same_identity (rbg_ObjectMeta g) (rbg_ObjectMeta g') \<and>
          om_DeletionTimestamp (rbg_ObjectMeta g') = None \<and> rbg_Spec g' = rbg_Spec g"
    and update_rbg_ok: "run_state (Update_RBG api g) s = (Inr g', s') \<Longrightarrow>
          \<not> gone_after_update (rbg_ObjectMeta g) \<Longrightarrow>
          (\<exists>old. cl_rbgs (cluster s) (rbg_key g) = Some old \<and>
            om_ResourceVersion (rbg_ObjectMeta old) = om_ResourceVersion (rbg_ObjectMeta g) \<and>
            rbg_Status g' = rbg_Status old) \<and>
          cluster s' = (cluster s)\<lparr>cl_rbgs := (cl_rbgs (cluster s))(rbg_key g \<mapsto> g')\<rparr> \<and>
          same_object_meta (rbg_ObjectMeta g) (rbg_ObjectMeta g') \<and> rbg_Spec g' = rbg_Spec g"
    and update_pdis_ok: "run_state (Update_PDIS api p) s = (Inr p', s') \<Longrightarrow>
          \<not> gone_after_update (pd_ObjectMeta p) \<Longrightarrow>
          (\<exists>old. cl_pdis (cluster s) (pdis_key p) = Some old \<and>
            om_ResourceVersion (pd_ObjectMeta old) = om_ResourceVersion (pd_ObjectMeta p) \<and>
            pd_Status p' = pd_Status old) \<and>
          cluster s' = (cluster s)\<lparr>cl_pdis := (cl_pdis (cluster s))(pdis_key p \<mapsto> p')\<rparr> \<and>
          same_object_meta (pd_ObjectMeta p) (pd_ObjectMeta p') \<and> pd_Spec p' = admit (pd_Spec p)"
    and update_pdis_gone: "run_state (Update_PDIS api p) s = (Inr p', s') \<Longrightarrow>
          gone_after_update (pd_ObjectMeta p) \<Longrightarrow>
          cluster s' = (cluster s)\<lparr>cl_pdis := (cl_pdis (cluster s))(pdis_key p := None)\<rparr>"
    and status_update_pdis_ok: "run_state (Status_Update_PDIS api p) s = (Inr p', s') \<Longrightarrow>
          cl_pdis (cluster s) (pdis_key p) = Some old \<Longrightarrow>
          \<not> gone_after_update (pd_ObjectMeta old) \<Longrightarrow>
          same_object_meta (pd_ObjectMeta old) (pd_ObjectMeta p') \<and> pd_Spec p' = pd_Spec old \<and>
          pd_Status p' = pd_Status p \<and>
          cluster s' = (cluster s)\<lparr>cl_pdis := (cl_pdis (cluster s))(pdis_key p \<mapsto> p')\<rparr>"

subsection \<open>Optimistic concurrency\<close>

text \<open>
  What a write leaves behind, whatever it answers: an update either has no effect on the
  stored object or replaces one with the resource version that was sent; a status update never
  touches a specification; a creation never replaces an object.
\<close>

locale kube_versioned = kube_writer +
  assumes update_pdis_versioned: "run_state (Update_PDIS api p) s = (r3, s') \<Longrightarrow>
          cl_pdis (cluster s') (pdis_key p) = Some q' \<Longrightarrow>
          cl_pdis (cluster s) (pdis_key p) = Some q' \<or>
          (\<exists>old. cl_pdis (cluster s) (pdis_key p) = Some old \<and>
            om_ResourceVersion (pd_ObjectMeta old) = om_ResourceVersion (pd_ObjectMeta p) \<and>
            pd_Spec q' = admit (pd_Spec p))"
    and status_update_versioned: "run_state (Status_Update_PDIS api p) s = (r3, s') \<Longrightarrow>
          cl_pdis (cluster s') (pdis_key p) = Some q' \<Longrightarrow>
          \<exists>old. cl_pdis (cluster s) (pdis_key p) = Some old \<and> pd_Spec q' = pd_Spec old"
    and update_rbg_versioned: "run_state (Update_RBG api g) s = (r4, s') \<Longrightarrow>
          cl_rbgs (cluster s') (rbg_key g) = Some h' \<Longrightarrow>
          cl_rbgs (cluster s) (rbg_key g) = Some h' \<or>
          (\<exists>old. cl_rbgs (cluster s) (rbg_key g) = Some old \<and>
            om_ResourceVersion (rbg_ObjectMeta old) = om_ResourceVersion (rbg_ObjectMeta g) \<and>
            rbg_Spec h' = rbg_Spec g \<and> rbg_Status h' = rbg_Status old)"
    and create_rbg_existing: "run_state (Create_RBG api g) s = (r4, s') \<Longrightarrow>
          cl_rbgs (cluster s) (rbg_key g) = Some h' \<Longrightarrow> cl_rbgs (cluster s') (rbg_key g) = Some h'"

subsection \<open>A server that answers\<close>

text \<open>
  The laws above say nothing about when a call succeeds. A reliable server, in a state that
  satisfies its own invariant \<open>ok\<close>, answers every read from the stored objects, accepts the
  creation of an absent object and accepts a write whose metadata is that of the stored
  object. Progress and termination of reconciliations are proved over this interface.
\<close>

locale kube_reliable = kube_writer +
  fixes ok :: "'a \<Rightarrow> bool"
  assumes now_total: "ok s \<Longrightarrow> \<exists>t s'. run_state (Now api) s = (t, s') \<and> ok s'"
    and get_pdis_stored: "ok s \<Longrightarrow> cl_pdis (cluster s) k = Some p \<Longrightarrow>
          \<exists>s'. run_state (Get_PDIS api k) s = (Inr p, s') \<and> ok s'"
    and get_profile_stored: "ok s \<Longrightarrow> cl_profiles (cluster s) k = Some f \<Longrightarrow>
          \<exists>s'. run_state (Get_Profile api k) s = (Inr f, s') \<and> ok s'"
    and get_profile_absent: "ok s \<Longrightarrow> cl_profiles (cluster s) k = None \<Longrightarrow>
          \<exists>e s'. run_state (Get_Profile api k) s = (Inl e, s') \<and> IsNotFound e \<and> ok s'"
    and get_rbg_stored: "ok s \<Longrightarrow> cl_rbgs (cluster s) k = Some g \<Longrightarrow>
          \<exists>s'. run_state (Get_RBG api k) s = (Inr g, s') \<and> ok s'"
    and get_rbg_absent: "ok s \<Longrightarrow> cl_rbgs (cluster s) k = None \<Longrightarrow>
          \<exists>e s'. run_state (Get_RBG api k) s = (Inl e, s') \<and> IsNotFound e \<and> ok s'"
    and stored_named: "ok s \<Longrightarrow> cl_pdis (cluster s) k = Some p \<Longrightarrow> pd_Name p \<noteq> ''''"
    and create_rbg_accepted: "ok s \<Longrightarrow> cl_rbgs (cluster s) (rbg_key g) = None \<Longrightarrow>
          rbg_Name g \<noteq> '''' \<Longrightarrow> om_ResourceVersion (rbg_ObjectMeta g) = '''' \<Longrightarrow>
          \<exists>g' s'. run_state (Create_RBG api g) s = (Inr g', s') \<and> ok s'"
    and update_rbg_accepted: "ok s \<Longrightarrow> cl_rbgs (cluster s) (rbg_key g) = Some h \<Longrightarrow>
          rbg_ObjectMeta g = rbg_ObjectMeta h \<Longrightarrow>
          \<exists>g' s'. run_state (Update_RBG api g) s = (Inr g', s') \<and> ok s'"
    and update_pdis_accepted: "ok s \<Longrightarrow> cl_pdis (cluster s) (pdis_key p) = Some old \<Longrightarrow>
          pd_ObjectMeta p = (pd_ObjectMeta old)\<lparr>om_Finalizers := om_Finalizers (pd_ObjectMeta p)\<rparr> \<Longrightarrow>
          pd_Spec p = pd_Spec old \<Longrightarrow>
          \<exists>p' s'. run_state (Update_PDIS api p) s = (Inr p', s') \<and> ok s'"
    and status_update_accepted: "ok s \<Longrightarrow> cl_pdis (cluster s) (pdis_key p) = Some old \<Longrightarrow>
          pd_ObjectMeta p = pd_ObjectMeta old \<Longrightarrow>
          \<exists>p' s'. run_state (Status_Update_PDIS api p) s = (Inr p', s') \<and> ok s'"

subsection \<open>The calls of the REST server\<close>

text \<open>
  Lists, creations, deletions and the profile writes. A deletion removes an object without
  finalizers at once and otherwise stamps it; the stamped object keeps everything else.
\<close>

definition only_profile :: "NamespacedName \<Rightarrow> cluster \<Rightarrow> cluster \<Rightarrow> bool" where
  "only_profile k c c' \<longleftrightarrow> cl_pdis c' = cl_pdis c \<and> cl_rbgs c' = cl_rbgs c \<and>
     (\<forall>j. j \<noteq> k \<longrightarrow> cl_profiles c' j = cl_profiles c j)"

definition stamped :: "ObjectMeta \<Rightarrow> ObjectMeta \<Rightarrow> bool" where
  "stamped m m' \<longleftrightarrow> (\<exists>rv t. t \<noteq> 0 \<and> m' = m\<lparr>om_ResourceVersion := rv, om_DeletionTimestamp := Some t\<rparr>)"

lemma stampedD:
  assumes "stamped m m'"
  shows "\<not> Time_IsZero (om_DeletionTimestamp m')" and "om_Finalizers m' = om_Finalizers m"
    and "meta_key m' = meta_key m"
  using assms by (auto simp: stamped_def meta_key_def)

text \<open>The object left under a key by a successful deletion.\<close>

definition pdis_after_delete :: "PDInferenceService \<Rightarrow> PDInferenceService option \<Rightarrow> bool" where
  "pdis_after_delete old new = (case new of
     None \<Rightarrow> om_Finalizers (pd_ObjectMeta old) = []
   | Some q \<Rightarrow> om_Finalizers (pd_ObjectMeta old) \<noteq> [] \<and>
       stamped (pd_ObjectMeta old) (pd_ObjectMeta q) \<and> pd_Spec q = pd_Spec old \<and> pd_Status q = pd_Status old)"

definition profile_after_delete :: "PDEngineProfile \<Rightarrow> PDEngineProfile option \<Rightarrow> bool" where
  "profile_after_delete old new = (case new of
     None \<Rightarrow> om_Finalizers (ep_ObjectMeta old) = []
   | Some f \<Rightarrow> om_Finalizers (ep_ObjectMeta old) \<noteq> [] \<and>
       stamped (ep_ObjectMeta old) (ep_ObjectMeta f) \<and> ep_Spec f = ep_Spec old)"

locale kube_rest = kube_reliable +
  assumes list_pdis_frame: "run_state (List_PDIS api ns) s = (r1, s') \<Longrightarrow> cluster s' = cluster s"
    and list_profile_frame: "run_state (List_Profile api ns) s = (r2, s') \<Longrightarrow> cluster s' = cluster s"
    and list_pdis_total: "ok s \<Longrightarrow> \<exists>l s'. run_state (List_PDIS api ns) s = (Inr l, s') \<and> ok s' \<and>
          distinct (map pdis_key (pdl_Items l)) \<and>
          (\<forall>p. p \<in> set (pdl_Items l) \<longleftrightarrow> cl_pdis (cluster s) (pdis_key p) = Some p \<and>
             (ns = '''' \<or> pd_Namespace p = ns))"
    and list_profile_total: "ok s \<Longrightarrow> \<exists>l s'. run_state (List_Profile api ns) s = (Inr l, s') \<and> ok s' \<and>
          distinct (map profile_key (epl_Items l)) \<and>
          (\<forall>f. f \<in> set (epl_Items l) \<longleftrightarrow> cl_profiles (cluster s) (profile_key f) = Some f \<and>
             (ns = '''' \<or> ep_Namespace f = ns))"
    and get_pdis_absent: "ok s \<Longrightarrow> cl_pdis (cluster s) k = None \<Longrightarrow>
          \<exists>e s'. run_state (Get_PDIS api k) s = (Inl e, s') \<and> IsNotFound e \<and> ok s'"
    and create_pdis_frame: "run_state (Create_PDIS api p) s = (r3, s') \<Longrightarrow>
          only_pdis (pdis_key p) (cluster s) (cluster s')"
    and create_pdis_ok: "run_state (Create_PDIS api p) s = (Inr p', s') \<Longrightarrow>
          cl_pdis (cluster s) (pdis_key p) = None \<and>
          cluster s' = (cluster s)\<lparr>cl_pdis := (cl_pdis (cluster s))(pdis_key p \<mapsto> p')\<rparr> \<and>
          same_identity (pd_ObjectMeta p) (pd_ObjectMeta p') \<and>
          om_DeletionTimestamp (pd_ObjectMeta p') = None \<and> pd_Spec p' = admit (pd_Spec p)"
    and delete_pdis_frame: "run_state (Delete_PDIS api p) s = (e, s') \<Longrightarrow>
          only_pdis (pdis_key p) (cluster s) (cluster s')"
    and delete_pdis_ok: "run_state (Delete_PDIS api p) s = (None, s') \<Longrightarrow>
          \<exists>old. cl_pdis (cluster s) (pdis_key p) = Some old \<and>
            pdis_after_delete old (cl_pdis (cluster s') (pdis_key p))"
    and delete_pdis_accepted: "ok s \<Longrightarrow> cl_pdis (cluster s) (pdis_key p) = Some old \<Longrightarrow>
          \<exists>s'. run_state (Delete_PDIS api p) s = (None, s')"
    and create_profile_frame: "run_state (Create_Profile api f) s = (r4, s') \<Longrightarrow>
          only_profile (profile_key f) (cluster s) (cluster s')"
    and create_profile_ok: "run_state (Create_Profile api f) s = (Inr f', s') \<Longrightarrow>
          cl_profiles (cluster s) (profile_key f) = None \<and>
          cl_profiles (cluster s') (profile_key f) = Some f' \<and>
          same_identity (ep_ObjectMeta f) (ep_ObjectMeta f') \<and> ep_Spec f' = ep_Spec f"
    and update_profile_frame: "run_state (Update_Profile api f) s = (r5, s') \<Longrightarrow>
          only_profile (profile_key f) (cluster s) (cluster s')"
    and update_profile_ok: "run_state (Update_Profile api f) s = (Inr f', s') \<Longrightarrow>
          \<not> gone_after_update (ep_ObjectMeta f) \<Longrightarrow>
          cl_profiles (cluster s') (profile_key f) = Some f' \<and>
          same_object_meta (ep_ObjectMeta f) (ep_ObjectMeta f') \<and> ep_Spec f' = ep_Spec f"
    and delete_profile_frame: "run_state (Delete_Profile api f) s = (e, s') \<Longrightarrow>
          only_profile (profile_key f) (cluster s) (cluster s')"
    and delete_profile_ok: "run_state (Delete_Profile api f) s = (None, s') \<Longrightarrow>
          \<exists>old. cl_profiles (cluster s) (profile_key f) = Some old \<and>
            profile_after_delete old (cl_profiles (cluster s') (profile_key f))"
    and rest_keeps_ok: "ok s \<Longrightarrow> ok (snd (run_state (Create_PDIS api p) s))"
          "ok s \<Longrightarrow> ok (snd (run_state (Update_PDIS api p) s))"
          "ok s \<Longrightarrow> ok (snd (run_state (Delete_PDIS api p) s))"
          "ok s \<Longrightarrow> ok (snd (run_state (Create_Profile api f) s))"
          "ok s \<Longrightarrow> ok (snd (run_state (Update_Profile api f) s))"
          "ok s \<Longrightarrow> ok (snd (run_state (Delete_Profile api f) s))"

end
