(* ===== verification/Config_Merger.thy ===== *)
theory Config_Merger
  imports Kube_Client
begin

section \<open>Configuration merging (\<^verbatim>\<open>internal/config/merger.go\<close>)\<close>

text \<open>
  \<^verbatim>\<open>Merger.Resolve\<close> loads the referenced \<^verbatim>\<open>PDEngineProfile\<close>, copies its
  defaults into a fresh \<^verbatim>\<open>MergedConfig\<close> and then lets every non-empty inline field
  of the \<^verbatim>\<open>PDInferenceService\<close> replace the default. The abstract specification is a
  lookup through layers: the first layer with a non-empty value wins and nothing is
  concatenated. The lemmas show that \<open>Resolve\<close> computes exactly that lookup, what its
  errors are, and that inlining a merged configuration makes the profile reference redundant.
\<close>

record MergedConfig =
  mc_Images :: RoleImages
  mc_RouterCommand :: "string list"
  mc_PrefillCommand :: "string list"
  mc_DecodeCommand :: "string list"
  mc_RouterArgs :: "string list"
  mc_PrefillArgs :: "string list"
  mc_DecodeArgs :: "string list"
  mc_EngineRuntimes :: "RoleEngineRuntimes option"

definition zero_MergedConfig :: MergedConfig where
  "zero_MergedConfig = \<lparr>mc_Images = zero_RoleImages, mc_RouterCommand = [], mc_PrefillCommand = [],
     mc_DecodeCommand = [], mc_RouterArgs = [], mc_PrefillArgs = [], mc_DecodeArgs = [],
     mc_EngineRuntimes = None\<rparr>"

definition applyProfile :: "PDEngineProfile \<Rightarrow> MergedConfig \<Rightarrow> MergedConfig" where
  "applyProfile profile m =
     (let m = m\<lparr>mc_Images := eps_Images (ep_Spec profile)\<rparr>;
          m = (case eps_RoleCommands (ep_Spec profile) of
                 None \<Rightarrow> m
               | Some rc \<Rightarrow> m\<lparr>mc_RouterCommand := rcm_Router rc,
                               mc_PrefillCommand := rcm_Prefill rc,
                               mc_DecodeCommand := rcm_Decode rc\<rparr>);
          m = (case eps_RoleArgs (ep_Spec profile) of
                 None \<Rightarrow> m
               | Some ra \<Rightarrow> m\<lparr>mc_RouterArgs := ra_Router ra,
                               mc_PrefillArgs := ra_Prefill ra,
                               mc_DecodeArgs := ra_Decode ra\<rparr>)
      in m\<lparr>mc_EngineRuntimes := eps_EngineRuntimes (ep_Spec profile)\<rparr>)"

text \<open>Steps 2 to 4 of \<^verbatim>\<open>Resolve\<close>: the inline image, command and args of each role.\<close>

definition overrideImages :: "PDInferenceServiceSpec \<Rightarrow> RoleImages \<Rightarrow> RoleImages" where
  "overrideImages spec im =
     (let im = (if ror_Image (sp_Router spec) \<noteq> '''' then im\<lparr>im_Router := ror_Image (sp_Router spec)\<rparr> else im);
          im = (if irs_Image (sp_Prefill spec) \<noteq> '''' then im\<lparr>im_Prefill := irs_Image (sp_Prefill spec)\<rparr> else im);
          im = (if irs_Image (sp_Decode spec) \<noteq> '''' then im\<lparr>im_Decode := irs_Image (sp_Decode spec)\<rparr> else im)
      in im)"

definition overrideInline :: "PDInferenceServiceSpec \<Rightarrow> MergedConfig \<Rightarrow> MergedConfig" where
  "overrideInline spec m =
     (let m = m\<lparr>mc_Images := overrideImages spec (mc_Images m)\<rparr>;
          m = (if length (ror_Command (sp_Router spec)) > 0 then m\<lparr>mc_RouterCommand := ror_Command (sp_Router spec)\<rparr> else m);
          m = (if length (irs_Command (sp_Prefill spec)) > 0 then m\<lparr>mc_PrefillCommand := irs_Command (sp_Prefill spec)\<rparr> else m);
          m = (if length (irs_Command (sp_Decode spec)) > 0 then m\<lparr>mc_DecodeCommand := irs_Command (sp_Decode spec)\<rparr> else m);
          m = (if length (ror_Args (sp_Router spec)) > 0 then m\<lparr>mc_RouterArgs := ror_Args (sp_Router spec)\<rparr> else m);
          m = (if length (irs_Args (sp_Prefill spec)) > 0 then m\<lparr>mc_PrefillArgs := irs_Args (sp_Prefill spec)\<rparr> else m);
          m = (if length (irs_Args (sp_Decode spec)) > 0 then m\<lparr>mc_DecodeArgs := irs_Args (sp_Decode spec)\<rparr> else m)
      in m)"

definition Resolve :: "'s client \<Rightarrow> PDInferenceService \<Rightarrow> ('s, go_error + MergedConfig) state" where
  "Resolve cl pdis =
     (if sp_EngineProfileRef (pd_Spec pdis) \<noteq> '''' then do {
        r \<leftarrow> Get_Profile cl (mk_key (pd_Namespace pdis) (sp_EngineProfileRef (pd_Spec pdis)));
        (case r of
           Inl err \<Rightarrow> State_Monad.return (Inl (WrapError
             (''get profile '' @ go_quote (sp_EngineProfileRef (pd_Spec pdis)) @ '': '') err))
         | Inr profile \<Rightarrow> State_Monad.return (Inr
             (overrideInline (pd_Spec pdis) (applyProfile profile zero_MergedConfig))))
      }
      else State_Monad.return (Inr (overrideInline (pd_Spec pdis) zero_MergedConfig)))"

subsection \<open>The abstract specification: lookup through layers\<close>

text \<open>
  A layer offers, per role, an image, a command and an argument list, each possibly empty.
\<close>

datatype role = Router | Prefill | Decode

record layer =
  ly_image :: "role \<Rightarrow> string"
  ly_command :: "role \<Rightarrow> string list"
  ly_args :: "role \<Rightarrow> string list"

fun first_nonempty :: "'a list list \<Rightarrow> 'a list" where
  "first_nonempty [] = []"
| "first_nonempty (x # xs) = (if x \<noteq> [] then x else first_nonempty xs)"

fun inline_layer :: "PDInferenceServiceSpec \<Rightarrow> layer" where
  "inline_layer spec =
     \<lparr>ly_image = (\<lambda>r. case r of Router \<Rightarrow> ror_Image (sp_Router spec)
        | Prefill \<Rightarrow> irs_Image (sp_Prefill spec) | Decode \<Rightarrow> irs_Image (sp_Decode spec)),
      ly_command = (\<lambda>r. case r of Router \<Rightarrow> ror_Command (sp_Router spec)
        | Prefill \<Rightarrow> irs_Command (sp_Prefill spec) | Decode \<Rightarrow> irs_Command (sp_Decode spec)),
      ly_args = (\<lambda>r. case r of Router \<Rightarrow> ror_Args (sp_Router spec)
        | Prefill \<Rightarrow> irs_Args (sp_Prefill spec) | Decode \<Rightarrow> irs_Args (sp_Decode spec))\<rparr>"

fun profile_layer :: "PDEngineProfileSpec \<Rightarrow> layer" where
  "profile_layer ps =
     \<lparr>ly_image = (\<lambda>r. case r of Router \<Rightarrow> im_Router (eps_Images ps)
        | Prefill \<Rightarrow> im_Prefill (eps_Images ps) | Decode \<Rightarrow> im_Decode (eps_Images ps)),
      ly_command = (\<lambda>r. case eps_RoleCommands ps of None \<Rightarrow> [] | Some rc \<Rightarrow>
        (case r of Router \<Rightarrow> rcm_Router rc | Prefill \<Rightarrow> rcm_Prefill rc | Decode \<Rightarrow> rcm_Decode rc)),
      ly_args = (\<lambda>r. case eps_RoleArgs ps of None \<Rightarrow> [] | Some ra \<Rightarrow>
        (case r of Router \<Rightarrow> ra_Router ra | Prefill \<Rightarrow> ra_Prefill ra | Decode \<Rightarrow> ra_Decode ra))\<rparr>"

fun config_layer :: "MergedConfig \<Rightarrow> layer" where
  "config_layer m =
     \<lparr>ly_image = (\<lambda>r. case r of Router \<Rightarrow> im_Router (mc_Images m)
        | Prefill \<Rightarrow> im_Prefill (mc_Images m) | Decode \<Rightarrow> im_Decode (mc_Images m)),
      ly_command = (\<lambda>r. case r of Router \<Rightarrow> mc_RouterCommand m
        | Prefill \<Rightarrow> mc_PrefillCommand m | Decode \<Rightarrow> mc_DecodeCommand m),
      ly_args = (\<lambda>r. case r of Router \<Rightarrow> mc_RouterArgs m
        | Prefill \<Rightarrow> mc_PrefillArgs m | Decode \<Rightarrow> mc_DecodeArgs m)\<rparr>"

definition lookup_layers :: "layer list \<Rightarrow> layer" where
  "lookup_layers ls =
     \<lparr>ly_image = (\<lambda>r. first_nonempty (map (\<lambda>l. ly_image l r) ls)),
      ly_command = (\<lambda>r. first_nonempty (map (\<lambda>l. ly_command l r) ls)),
      ly_args = (\<lambda>r. first_nonempty (map (\<lambda>l. ly_args l r) ls))\<rparr>"

lemma layer_eqI:
  assumes "\<And>r. ly_image a r = ly_image b r" and "\<And>r. ly_command a r = ly_command b r"
    and "\<And>r. ly_args a r = ly_args b r"
  shows "(a :: layer) = b"
  using assms by (cases a; cases b) (auto simp: fun_eq_iff)

lemma first_nonempty_single [simp]: "first_nonempty [x] = x"
  by simp

subsection \<open>Merging refines the lookup\<close>

lemma overrideInline_layer:
  "config_layer (overrideInline spec m) = lookup_layers [inline_layer spec, config_layer m]"
  by (rule layer_eqI; rename_tac r; case_tac r)
     (simp_all add: overrideInline_def overrideImages_def lookup_layers_def Let_def)

lemma applyProfile_layer:
  "config_layer (applyProfile profile zero_MergedConfig) = profile_layer (ep_Spec profile)"
  by (rule layer_eqI; rename_tac r; case_tac r)
     (simp_all add: applyProfile_def zero_MergedConfig_def Let_def split: option.split)

lemma zero_layer:
  "config_layer zero_MergedConfig = lookup_layers []"
  by (rule layer_eqI; rename_tac r; case_tac r)
     (simp_all add: zero_MergedConfig_def zero_RoleImages_def lookup_layers_def)

lemma overrideInline_runtimes [simp]:
  "mc_EngineRuntimes (overrideInline spec m) = mc_EngineRuntimes m"
  by (simp add: overrideInline_def Let_def)

lemma applyProfile_runtimes [simp]:
  "mc_EngineRuntimes (applyProfile profile m) = eps_EngineRuntimes (ep_Spec profile)"
  by (simp add: applyProfile_def Let_def)

lemma lookup_layers_nested:
  "lookup_layers [a, lookup_layers ls] = lookup_layers (a # ls)"
  by (rule layer_eqI) (simp_all add: lookup_layers_def)

lemmas resolve_layers = overrideInline_layer applyProfile_layer zero_layer lookup_layers_nested

lemma Resolve_without_profile:
  "sp_EngineProfileRef (pd_Spec pdis) = '''' \<Longrightarrow>
   run_state (Resolve cl pdis) s = (Inr (overrideInline (pd_Spec pdis) zero_MergedConfig), s)"
  by (simp add: Resolve_def)

lemma Resolve_with_profile:
  assumes "sp_EngineProfileRef (pd_Spec pdis) \<noteq> ''''"
    and "run_state (Get_Profile cl (mk_key (pd_Namespace pdis) (sp_EngineProfileRef (pd_Spec pdis)))) s = (Inr f, s')"
  shows "run_state (Resolve cl pdis) s =
     (Inr (overrideInline (pd_Spec pdis) (applyProfile f zero_MergedConfig)), s')"
  using assms by (simp add: Resolve_def)

lemma Resolve_profile_error:
  assumes "sp_EngineProfileRef (pd_Spec pdis) \<noteq> ''''"
    and "run_state (Get_Profile cl (mk_key (pd_Namespace pdis) (sp_EngineProfileRef (pd_Spec pdis)))) s = (Inl e, s')"
  shows "run_state (Resolve cl pdis) s =
     (Inl (WrapError (''get profile '' @ go_quote (sp_EngineProfileRef (pd_Spec pdis)) @ '': '') e), s')"
  using assms by (simp add: Resolve_def)

lemma Resolve_cases:
  assumes "run_state (Resolve cl pdis) s = (r, s')"
  obtains (inline) "sp_EngineProfileRef (pd_Spec pdis) = ''''" "s' = s"
      "r = Inr (overrideInline (pd_Spec pdis) zero_MergedConfig)"
  | (profile) f where "sp_EngineProfileRef (pd_Spec pdis) \<noteq> ''''"
      "run_state (Get_Profile cl (mk_key (pd_Namespace pdis) (sp_EngineProfileRef (pd_Spec pdis)))) s = (Inr f, s')"
      "r = Inr (overrideInline (pd_Spec pdis) (applyProfile f zero_MergedConfig))"
  | (failed) e where "sp_EngineProfileRef (pd_Spec pdis) \<noteq> ''''"
      "run_state (Get_Profile cl (mk_key (pd_Namespace pdis) (sp_EngineProfileRef (pd_Spec pdis)))) s = (Inl e, s')"
      "r = Inl (WrapError (''get profile '' @ go_quote (sp_EngineProfileRef (pd_Spec pdis)) @ '': '') e)"
  using assms
  by (auto simp: Resolve_def split: if_splits prod.splits sum.splits)

subsection \<open>Properties\<close>

text \<open>
  C18: \<^verbatim>\<open>Merger.Resolve\<close> refines the layered lookup. Without a profile reference it asks the
  server nothing and the configuration is the inline layer; with one, it is the first
  non-empty value of the inline layer and of the referenced profile, per role and field, and
  the profile's engine runtimes are carried over. It fails exactly when the profile cannot be
  read, and the error it returns names the profile and is a not-found error iff the read
  error was one.
\<close>

theorem Resolve_refines_layers:
  "(case run_state (Resolve cl pdis) s of
      (Inr cfg, s') \<Rightarrow>
        if sp_EngineProfileRef (pd_Spec pdis) = ''''
        then s' = s \<and> config_layer cfg = lookup_layers [inline_layer (pd_Spec pdis)] \<and>
             mc_EngineRuntimes cfg = None
        else (\<exists>f. run_state (Get_Profile cl
                  (mk_key (pd_Namespace pdis) (sp_EngineProfileRef (pd_Spec pdis)))) s = (Inr f, s') \<and>
                config_layer cfg = lookup_layers [inline_layer (pd_Spec pdis), profile_layer (ep_Spec f)] \<and>
                mc_EngineRuntimes cfg = eps_EngineRuntimes (ep_Spec f))
    | (Inl err, s') \<Rightarrow>
        sp_EngineProfileRef (pd_Spec pdis) \<noteq> '''' \<and>
        (\<exists>e. run_state (Get_Profile cl
               (mk_key (pd_Namespace pdis) (sp_EngineProfileRef (pd_Spec pdis)))) s = (Inl e, s') \<and>
             IsNotFound err = IsNotFound e \<and>
             Error err = ''get profile '' @ go_quote (sp_EngineProfileRef (pd_Spec pdis)) @ '': '' @ Error e))"
proof (cases "run_state (Resolve cl pdis) s")
  case (Pair r s')
  then show ?thesis
  proof (cases rule: Resolve_cases)
    case inline
    with Pair show ?thesis
      by (simp add: resolve_layers del: inline_layer.simps config_layer.simps) (simp add: zero_MergedConfig_def)
  next
    case (profile f)
    with Pair show ?thesis
      by (simp add: resolve_layers del: inline_layer.simps config_layer.simps profile_layer.simps)
  next
    case (failed e)
    with Pair show ?thesis by simp
  qed
qed

end
