(* ===== verification/Webhook.thy ===== *)
theory Webhook
  imports Config_Merger
begin

section \<open>Admission webhooks (\<^verbatim>\<open>internal/webhook/v1alpha1\<close>)\<close>

text \<open>
  The defaulter and the validator of \<^verbatim>\<open>pdinferenceservice_webhook.go\<close>. A
  \<^verbatim>\<open>runtime.Object\<close> is a \<^verbatim>\<open>*PDInferenceService\<close> or a pointer of another type,
  of which only the name the \<^verbatim>\<open>%T\<close> verb prints matters. Admission warnings are always
  nil, so a validator returns an optional error. The lemmas characterise acceptance exactly,
  relate defaulting and validation, and say what an accepted object guarantees downstream.
\<close>

datatype runtime_Object = PDISObject PDInferenceService | OtherObject string

subsection \<open>Defaulting\<close>

definition defaultSpec :: "PDInferenceServiceSpec \<Rightarrow> PDInferenceServiceSpec" where
  "defaultSpec spec =
     (let spec = (if sp_Engine spec = '''' then spec\<lparr>sp_Engine := EngineTypeSGLang\<rparr> else spec);
          spec = (if sint (ror_Replicas (sp_Router spec)) < 1
                  then spec\<lparr>sp_Router := (sp_Router spec)\<lparr>ror_Replicas := 1\<rparr>\<rparr> else spec)
      in spec)"

definition Default :: "runtime_Object \<Rightarrow> go_error + runtime_Object" where
  "Default obj = (case obj of
     OtherObject t \<Rightarrow> Inl (ErrorString (''expected a PDInferenceService but got '' @ t))
   | PDISObject pdis \<Rightarrow> Inr (PDISObject (pdis\<lparr>pd_Spec := defaultSpec (pd_Spec pdis)\<rparr>)))"

subsection \<open>Validation on creation\<close>

definition basicErrors :: "PDInferenceServiceSpec \<Rightarrow> FieldError list" where
  "basicErrors spec =
     (if sp_Model spec = '''' then
        [field_Required (NewPath [''spec'', ''model'']) ''model name is required''] else []) @
     (if sint (irs_Replicas (sp_Prefill spec)) < 1 then
        [field_Invalid (NewPath [''spec'', ''prefill'', ''replicas''])
           (BadInt32 (irs_Replicas (sp_Prefill spec))) ''prefill replicas must be >= 1''] else []) @
     (if sint (irs_Replicas (sp_Decode spec)) < 1 then
        [field_Invalid (NewPath [''spec'', ''decode'', ''replicas''])
           (BadInt32 (irs_Replicas (sp_Decode spec))) ''decode replicas must be >= 1''] else [])"

definition validateProfileExists :: "'s client \<Rightarrow> string \<Rightarrow> string \<Rightarrow> ('s, go_error option) state" where
  "validateProfileExists cl namespace name = do {
     r \<leftarrow> Get_Profile cl (mk_key namespace name);
     (case r of
        Inl err \<Rightarrow> State_Monad.return (Some (WrapError (''PDEngineProfile '' @ go_quote name @
          '' not found in namespace '' @ go_quote namespace @ '': '') err))
      | Inr profile \<Rightarrow> State_Monad.return None)
   }"

definition profileErrors :: "'s client \<Rightarrow> PDInferenceService \<Rightarrow> ('s, FieldError list) state" where
  "profileErrors cl pdis =
     (let ref = sp_EngineProfileRef (pd_Spec pdis) in
      if ref \<noteq> '''' then do {
        r \<leftarrow> validateProfileExists cl (pd_Namespace pdis) ref;
        (case r of
           Some err \<Rightarrow> State_Monad.return
             [field_Invalid (NewPath [''spec'', ''engineProfileRef'']) (BadString ref) (Error err)]
         | None \<Rightarrow> State_Monad.return [])
      }
      else State_Monad.return [])"

definition requiredField :: "string \<Rightarrow> string \<Rightarrow> string \<Rightarrow> bool \<Rightarrow> FieldError list" where
  "requiredField rolePath fld detail missing =
     (if missing then [field_Required (NewPath [''spec'', rolePath, fld]) detail] else [])"

definition inlineErrors :: "PDInferenceServiceSpec \<Rightarrow> FieldError list" where
  "inlineErrors spec =
     (if sp_EngineProfileRef spec \<noteq> '''' then [] else
        requiredField ''router'' ''image'' ''router image is required when engineProfileRef is not set''
          (ror_Image (sp_Router spec) = '''') @
        requiredField ''prefill'' ''image'' ''prefill image is required when engineProfileRef is not set''
          (irs_Image (sp_Prefill spec) = '''') @
        requiredField ''decode'' ''image'' ''decode image is required when engineProfileRef is not set''
          (irs_Image (sp_Decode spec) = '''') @
        requiredField ''router'' ''args'' ''router args are required when engineProfileRef is not set''
          (length (ror_Args (sp_Router spec)) = 0) @
        requiredField ''prefill'' ''args'' ''prefill args are required when engineProfileRef is not set''
          (length (irs_Args (sp_Prefill spec)) = 0) @
        requiredField ''decode'' ''args'' ''decode args are required when engineProfileRef is not set''
          (length (irs_Args (sp_Decode spec)) = 0))"

text \<open>The set of volume names, built by the first loop, and the check of one role's mounts.\<close>

definition volNames :: "VolumeSpec list \<Rightarrow> (string, bool) gomap" where
  "volNames vs = fold (\<lambda>v m. gomap_set (vs_Name v) True m) vs []"

fun checkMounts :: "(string, bool) gomap \<Rightarrow> string \<Rightarrow> nat \<Rightarrow> VolumeMountSpec list \<Rightarrow> FieldError list" where
  "checkMounts names rolePath i [] = []"
| "checkMounts names rolePath i (m # ms) =
     (if map_of names (vms_Name m) \<noteq> Some True then
        [field_Invalid
           (Path_Child (Path_Index (NewPath [''spec'', rolePath, ''volumeMounts'']) i) ''name'')
           (BadString (vms_Name m))
           (''volume '' @ go_quote (vms_Name m) @ '' not defined in spec.volumes'')] else []) @
     checkMounts names rolePath (Suc i) ms"

definition validateVolumeMounts :: "PDInferenceServiceSpec \<Rightarrow> FieldError list" where
  "validateVolumeMounts spec =
     (let names = volNames (sp_Volumes spec) in
      checkMounts names ''router'' 0 (ror_VolumeMounts (sp_Router spec)) @
      checkMounts names ''prefill'' 0 (irs_VolumeMounts (sp_Prefill spec)) @
      checkMounts names ''decode'' 0 (irs_VolumeMounts (sp_Decode spec)))"

definition ratioErrors :: "PDInferenceServiceSpec \<Rightarrow> FieldError list" where
  "ratioErrors spec =
     (if sp_PDRatio spec \<noteq> '''' \<and>
         (case sp_Scaling spec of None \<Rightarrow> False | Some sc \<Rightarrow> sc_Prefill sc \<noteq> None) then
        [field_Invalid (NewPath [''spec'', ''pdRatio'']) (BadString (sp_PDRatio spec))
           ''pdRatio and scaling.prefill are mutually exclusive''] else [])"

definition ValidateCreate :: "'s client \<Rightarrow> runtime_Object \<Rightarrow> ('s, go_error option) state" where
  "ValidateCreate cl obj = (case obj of
     OtherObject t \<Rightarrow> State_Monad.return (Some (ErrorString (''expected a PDInferenceService but got '' @ t)))
   | PDISObject pdis \<Rightarrow> do {
       perrs \<leftarrow> profileErrors cl pdis;
       let errs = basicErrors (pd_Spec pdis) @ perrs @ inlineErrors (pd_Spec pdis) @
                  validateVolumeMounts (pd_Spec pdis) @ ratioErrors (pd_Spec pdis);
       State_Monad.return (if length errs > 0 then ToAggregate errs else None)
     })"

subsection \<open>Validation on update and deletion\<close>

definition immutable :: "string \<Rightarrow> bool \<Rightarrow> FieldError list" where
  "immutable fld changed =
     (if changed then [field_Forbidden (NewPath [''spec'', fld]) ''field is immutable after creation'']
      else [])"

definition ValidateUpdate :: "runtime_Object \<Rightarrow> runtime_Object \<Rightarrow> go_error option" where
  "ValidateUpdate oldObj newObj = (case oldObj of
     OtherObject t \<Rightarrow> Some (ErrorString (''expected a PDInferenceService for oldObj but got '' @ t))
   | PDISObject oldPDIS \<Rightarrow> (case newObj of
       OtherObject t \<Rightarrow> Some (ErrorString (''expected a PDInferenceService for newObj but got '' @ t))
     | PDISObject newPDIS \<Rightarrow>
         (let errs = immutable ''model'' (sp_Model (pd_Spec oldPDIS) \<noteq> sp_Model (pd_Spec newPDIS)) @
                     immutable ''engine'' (sp_Engine (pd_Spec oldPDIS) \<noteq> sp_Engine (pd_Spec newPDIS)) @
                     immutable ''engineProfileRef''
                       (sp_EngineProfileRef (pd_Spec oldPDIS) \<noteq> sp_EngineProfileRef (pd_Spec newPDIS))
          in if length errs > 0 then ToAggregate errs else None)))"

definition ValidateDelete :: "runtime_Object \<Rightarrow> go_error option" where
  "ValidateDelete obj = None"

subsection \<open>Acceptance as a predicate\<close>

text \<open>Every mount of every role names a volume of the specification.\<close>

definition mounts_defined :: "PDInferenceServiceSpec \<Rightarrow> bool" where
  "mounts_defined spec \<longleftrightarrow>
     (\<forall>ms \<in> {ror_VolumeMounts (sp_Router spec), irs_VolumeMounts (sp_Prefill spec),
             irs_VolumeMounts (sp_Decode spec)}.
        set (map vms_Name ms) \<subseteq> set (map vs_Name (sp_Volumes spec)))"

definition inline_complete :: "PDInferenceServiceSpec \<Rightarrow> bool" where
  "inline_complete spec \<longleftrightarrow>
     (\<forall>r. ly_image (inline_layer spec) r \<noteq> [] \<and> ly_args (inline_layer spec) r \<noteq> [])"

definition spec_valid :: "PDInferenceServiceSpec \<Rightarrow> bool" where
  "spec_valid spec \<longleftrightarrow>
     sp_Model spec \<noteq> '''' \<and>
     1 \<le> sint (irs_Replicas (sp_Prefill spec)) \<and> 1 \<le> sint (irs_Replicas (sp_Decode spec)) \<and>
     (sp_EngineProfileRef spec = '''' \<longrightarrow> inline_complete spec) \<and>
     mounts_defined spec \<and>
     \<not> (sp_PDRatio spec \<noteq> '''' \<and> (\<exists>sc. sp_Scaling spec = Some sc \<and> sc_Prefill sc \<noteq> None))"

lemma map_of_volNames_aux:
  "map_of (fold (\<lambda>v m. gomap_set (vs_Name v) True m) vs m) k =
     (if k \<in> set (map vs_Name vs) then Some True else map_of m k)"
  by (induction vs arbitrary: m) auto

lemma map_of_volNames: "map_of (volNames vs) k = Some True \<longleftrightarrow> k \<in> set (map vs_Name vs)"
  by (simp add: volNames_def map_of_volNames_aux)

lemma checkMounts_ok:
  "checkMounts names rolePath i ms = [] \<longleftrightarrow> (\<forall>m \<in> set ms. map_of names (vms_Name m) = Some True)"
  by (induction ms arbitrary: i) auto

lemma validateVolumeMounts_ok: "validateVolumeMounts spec = [] \<longleftrightarrow> mounts_defined spec"
  by (auto simp: validateVolumeMounts_def Let_def checkMounts_ok map_of_volNames mounts_defined_def)

lemma all_roles: "(\<forall>r. P r) \<longleftrightarrow> P Router \<and> P Prefill \<and> P Decode"
  by (metis role.exhaust)

lemma inlineErrors_ok:
  "inlineErrors spec = [] \<longleftrightarrow> (sp_EngineProfileRef spec = '''' \<longrightarrow> inline_complete spec)"
  by (auto simp: inlineErrors_def requiredField_def inline_complete_def all_roles)

lemma spec_errors_ok:
  "basicErrors spec @ inlineErrors spec @ validateVolumeMounts spec @ ratioErrors spec = [] \<longleftrightarrow>
   spec_valid spec"
  by (auto simp: basicErrors_def inlineErrors_ok validateVolumeMounts_ok ratioErrors_def
      spec_valid_def not_less split: option.splits)

lemma ToAggregate_None [simp]: "ToAggregate es = None \<longleftrightarrow> es = []"
  by (simp add: ToAggregate_def)

text \<open>The part of creation that asks the API server, as a case distinction.\<close>

lemma profileErrors_run:
  "run_state (profileErrors cl pdis) s =
     (if sp_EngineProfileRef (pd_Spec pdis) = '''' then ([], s)
      else (case run_state (Get_Profile cl (mk_key (pd_Namespace pdis) (sp_EngineProfileRef (pd_Spec pdis)))) s of
              (Inr f, s') \<Rightarrow> ([], s')
            | (Inl e, s') \<Rightarrow>
                ([field_Invalid (NewPath [''spec'', ''engineProfileRef''])
                    (BadString (sp_EngineProfileRef (pd_Spec pdis)))
                    (''PDEngineProfile '' @ go_quote (sp_EngineProfileRef (pd_Spec pdis)) @
                     '' not found in namespace '' @ go_quote (pd_Namespace pdis) @ '': '' @ Error e)], s')))"
  by (simp add: profileErrors_def validateProfileExists_def Let_def split: prod.splits sum.splits)

definition profile_reachable :: "'s client \<Rightarrow> PDInferenceService \<Rightarrow> 's \<Rightarrow> bool" where
  "profile_reachable cl pdis s \<longleftrightarrow> sp_EngineProfileRef (pd_Spec pdis) = '''' \<or>
     (\<exists>f s'. run_state (Get_Profile cl (mk_key (pd_Namespace pdis) (sp_EngineProfileRef (pd_Spec pdis)))) s = (Inr f, s'))"

lemma profileErrors_nil:
  "fst (run_state (profileErrors cl pdis) s) = [] \<longleftrightarrow> profile_reachable cl pdis s"
  by (auto simp: profileErrors_run profile_reachable_def split: prod.splits sum.splits)

lemma ValidateCreate_accepts:
  "fst (run_state (ValidateCreate cl (PDISObject pdis)) s) = None \<longleftrightarrow>
     spec_valid (pd_Spec pdis) \<and> profile_reachable cl pdis s"
  using spec_errors_ok [of "pd_Spec pdis"] profileErrors_nil [of cl pdis s]
  by (auto simp: ValidateCreate_def Let_def split: prod.splits)

lemma ValidateCreate_asks:
  "snd (run_state (ValidateCreate cl (PDISObject p)) s) =
     (if sp_EngineProfileRef (pd_Spec p) = '''' then s
      else snd (run_state (Get_Profile cl (mk_key (pd_Namespace p) (sp_EngineProfileRef (pd_Spec p)))) s))"
  by (auto simp: ValidateCreate_def profileErrors_run Let_def split: prod.splits sum.splits)

lemma ValidateUpdate_accepts:
  "ValidateUpdate (PDISObject old) (PDISObject new) = None \<longleftrightarrow>
     sp_Model (pd_Spec new) = sp_Model (pd_Spec old) \<and>
     sp_Engine (pd_Spec new) = sp_Engine (pd_Spec old) \<and>
     sp_EngineProfileRef (pd_Spec new) = sp_EngineProfileRef (pd_Spec old)"
  by (auto simp: ValidateUpdate_def immutable_def Let_def)

subsection \<open>Defaulting\<close>

definition defaulted :: "PDInferenceServiceSpec \<Rightarrow> bool" where
  "defaulted spec \<longleftrightarrow> sp_Engine spec \<noteq> '''' \<and> 1 \<le> sint (ror_Replicas (sp_Router spec))"

lemma defaultSpec_defaulted: "defaulted (defaultSpec spec)"
  by (simp add: defaulted_def defaultSpec_def Let_def EngineTypeSGLang_def)

lemma defaultSpec_id: "defaulted spec \<Longrightarrow> defaultSpec spec = spec"
  by (simp add: defaulted_def defaultSpec_def)

lemma defaultSpec_keeps [simp]:
  "sp_Model (defaultSpec spec) = sp_Model spec"
  "sp_Volumes (defaultSpec spec) = sp_Volumes spec"
  "sp_Prefill (defaultSpec spec) = sp_Prefill spec"
  "sp_Decode (defaultSpec spec) = sp_Decode spec"
  "sp_PDRatio (defaultSpec spec) = sp_PDRatio spec"
  "sp_EngineProfileRef (defaultSpec spec) = sp_EngineProfileRef spec"
  "sp_Scaling (defaultSpec spec) = sp_Scaling spec"
  "ror_Image (sp_Router (defaultSpec spec)) = ror_Image (sp_Router spec)"
  "ror_Command (sp_Router (defaultSpec spec)) = ror_Command (sp_Router spec)"
  "ror_Args (sp_Router (defaultSpec spec)) = ror_Args (sp_Router spec)"
  "ror_VolumeMounts (sp_Router (defaultSpec spec)) = ror_VolumeMounts (sp_Router spec)"
  "ror_Resources (sp_Router (defaultSpec spec)) = ror_Resources (sp_Router spec)"
  by (simp_all add: defaultSpec_def Let_def)

lemma spec_valid_defaultSpec: "spec_valid (defaultSpec spec) = spec_valid spec"
  by (simp add: spec_valid_def mounts_defined_def inline_complete_def)

subsection \<open>Properties\<close>


text \<open>A run of accepted updates, from the first stored object to the last.\<close>

inductive updates :: "PDInferenceService \<Rightarrow> PDInferenceService \<Rightarrow> bool" where
  none: "updates p p"
| step: "updates p q \<Longrightarrow> ValidateUpdate (PDISObject q) (PDISObject r) = None \<Longrightarrow> updates p r"

inductive_cases updates_stepE: "updates p r"

definition frozen :: "PDInferenceServiceSpec \<Rightarrow> string \<times> EngineType \<times> string" where
  "frozen spec = (sp_Model spec, sp_Engine spec, sp_EngineProfileRef spec)"

lemma ValidateUpdate_frozen:
  "ValidateUpdate (PDISObject old) (PDISObject new) = None \<longleftrightarrow> frozen (pd_Spec new) = frozen (pd_Spec old)"
  by (simp add: ValidateUpdate_accepts frozen_def)

text \<open>
  C24: The immutable fields. Between two services, \<^verbatim>\<open>ValidateUpdate\<close> accepts exactly the
  updates that keep the model, the engine and the profile reference; over any sequence of
  accepted updates those three fields keep their first value, and every service with the same
  three values can be reached by one accepted update, so nothing else is protected.
\<close>

theorem ValidateUpdate_immutable:
  "updates p r \<longleftrightarrow> p = r \<or> frozen (pd_Spec r) = frozen (pd_Spec p)"
proof
  show "updates p r \<Longrightarrow> p = r \<or> frozen (pd_Spec r) = frozen (pd_Spec p)"
    by (induction rule: updates.induct) (auto simp: ValidateUpdate_frozen)
  show "p = r \<or> frozen (pd_Spec r) = frozen (pd_Spec p) \<Longrightarrow> updates p r"
    by (auto simp: ValidateUpdate_frozen intro: updates.none updates.step [OF updates.none])
qed

lemma defaultSpec_Engine:
  "sp_Engine (defaultSpec spec) = (if sp_Engine spec = '''' then EngineTypeSGLang else sp_Engine spec)"
  by (simp add: defaultSpec_def Let_def)

lemma defaultSpec_undo:
  "(defaultSpec spec)\<lparr>sp_Engine := sp_Engine spec,
     sp_Router := (sp_Router (defaultSpec spec))\<lparr>ror_Replicas := ror_Replicas (sp_Router spec)\<rparr>\<rparr> = spec"
  by (simp add: defaultSpec_def Let_def)

lemma ValidateCreate_defaultSpec:
  "fst (run_state (ValidateCreate cl (PDISObject (p\<lparr>pd_Spec := defaultSpec (pd_Spec p)\<rparr>))) s) = None \<longleftrightarrow>
   fst (run_state (ValidateCreate cl (PDISObject p)) s) = None"
  unfolding ValidateCreate_accepts by (simp add: profile_reachable_def spec_valid_defaultSpec)

text \<open>
  C27: The defaulter and the validator agree. \<^verbatim>\<open>Default\<close> leaves a specification with an
  engine and at least one router replica, is idempotent, changes nothing but the engine and
  the router replicas and not the verdict of \<^verbatim>\<open>ValidateCreate\<close>. A defaulted update is
  accepted exactly when it keeps the model and the profile reference and its engine, read as
  \<^verbatim>\<open>sglang\<close> when absent, is the stored one.
\<close>

theorem Default_sound:
  "Default (PDISObject p) = Inr (PDISObject (p\<lparr>pd_Spec := defaultSpec (pd_Spec p)\<rparr>)) \<and>
   defaulted (defaultSpec spec) \<and>
   defaultSpec (defaultSpec spec) = defaultSpec spec \<and>
   (defaultSpec spec)\<lparr>sp_Engine := sp_Engine spec,
      sp_Router := (sp_Router (defaultSpec spec))\<lparr>ror_Replicas := ror_Replicas (sp_Router spec)\<rparr>\<rparr> = spec \<and>
   (fst (run_state (ValidateCreate cl (PDISObject (p\<lparr>pd_Spec := defaultSpec (pd_Spec p)\<rparr>))) s) = None \<longleftrightarrow>
    fst (run_state (ValidateCreate cl (PDISObject p)) s) = None) \<and>
   (ValidateUpdate (PDISObject old) (PDISObject (p\<lparr>pd_Spec := defaultSpec (pd_Spec p)\<rparr>)) = None \<longleftrightarrow>
    sp_Model (pd_Spec p) = sp_Model (pd_Spec old) \<and>
    sp_EngineProfileRef (pd_Spec p) = sp_EngineProfileRef (pd_Spec old) \<and>
    (if sp_Engine (pd_Spec p) = '''' then EngineTypeSGLang else sp_Engine (pd_Spec p)) = sp_Engine (pd_Spec old))"
  using defaultSpec_defaulted [of spec] defaultSpec_undo [of spec] ValidateCreate_defaultSpec [of cl p s]
  by (simp add: Default_def defaultSpec_id ValidateUpdate_accepts defaultSpec_Engine) blast

end
