(* ===== verification/Quantity_Scanner.thy ===== *)
theory Quantity_Scanner
  imports Go_Prelude
begin

section \<open>How a quantity text is taken apart\<close>

text \<open>
  \<^verbatim>\<open>parseQuantityString\<close> (\<^verbatim>\<open>quantity.go\<close>) walks over the text with an index. It is modelled as
  written, with the index, the slices it takes and the accesses that would panic out of range;
  its loops are one recursive function with a termination proof. The scanner on lists that
  the proofs about parsing use is a reference definition, and the two are proved equal: no
  access is out of range, whatever the text.
\<close>

definition is_digit :: "char \<Rightarrow> bool" where
  "is_digit c \<longleftrightarrow> 48 \<le> (of_char c :: nat) \<and> (of_char c :: nat) \<le> 57"

definition ErrFormatWrong :: string where
  "ErrFormatWrong = ''quantities must match the regular expression '' @ [char_of (39::nat)] @
     ''^([+-]?[0-9.]+)([eEinumkKMGTP]*[-+]?[0-9]*)$'' @ [char_of (39::nat)]"

subsection \<open>The code\<close>

definition byte_at :: "string \<Rightarrow> nat \<Rightarrow> char outcome" where
  "byte_at str i = (if i < length str then Returns (str ! i) else Panic ''index out of range'')"

definition str_slice :: "string \<Rightarrow> nat \<Rightarrow> nat \<Rightarrow> string outcome" where
  "str_slice str a b = (if a \<le> b \<and> b \<le> length str then Returns (take (b - a) (drop a str))
     else Panic ''slice bounds out of range'')"

text \<open>
  The loops \<^verbatim>\<open>for i := pos; ; i++\<close>: \<open>None\<close> when the index reaches the end, otherwise the first
  index with a byte outside the class.
\<close>

function scan_loop :: "(char \<Rightarrow> bool) \<Rightarrow> string \<Rightarrow> nat \<Rightarrow> nat option outcome" where
  "scan_loop P str i =
     (if i \<ge> length str then Returns None
      else and_then (byte_at str i) (\<lambda>c. if P c then scan_loop P str (i + 1) else Returns (Some i)))"
  by pat_completeness auto

termination scan_loop
  by (relation "measure (\<lambda>(_, str, i). length str - i)") auto

declare scan_loop.simps [simp del]

record scanned =
  sc_positive :: bool
  sc_value :: string
  sc_num :: string
  sc_denom :: string
  sc_suffix :: string

text \<open>The sign: whether the number is positive, and where it starts.\<close>

definition scan_sign :: "string \<Rightarrow> (bool \<times> nat) outcome" where
  "scan_sign str =
     (if 0 < length str then
        and_then (byte_at str 0) (\<lambda>c. Returns
          (if c = CHR ''-'' then (False, 1) else if c = CHR ''+'' then (True, 1) else (True, 0)))
      else Returns (True, 0))"

text \<open>The denominator at an index, and the index after it unless it ends the text.\<close>

definition scan_denominator :: "string \<Rightarrow> nat \<Rightarrow> (string \<times> nat option) outcome" where
  "scan_denominator str pos =
     and_then (if pos < length str then and_then (byte_at str pos) (\<lambda>c. Returns (c = CHR ''.'')) else Returns False)
       (\<lambda>dot. if dot then
          and_then (scan_loop is_digit str (pos + 1)) (\<lambda>i.
            and_then (str_slice str (pos + 1) (case i of None \<Rightarrow> length str | Some i \<Rightarrow> i)) (\<lambda>denom. Returns (denom, i)))
        else Returns ('''', Some pos))"

definition scan_suffix_loops :: "string \<Rightarrow> nat \<Rightarrow> (string + string) outcome" where
  "scan_suffix_loops str suffixStart =
     and_then (scan_loop (\<lambda>c. c \<in> set ''eEinumkKMGTP'') str suffixStart) (\<lambda>i. case i of
       None \<Rightarrow> and_then (str_slice str suffixStart (length str)) (\<lambda>suffix. Returns (Inr suffix))
     | Some pos \<Rightarrow>
         and_then (if pos < length str then and_then (byte_at str pos)
             (\<lambda>c. Returns (if c = CHR ''-'' \<or> c = CHR ''+'' then pos + 1 else pos)) else Returns pos)
           (\<lambda>pos. and_then (scan_loop is_digit str pos) (\<lambda>i. case i of
             None \<Rightarrow> and_then (str_slice str suffixStart (length str)) (\<lambda>suffix. Returns (Inr suffix))
           | Some _ \<Rightarrow> Returns (Inl ErrFormatWrong))))"

text \<open>The number without sign and leading zeros, from an index on, and the suffix after it.\<close>

definition scan_number :: "bool \<Rightarrow> string \<Rightarrow> nat \<Rightarrow> (string + scanned) outcome" where
  "scan_number positive str pos =
     and_then (scan_loop is_digit str pos) (\<lambda>i. case i of
       None \<Rightarrow> and_then (str_slice str pos (length str)) (\<lambda>num. and_then (str_slice str 0 (length str)) (\<lambda>val.
         Returns (Inr \<lparr>sc_positive = positive, sc_value = val, sc_num = num, sc_denom = '''', sc_suffix = ''''\<rparr>)))
     | Some i \<Rightarrow> and_then (str_slice str pos i) (\<lambda>num.
         let num = (if length num = 0 then ''0'' else num) in
         and_then (scan_denominator str i) (\<lambda>(denom, i). case i of
           None \<Rightarrow> and_then (str_slice str 0 (length str)) (\<lambda>val.
             Returns (Inr \<lparr>sc_positive = positive, sc_value = val, sc_num = num, sc_denom = denom, sc_suffix = ''''\<rparr>))
         | Some pos \<Rightarrow> and_then (str_slice str 0 pos) (\<lambda>val.
             and_then (scan_suffix_loops str pos) (\<lambda>r. case r of
               Inl err \<Rightarrow> Returns (Inl err)
             | Inr suffix \<Rightarrow> Returns (Inr \<lparr>sc_positive = positive, sc_value = val, sc_num = num,
                 sc_denom = denom, sc_suffix = suffix\<rparr>))))))"

definition parseQuantityString :: "string \<Rightarrow> (string + scanned) outcome" where
  "parseQuantityString str =
     and_then (scan_sign str) (\<lambda>(positive, pos).
     and_then (scan_loop (\<lambda>c. c = CHR ''0'') str pos) (\<lambda>i. case i of
       None \<Rightarrow> Returns (Inr \<lparr>sc_positive = positive, sc_value = ''0'', sc_num = ''0'', sc_denom = '''', sc_suffix = ''''\<rparr>)
     | Some pos \<Rightarrow> scan_number positive str pos))"

subsection \<open>The reference scanner\<close>

text \<open>
  The loops that move an index to the first character outside a class are \<open>dropWhile\<close>, and a
  slice of the text up to the index is the prefix before what remains.
\<close>

definition scan_suffix :: "string \<Rightarrow> string option" where
  "scan_suffix rest =
     (let tail = dropWhile (\<lambda>c. c \<in> set ''eEinumkKMGTP'') rest in
      if tail = [] then Some rest
      else let tail = (if hd tail = CHR ''-'' \<or> hd tail = CHR ''+'' then tl tail else tail) in
        if dropWhile is_digit tail = [] then Some rest else None)"

definition scan_quantity :: "string \<Rightarrow> string + scanned" where
  "scan_quantity str =
     (let positive = \<not> (str \<noteq> [] \<and> hd str = CHR ''-'');
          unsigned = (if str \<noteq> [] \<and> (hd str = CHR ''-'' \<or> hd str = CHR ''+'') then tl str else str);
          rest = dropWhile (\<lambda>c. c = CHR ''0'') unsigned in
      if rest = [] then
        Inr \<lparr>sc_positive = positive, sc_value = ''0'', sc_num = ''0'', sc_denom = '''', sc_suffix = ''''\<rparr>
      else
        let num = takeWhile is_digit rest; rest = dropWhile is_digit rest in
        if rest = [] then
          Inr \<lparr>sc_positive = positive, sc_value = str, sc_num = num, sc_denom = '''', sc_suffix = ''''\<rparr>
        else
          let num = (if length num = 0 then ''0'' else num);
              denom = (if hd rest = CHR ''.'' then takeWhile is_digit (tl rest) else '''');
              after = (if hd rest = CHR ''.'' then dropWhile is_digit (tl rest) else rest) in
          if after = [] then
            Inr \<lparr>sc_positive = positive, sc_value = str, sc_num = num, sc_denom = denom, sc_suffix = ''''\<rparr>
          else (case scan_suffix after of
              None \<Rightarrow> Inl ErrFormatWrong
            | Some suf \<Rightarrow> Inr \<lparr>sc_positive = positive, sc_value = take (length str - length after) str,
                sc_num = num, sc_denom = denom, sc_suffix = suf\<rparr>))"

subsection \<open>The code computes the reference\<close>

lemma byte_at_drop: "i < length str \<Longrightarrow> byte_at str i = Returns (hd (drop i str))"
  by (simp add: byte_at_def hd_drop_conv_nth)

lemma scan_loop_eq:
  "i \<le> length str \<Longrightarrow> scan_loop P str i =
     Returns (if dropWhile P (drop i str) = [] then None else Some (i + length (takeWhile P (drop i str))))"
proof (induction "length str - i" arbitrary: i rule: less_induct)
  case less
  show ?case
  proof (cases "i < length str")
    case False
    with less.prems show ?thesis by (subst scan_loop.simps) simp
  next
    case True
    then have d: "drop i str = str ! i # drop (i + 1) str" by (simp add: Cons_nth_drop_Suc)
    from True less.hyps [of "i + 1"] show ?thesis
      by (subst scan_loop.simps) (simp add: byte_at_def d del: drop_Suc drop_drop)
  qed
qed

lemma slice_all: "i \<le> length str \<Longrightarrow> str_slice str i (length str) = Returns (drop i str)"
  by (simp add: str_slice_def)

lemma slice_while:
  "i \<le> length str \<Longrightarrow> str_slice str i (i + length (takeWhile P (drop i str))) = Returns (takeWhile P (drop i str))"
  using length_takeWhile_le [of P "drop i str"] by (simp add: str_slice_def takeWhile_eq_take [symmetric])

lemma drop_while:
  "drop (i + length (takeWhile P (drop i str))) str = dropWhile P (drop i str)"
  by (simp add: dropWhile_eq_drop add.commute)

lemma scan_suffix_loops_eq:
  assumes "i < length str"
  shows "scan_suffix_loops str i =
    Returns (case scan_suffix (drop i str) of None \<Rightarrow> Inl ErrFormatWrong | Some suf \<Rightarrow> Inr suf)"
proof -
  let ?t = "drop i str"
  define P where "P = (\<lambda>c. c \<in> set ''eEinumkKMGTP'')"
  define tail where "tail = dropWhile P ?t"
  define j where "j = i + length (takeWhile P ?t)"
  have j: "drop j str = tail" unfolding j_def tail_def by (rule drop_while)
  note def = scan_suffix_loops_def [of str i, folded P_def] scan_suffix_def [of ?t, folded P_def, folded tail_def]
  show ?thesis
  proof (cases "tail = []")
    case True
    then have "scan_loop P str i = Returns None" using scan_loop_eq [of i str P] assms unfolding tail_def by simp
    with True assms show ?thesis unfolding def by (simp add: slice_all)
  next
    case False
    then have jl: "j < length str" using j by (metis drop_eq_Nil leI)
    define s where "s = (hd tail = CHR ''-'' \<or> hd tail = CHR ''+'')"
    define k where "k = (if s then j + 1 else j)"
    have k: "drop k str = (if s then tl tail else tail)" "k \<le> length str"
      unfolding k_def using j jl by (auto simp: drop_Suc drop_tl [symmetric])
    have "scan_loop P str i = Returns (Some j)"
      using scan_loop_eq [of i str P] assms False unfolding tail_def j_def by simp
    then have "scan_suffix_loops str i = and_then (scan_loop is_digit str k) (\<lambda>i. case i of
        None \<Rightarrow> Returns (Inr ?t) | Some _ \<Rightarrow> Returns (Inl ErrFormatWrong))"
      unfolding def using assms jl by (simp add: slice_all byte_at_drop j s_def k_def)
    moreover have "scan_loop is_digit str k =
        Returns (if dropWhile is_digit (drop k str) = [] then None else Some (k + length (takeWhile is_digit (drop k str))))"
      by (rule scan_loop_eq [OF k(2)])
    moreover have "scan_suffix ?t = (if dropWhile is_digit (drop k str) = [] then Some ?t else None)"
      unfolding def k(1) using False by (simp add: Let_def s_def)
    ultimately show ?thesis by simp
  qed
qed

lemma scan_sign_eq:
  "scan_sign str = Returns (\<not> (str \<noteq> [] \<and> hd str = CHR ''-''),
     if str \<noteq> [] \<and> (hd str = CHR ''-'' \<or> hd str = CHR ''+'') then 1 else 0)"
  by (cases str) (simp_all add: scan_sign_def byte_at_def)

lemma drop_suffix: "after = drop m str \<Longrightarrow> drop (length str - length after) str = after"
  by (cases "m \<le> length str") simp_all

lemma scan_denominator_eq:
  assumes "i < length str"
  shows "scan_denominator str i = Returns
    (if hd (drop i str) = CHR ''.'' then takeWhile is_digit (tl (drop i str)) else '''',
     let after = (if hd (drop i str) = CHR ''.'' then dropWhile is_digit (tl (drop i str)) else drop i str) in
     if after = [] then None else Some (length str - length after))"
proof (cases "hd (drop i str) = CHR ''.''")
  case False
  with assms show ?thesis by (simp add: scan_denominator_def byte_at_drop)
next
  case True
  define t where "t = drop (i + 1) str"
  have t: "tl (drop i str) = t" unfolding t_def by (simp add: drop_Suc drop_tl)
  have l: "length (takeWhile is_digit t) + length (dropWhile is_digit t) = length t"
    by (metis length_append takeWhile_dropWhile_id)
  note loop = scan_loop_eq [of "i + 1" str is_digit, folded t_def] and cut = slice_while [of "i + 1" str is_digit, folded t_def]
  show ?thesis
  proof (cases "dropWhile is_digit t = []")
    case True
    then have all: "takeWhile is_digit t = t" by (metis append_Nil2 takeWhile_dropWhile_id)
    have "str_slice str (i + 1) (length str) = Returns t" using assms unfolding t_def by (intro slice_all) simp
    then have "scan_denominator str i = Returns (t, None)"
      using True \<open>hd (drop i str) = CHR ''.''\<close> assms loop by (simp add: scan_denominator_def byte_at_drop)
    then show ?thesis using True \<open>hd (drop i str) = CHR ''.''\<close> by (simp only: t all) simp
  next
    case False
    have e: "i + 1 + length (takeWhile is_digit t) = length str - length (dropWhile is_digit t)"
      using l assms by (simp add: t_def)
    have "scan_loop is_digit str (i + 1) = Returns (Some (length str - length (dropWhile is_digit t)))"
      using loop False assms unfolding e by (simp del: dropWhile_eq_Nil_conv)
    moreover have "str_slice str (i + 1) (length str - length (dropWhile is_digit t)) = Returns (takeWhile is_digit t)"
      using cut assms unfolding e by simp
    ultimately show ?thesis
      using False \<open>hd (drop i str) = CHR ''.''\<close> assms by (simp add: scan_denominator_def byte_at_drop t Let_def del: dropWhile_eq_Nil_conv)
  qed
qed

lemma scan_number_eq:
  assumes "z < length str"
  shows "scan_number positive str z = Returns
    (let rest = drop z str; num = takeWhile is_digit rest; rest = dropWhile is_digit rest in
     if rest = [] then
       Inr \<lparr>sc_positive = positive, sc_value = str, sc_num = num, sc_denom = '''', sc_suffix = ''''\<rparr>
     else
       let num = (if length num = 0 then ''0'' else num);
           denom = (if hd rest = CHR ''.'' then takeWhile is_digit (tl rest) else '''');
           after = (if hd rest = CHR ''.'' then dropWhile is_digit (tl rest) else rest) in
       if after = [] then
         Inr \<lparr>sc_positive = positive, sc_value = str, sc_num = num, sc_denom = denom, sc_suffix = ''''\<rparr>
       else (case scan_suffix after of
           None \<Rightarrow> Inl ErrFormatWrong
         | Some suf \<Rightarrow> Inr \<lparr>sc_positive = positive, sc_value = take (length str - length after) str,
             sc_num = num, sc_denom = denom, sc_suffix = suf\<rparr>))"
proof -
  define num where "num = takeWhile is_digit (drop z str)"
  define tail where "tail = dropWhile is_digit (drop z str)"
  define i where "i = z + length num"
  have i: "drop i str = tail" unfolding i_def num_def tail_def by (rule drop_while)
  have nums: "scan_loop is_digit str z = Returns (if tail = [] then None else Some i)"
    using scan_loop_eq [of z str is_digit] assms by (simp only: i_def num_def tail_def less_imp_le)
  have all: "str_slice str 0 (length str) = Returns str" by (simp add: slice_all)
  show ?thesis
  proof (cases "tail = []")
    case True
    then have "num = drop z str" by (metis append_Nil2 num_def tail_def takeWhile_dropWhile_id)
    with True assms show ?thesis
      unfolding scan_number_def nums Let_def num_def [symmetric] tail_def [symmetric] by (simp add: all slice_all)
  next
    case False
    then have il: "i < length str" using i by (metis drop_eq_Nil leI)
    have cut: "str_slice str z i = Returns num" using slice_while [of z str is_digit] assms by (simp add: num_def i_def)
    define after where "after = (if hd tail = CHR ''.'' then dropWhile is_digit (tl tail) else tail)"
    have "tl tail = drop (i + 1) str" using i by (metis drop_Suc drop_tl Suc_eq_plus1)
    then obtain m where m: "after = drop m str"
      using i drop_while [of "i + 1" is_digit str] unfolding after_def by metis
    have d: "drop (length str - length after) str = after" by (rule drop_suffix [OF m])
    have k: "length str - length after < length str" if "after \<noteq> []" using that il by (cases str) auto
    note den = scan_denominator_eq [OF il, unfolded i Let_def, folded after_def]
    show ?thesis
      unfolding scan_number_def nums Let_def num_def [symmetric] tail_def [symmetric] after_def [symmetric]
      using False cut den k d
      by (cases "after = []"; cases "scan_suffix after") (simp_all add: all scan_suffix_loops_eq str_slice_def Let_def)
  qed
qed

text \<open>
  The scanner with its indices never panics, and computes the reference: so its loops end, and
  every access and every slice is within the text.
\<close>

lemma parseQuantityString_eq: "parseQuantityString str = Returns (scan_quantity str)"
proof -
  let ?sgn = "str \<noteq> [] \<and> (hd str = CHR ''-'' \<or> hd str = CHR ''+'')"
  define pos where "pos = (if ?sgn then 1 else 0 :: nat)"
  define u where "u = drop pos str"
  have u: "(if ?sgn then tl str else str) = u" "pos \<le> length str"
    by (cases str; simp add: u_def pos_def)+
  define z where "z = pos + length (takeWhile (\<lambda>c. c = CHR ''0'') u)"
  define rest where "rest = dropWhile (\<lambda>c. c = CHR ''0'') u"
  have z: "drop z str = rest" unfolding z_def u_def rest_def by (rule drop_while)
  have zeros: "scan_loop (\<lambda>c. c = CHR ''0'') str pos = Returns (if rest = [] then None else Some z)"
    using scan_loop_eq [OF u(2)] by (simp only: u_def rest_def z_def)
  have code: "parseQuantityString str = (case (if rest = [] then None else Some z) of
      None \<Rightarrow> Returns (Inr \<lparr>sc_positive = \<not> (str \<noteq> [] \<and> hd str = CHR ''-''), sc_value = ''0'', sc_num = ''0'',
        sc_denom = '''', sc_suffix = ''''\<rparr>)
    | Some pos \<Rightarrow> scan_number (\<not> (str \<noteq> [] \<and> hd str = CHR ''-'')) str pos)"
    by (simp add: parseQuantityString_def scan_sign_eq pos_def [symmetric] zeros)
  show ?thesis
  proof (cases "rest = []")
    case True
    then show ?thesis
      unfolding code scan_quantity_def Let_def u(1) rest_def [symmetric] by simp
  next
    case False
    then have zl: "z < length str" using z by (metis drop_eq_Nil leI)
    with False show ?thesis
      by (simp only: code scan_quantity_def Let_def u(1) rest_def [symmetric] scan_number_eq [OF zl] z
          if_False option.case)
  qed
qed

end
