(* ===== verification/Quantities.thy ===== *)
theory Quantities
  imports Quantity_Scanner Kube_Types Complex_Main "HOL-Library.Signed_Division"
begin

section \<open>Resource quantities (\<^verbatim>\<open>k8s.io/apimachinery/pkg/api/resource\<close>)\<close>

text \<open>
  \<^verbatim>\<open>resource.ParseQuantity\<close>, which the builder calls on texts that users write: behind the
  scanner of \<open>Quantity_Scanner\<close>, the suffix tables, the fast path over 64-bit integers and the
  slow path over the big decimals of \<^verbatim>\<open>gopkg.in/inf.v0\<close>. Integers of a fixed width are integers with the
  wrap-around written out (\<open>wrap32\<close>, \<open>wrap64\<close>); a \<^verbatim>\<open>big.Int\<close> is an integer. An index out
  of range in the table of powers of ten is a panic.

  The lemmas go along the text (\<open>number_text\<close>, \<open>well_split\<close>: every text splits, and what the
  scanner makes of the parts), the fast path (no product overflows) and the slow path (rounding,
  cap). They say which texts are accepted, by a grammar of its own (\<open>quantity_syntax\<close>, with
  \<open>suffix_meaning\<close> for what each suffix stands for), and that an accepted text stands for
  its decimal value, rounded away from zero to nano units and, in the binary format, capped at the
  largest 64-bit number; exponents of 2^30 and more are excluded there, and the last theorem says what
  the parser makes of an exponent of any size.
\<close>

subsection \<open>Integers of fixed width, decimal digits\<close>

definition wrap32 :: "int \<Rightarrow> int" where
  "wrap32 x = signed_take_bit 31 x"

definition wrap64 :: "int \<Rightarrow> int" where
  "wrap64 x = signed_take_bit 63 x"

definition digits_value :: "string \<Rightarrow> int" where
  "digits_value ds = foldl (\<lambda>n c. 10 * n + (int (of_char c) - 48)) 0 ds"

text \<open>A text with an optional sign: whether it is negative, and the rest.\<close>

definition split_sign :: "string \<Rightarrow> bool \<times> string" where
  "split_sign t = (case t of
     [] \<Rightarrow> (False, [])
   | c # cs \<Rightarrow> if c = CHR ''-'' then (True, cs) else if c = CHR ''+'' then (False, cs) else (False, t))"

text \<open>\<^verbatim>\<open>strconv.ParseInt(s, 10, 64)\<close>, and \<^verbatim>\<open>big.Int.SetString(s, 10)\<close>.\<close>

definition big_SetString :: "string \<Rightarrow> int option" where
  "big_SetString t = (case split_sign t of (neg, ds) \<Rightarrow>
     if ds = [] \<or> \<not> list_all is_digit ds then None
     else Some (if neg then - digits_value ds else digits_value ds))"

definition ParseInt64 :: "string \<Rightarrow> int option" where
  "ParseInt64 t = (case big_SetString t of
     None \<Rightarrow> None
   | Some n \<Rightarrow> if - (2 ^ 63) \<le> n \<and> n < 2 ^ 63 then Some n else None)"

subsection \<open>Suffixes (\<^verbatim>\<open>suffix.go\<close>)\<close>

definition decSuffixes :: "(string \<times> int) list" where
  "decSuffixes = [(''n'', -9), (''u'', -6), (''m'', -3), ('''', 0), (''k'', 3), (''M'', 6), (''G'', 9),
     (''T'', 12), (''P'', 15), (''E'', 18)]"

definition binSuffixes :: "(string \<times> int) list" where
  "binSuffixes = [(''Ki'', 10), (''Mi'', 20), (''Gi'', 30), (''Ti'', 40), (''Pi'', 50), (''Ei'', 60)]"

definition suffixHandler_interpret :: "string \<Rightarrow> (int \<times> int \<times> QuantityFormat) option" where
  "suffixHandler_interpret suf = (case map_of decSuffixes suf of
     Some e \<Rightarrow> Some (10, e, DecimalSI)
   | None \<Rightarrow> (case map_of binSuffixes suf of
       Some e \<Rightarrow> Some (2, e, BinarySI)
     | None \<Rightarrow>
         if length suf > 1 \<and> (hd suf = CHR ''E'' \<or> hd suf = CHR ''e'')
         then (case ParseInt64 (tl suf) of None \<Rightarrow> None | Some parsed \<Rightarrow> Some (10, wrap32 parsed, DecimalExponent))
         else None))"

definition fastSuffixes :: "(string \<times> int) list" where
  "fastSuffixes = [('''', 0), (''n'', -9), (''u'', -6), (''m'', -3), (''k'', 3), (''M'', 6), (''G'', 9)]"

definition interpret_suffix :: "string \<Rightarrow> (int \<times> int \<times> QuantityFormat) option" where
  "interpret_suffix s = (case map_of fastSuffixes s of
     Some e \<Rightarrow> Some (10, e, DecimalSI)
   | None \<Rightarrow> suffixHandler_interpret s)"

subsection \<open>Checked multiplication (\<^verbatim>\<open>math.go\<close>)\<close>

definition mostNegative :: int where "mostNegative = - (2 ^ 63)"

definition int64Multiply :: "int \<Rightarrow> int \<Rightarrow> int option" where
  "int64Multiply a b =
     (if a = 0 \<or> b = 0 \<or> a = 1 \<or> b = 1 then Some (wrap64 (a * b))
      else if a = mostNegative \<or> b = mostNegative then None
      else let c = wrap64 (a * b) in if c sdiv b = a then Some c else None)"

subsection \<open>Big decimals (\<^verbatim>\<open>gopkg.in/inf.v0\<close>)\<close>

text \<open>A \<^verbatim>\<open>Dec\<close> is an unscaled integer and a scale; its value is \<open>unscaled * 10 powi - scale\<close>.\<close>

type_synonym Dec = "int \<times> int"

text \<open>
  The scanner of \<^verbatim>\<open>Dec.SetString\<close>: the characters of the unscaled value so far, the position
  of the decimal point, whether a digit was read, and the text it has not consumed.
\<close>

fun dec_scan :: "string \<Rightarrow> nat option \<Rightarrow> bool \<Rightarrow> string \<Rightarrow> string \<times> nat option \<times> bool \<times> string" where
  "dec_scan un dp dg [] = (un, dp, dg, [])"
| "dec_scan un dp dg (ch # r) =
     (if ch = CHR ''+'' \<or> ch = CHR ''-'' then
        (if length un > 0 \<or> dp \<noteq> None then (un, dp, dg, ch # r) else dec_scan (un @ [ch]) dp dg r)
      else if ch = CHR ''.'' then
        (if dp \<noteq> None then (un, dp, dg, ch # r) else dec_scan un (Some (length un)) dg r)
      else if is_digit ch then dec_scan (un @ [ch]) dp True r
      else (un, dp, dg, ch # r))"

definition Dec_SetString :: "string \<Rightarrow> Dec option" where
  "Dec_SetString s = (case dec_scan [] None False s of (un, dp, dg, rest) \<Rightarrow>
     if \<not> dg then None
     else let scale = (case dp of None \<Rightarrow> 0 | Some d \<Rightarrow> wrap32 (int (length un) - int d)) in
       (case big_SetString un of
          None \<Rightarrow> None
        | Some n \<Rightarrow> if rest \<noteq> [] then None else Some (n, scale)))"

definition exp10 :: "int \<Rightarrow> int outcome" where
  "exp10 x = (if x < 0 then Panic ''index out of range'' else Returns (10 ^ nat x))"

text \<open>\<^verbatim>\<open>Round\<close> with \<^verbatim>\<open>RoundUp\<close>: the quotient by one at the given scale, away from zero.\<close>

definition quoRem :: "Dec \<Rightarrow> Dec \<Rightarrow> int \<Rightarrow> (Dec \<times> int \<times> int) outcome" where
  "quoRem x y s =
     (let shift = wrap32 (s - wrap32 (snd x - snd y)) in
      and_then
        (if shift > 0 then and_then (exp10 shift) (\<lambda>e. Returns (fst x * e, fst y))
         else if shift < 0 then and_then (exp10 (wrap32 (- shift))) (\<lambda>e. Returns (fst x, fst y * e))
         else Returns (fst x, fst y))
        (\<lambda>(ix, iy). Returns ((ix sdiv iy, s), ix smod iy, iy)))"

definition RoundUp :: "Dec \<Rightarrow> int \<Rightarrow> int \<Rightarrow> Dec" where
  "RoundUp q rA rB = (if sgn rA \<noteq> 0 then (fst q + sgn rA * sgn rB, snd q) else q)"

definition Round :: "Dec \<Rightarrow> int \<Rightarrow> Dec outcome" where
  "Round x s = and_then (quoRem x (1, 0) s) (\<lambda>(q, rA, rB). Returns (RoundUp q rA rB))"

definition rescale :: "Dec \<Rightarrow> int \<Rightarrow> Dec outcome" where
  "rescale x newScale =
     (let shift = wrap32 (newScale - snd x) in
      if shift < 0 then and_then (exp10 (wrap32 (- shift))) (\<lambda>e. Returns (fst x sdiv e, newScale))
      else if shift > 0 then and_then (exp10 shift) (\<lambda>e. Returns (fst x * e, newScale))
      else Returns x)"

definition Cmp :: "Dec \<Rightarrow> Dec \<Rightarrow> int outcome" where
  "Cmp x y =
     and_then
       (if snd x = snd y then Returns (x, y)
        else if snd x > snd y then and_then (rescale y (snd x)) (\<lambda>y'. Returns (x, y'))
        else and_then (rescale x (snd y)) (\<lambda>x'. Returns (x', y)))
       (\<lambda>(xx, yy). Returns (sgn (fst xx - fst yy)))"

subsection \<open>The parser (\<^verbatim>\<open>quantity.go\<close>)\<close>

definition ErrNumeric :: string where
  "ErrNumeric = ''unable to parse numeric part of quantity''"
definition ErrSuffix :: string where
  "ErrSuffix = ''unable to parse quantity'' @ [char_of (39::nat)] @ ''s suffix''"

definition maxInt64Factors :: int where "maxInt64Factors = 18"
definition Nano :: int where "Nano = -9"

definition int_quantity :: "int \<Rightarrow> int \<Rightarrow> QuantityFormat \<Rightarrow> string \<Rightarrow> Quantity" where
  "int_quantity v sc fmt s = \<lparr>qt_i_value = v, qt_i_scale = sc, qt_d = None, qt_s = s, qt_Format = fmt\<rparr>"

text \<open>
  The precision that decides for the fast path, and the binary factor. The binary exponents
  are multiples of ten, on which the source's floating-point \<^verbatim>\<open>exponent*3/10\<close> is exact.
\<close>

definition fast_precision :: "QuantityFormat \<Rightarrow> int \<Rightarrow> string \<Rightarrow> string \<Rightarrow> int" where
  "fast_precision fmt exponent num denom =
     (if fmt = BinarySI then
        (if exponent \<ge> 0 \<and> length denom = 0
         then wrap32 (wrap32 (wrap32 (15 - wrap32 (int (length num))) - exponent * 3 div 10) - 1)
         else -1)
      else wrap32 (maxInt64Factors - wrap32 (int (length num + length denom))))"

definition fast_mantissa :: "QuantityFormat \<Rightarrow> int \<Rightarrow> string \<Rightarrow> int" where
  "fast_mantissa fmt exponent denom =
     (if fmt = BinarySI \<and> exponent \<ge> 0 \<and> length denom = 0 then wrap64 (2 ^ nat exponent) else 1)"

definition canonical_text :: "QuantityFormat \<Rightarrow> int \<Rightarrow> int \<Rightarrow> int \<Rightarrow> string \<Rightarrow> bool" where
  "canonical_text fmt exponent scale v shifted =
     (if fmt = BinarySI then exponent mod 10 = 0 \<and> v mod 8 \<noteq> 0
      else scale mod 3 = 0 \<and> \<not> (length shifted \<ge> 3 \<and> drop (length shifted - 3) shifted = ''000'') \<and>
           hd shifted \<noteq> CHR ''0'')"

text \<open>The fast path: an answer, or \<open>None\<close> when the source falls through to the slow path.\<close>

definition parse_fast :: "string \<Rightarrow> scanned \<Rightarrow> int \<Rightarrow> QuantityFormat \<Rightarrow> (string + Quantity) option" where
  "parse_fast str sc exponent fmt =
     (if fast_precision fmt exponent (sc_num sc) (sc_denom sc) \<ge> 0 then
        let scale = wrap32 ((if fmt = BinarySI then 0 else exponent) - wrap32 (int (length (sc_denom sc)))) in
        if scale \<ge> Nano then
          let shifted = sc_num sc @ sc_denom sc in
          (case ParseInt64 shifted of
             None \<Rightarrow> Some (Inl ErrNumeric)
           | Some v \<Rightarrow> (case int64Multiply v (fast_mantissa fmt exponent (sc_denom sc)) of
               None \<Rightarrow> None
             | Some result \<Rightarrow>
                 let result = (if \<not> sc_positive sc then wrap64 (- result) else result) in
                 Some (Inr (int_quantity result scale fmt
                   (if canonical_text fmt exponent scale v shifted then str else '''')))))
        else None
      else None)"

definition dec_quantity :: "Dec \<Rightarrow> QuantityFormat \<Rightarrow> Quantity" where
  "dec_quantity d fmt = \<lparr>qt_i_value = 0, qt_i_scale = 0, qt_d = Some d, qt_s = '''', qt_Format = fmt\<rparr>"

definition maxAllowed :: Dec where "maxAllowed = (2 ^ 63 - 1, 0)"

definition dec_neg :: "Dec \<Rightarrow> Dec" where "dec_neg d = (- fst d, snd d)"

text \<open>\<^verbatim>\<open>Unscaled\<close>: the low 64 bits, and whether they are the whole number.\<close>

definition unscaled_nonzero :: "Dec \<Rightarrow> bool" where
  "unscaled_nonzero d = (let v = wrap64 (fst d); ok = (v = fst d) in v \<noteq> 0 \<or> \<not> ok)"

definition cap_binary :: "QuantityFormat \<Rightarrow> Dec \<Rightarrow> Dec outcome" where
  "cap_binary fmt a =
     (if fmt = BinarySI then and_then (Cmp a maxAllowed) (\<lambda>c. Returns (if c > 0 then maxAllowed else a))
      else Returns a)"

definition binary_format :: "QuantityFormat \<Rightarrow> Dec \<Rightarrow> QuantityFormat outcome" where
  "binary_format fmt a =
     (if fmt = BinarySI then
        and_then (Cmp a (1, 0)) (\<lambda>c1.
          if c1 < 0 then and_then (Cmp a (0, 0)) (\<lambda>c0. Returns (if c0 > 0 then DecimalSI else fmt))
          else Returns fmt)
      else Returns fmt)"

text \<open>The slow path, from the scaled amount on, and from the text on.\<close>

definition finish_slow :: "QuantityFormat \<Rightarrow> Dec \<Rightarrow> (string + Quantity) outcome" where
  "finish_slow fmt amount =
     (let sign = sgn (fst amount);
          amount = (if sign = -1 then dec_neg amount else amount) in
      and_then (if unscaled_nonzero amount then Round amount (- Nano) else Returns amount) (\<lambda>amount.
      and_then (cap_binary fmt amount) (\<lambda>amount.
      and_then (binary_format fmt amount) (\<lambda>fmt.
      Returns (Inr (dec_quantity (if sign = -1 then dec_neg amount else amount) fmt))))))"

definition parse_slow :: "string \<Rightarrow> int \<Rightarrow> int \<Rightarrow> QuantityFormat \<Rightarrow> (string + Quantity) outcome" where
  "parse_slow v base exponent fmt = (case Dec_SetString v of
     None \<Rightarrow> Returns (Inl ErrNumeric)
   | Some amount \<Rightarrow>
       finish_slow fmt
         (if base = 10 then (fst amount, wrap32 (snd amount + wrap32 (- exponent)))
          else if base = 2 then (fst amount * 2 ^ nat exponent, snd amount) else amount))"

definition ParseQuantity :: "string \<Rightarrow> (string + Quantity) outcome" where
  "ParseQuantity str =
     (if length str = 0 then Returns (Inl ErrFormatWrong)
      else if str = ''0'' then Returns (Inr (int_quantity 0 0 DecimalSI str))
      else and_then (parseQuantityString str) (\<lambda>r. case r of
          Inl err \<Rightarrow> Returns (Inl err)
        | Inr sc \<Rightarrow> (case interpret_suffix (sc_suffix sc) of
            None \<Rightarrow> Returns (Inl ErrSuffix)
          | Some (base, exponent, fmt) \<Rightarrow> (case parse_fast str sc exponent fmt of
              Some r \<Rightarrow> Returns r
            | None \<Rightarrow> parse_slow (sc_value sc) base exponent fmt))))"

text \<open>
  The parser as the builder sees it: \<^verbatim>\<open>MustParse\<close> panics on an error, and on a panic of the
  parser.
\<close>

definition quantity_parse :: quantity_parser where
  "quantity_parse t = (case ParseQuantity t of Returns r \<Rightarrow> r | Panic msg \<Rightarrow> Inl msg)"

lemma ParseQuantity_eq:
  "ParseQuantity str =
     (if length str = 0 then Returns (Inl ErrFormatWrong)
      else if str = ''0'' then Returns (Inr (int_quantity 0 0 DecimalSI str))
      else (case scan_quantity str of
          Inl err \<Rightarrow> Returns (Inl err)
        | Inr sc \<Rightarrow> (case interpret_suffix (sc_suffix sc) of
            None \<Rightarrow> Returns (Inl ErrSuffix)
          | Some (base, exponent, fmt) \<Rightarrow> (case parse_fast str sc exponent fmt of
              Some r \<Rightarrow> Returns r
            | None \<Rightarrow> parse_slow (sc_value sc) base exponent fmt))))"
  by (simp add: ParseQuantity_def parseQuantityString_eq)

subsection \<open>Arithmetic lemmas\<close>

lemma wrap32_id: "- (2 ^ 31) \<le> x \<Longrightarrow> x < 2 ^ 31 \<Longrightarrow> wrap32 x = x"
  by (simp add: wrap32_def signed_take_bit_int_eq_self)

lemma wrap32_add: "wrap32 (a + wrap32 b) = wrap32 (a + b)" "wrap32 (wrap32 a + b) = wrap32 (a + b)"
  using signed_take_bit_add [of 31 a "signed_take_bit 31 b"] signed_take_bit_add [of 31 a b]
    signed_take_bit_add [of 31 "signed_take_bit 31 a" b]
  by (simp_all add: wrap32_def)

lemma wrap32_diff: "wrap32 (a - wrap32 b) = wrap32 (a - b)" "wrap32 (wrap32 a - b) = wrap32 (a - b)"
  using signed_take_bit_diff [of 31 a "signed_take_bit 31 b"] signed_take_bit_diff [of 31 a b]
    signed_take_bit_diff [of 31 "signed_take_bit 31 a" b]
  by (simp_all add: wrap32_def)

lemma wrap32_range: "- (2 ^ 31) \<le> wrap32 x" "wrap32 x < 2 ^ 31"
  using signed_take_bit_int_greater_eq_minus_exp [of 31 x] signed_take_bit_int_less_exp [of 31 x]
  by (simp_all add: wrap32_def)

lemma wrap64_id: "- (2 ^ 63) \<le> x \<Longrightarrow> x < 2 ^ 63 \<Longrightarrow> wrap64 x = x"
  by (simp add: wrap64_def signed_take_bit_int_eq_self)

lemma wrap64_range: "- (2 ^ 63) \<le> wrap64 x" "wrap64 x < 2 ^ 63"
  using signed_take_bit_int_greater_eq_minus_exp [of 63 x] signed_take_bit_int_less_exp [of 63 x]
  by (simp_all add: wrap64_def)

lemma wrap64_cong: "\<exists>k. wrap64 x = x + k * 2 ^ 64"
proof -
  have "wrap64 x = (x + 2 ^ 63) mod 2 ^ 64 - 2 ^ 63"
    by (simp add: wrap64_def signed_take_bit_eq_take_bit_shift take_bit_eq_mod)
  also have "(x + 2 ^ 63) mod 2 ^ 64 = x + 2 ^ 63 - 2 ^ 64 * ((x + 2 ^ 63) div 2 ^ 64)"
    by (simp only: minus_mult_div_eq_mod)
  finally show ?thesis by (intro exI [of _ "- ((x + 2 ^ 63) div 2 ^ 64)"]) simp
qed

definition int64_range :: "int \<Rightarrow> bool" where
  "int64_range x \<longleftrightarrow> - (2 ^ 63) \<le> x \<and> x < 2 ^ 63"

lemma sdiv_remainder: "b \<noteq> 0 \<Longrightarrow> \<bar>(c::int) - (c sdiv b) * b\<bar> < \<bar>b\<bar>"
  using smod_int_range [of b c] by (auto simp: minus_sdiv_mult_eq_smod)

lemma sdiv_exact:
  assumes "b \<noteq> 0"
  shows "(a * b) sdiv b = (a::int)"
proof -
  have "(a * b) smod b = 0" by (simp add: smod_int_alt_def abs_mult)
  then have "((a * b) sdiv b) * b = a * b" using sdiv_mult_smod_eq [of "a * b" b] by simp
  with assms show ?thesis by simp
qed

text \<open>The check of the product is exact: it answers the product, or that it does not fit.\<close>

lemma int64Multiply_exact:
  assumes "int64_range a" and "int64_range b"
  shows "int64Multiply a b = (if int64_range (a * b) then Some (a * b) else None)"
proof -
  consider (small) "a = 0 \<or> b = 0 \<or> a = 1 \<or> b = 1"
    | (least) "\<not> (a = 0 \<or> b = 0 \<or> a = 1 \<or> b = 1)" "a = mostNegative \<or> b = mostNegative"
    | (other) "\<not> (a = 0 \<or> b = 0 \<or> a = 1 \<or> b = 1)" "\<not> (a = mostNegative \<or> b = mostNegative)" by blast
  then show ?thesis
  proof cases
    case small
    then have "int64_range (a * b)" using assms by (auto simp: int64_range_def)
    with small show ?thesis by (simp add: int64Multiply_def wrap64_id int64_range_def)
  next
    case least
    have out: "\<not> int64_range (mostNegative * x)" if "x \<noteq> 0" "x \<noteq> 1" for x
    proof -
      have "x \<le> -1 \<or> 2 \<le> x" using that by linarith
      then show ?thesis by (auto simp: int64_range_def mostNegative_def)
    qed
    from least have "\<not> int64_range (a * b)" using out [of a] out [of b] by (auto simp: mult.commute)
    with least show ?thesis by (simp add: int64Multiply_def)
  next
    case other
    obtain k where k: "wrap64 (a * b) = a * b + k * 2 ^ 64" using wrap64_cong by blast
    have "wrap64 (a * b) = a * b" if "wrap64 (a * b) sdiv b = a"
    proof -
      have "\<bar>k * 2 ^ 64\<bar> < \<bar>b\<bar>" using sdiv_remainder [of b "wrap64 (a * b)"] other(1) k that by simp
      then have "\<bar>k\<bar> * 2 ^ 64 < 2 ^ 64" using assms(2) by (simp add: abs_mult int64_range_def) linarith
      then have "k = 0" by simp
      with k show ?thesis by simp
    qed
    moreover have "int64_range (wrap64 (a * b))" using wrap64_range by (simp add: int64_range_def)
    moreover have "wrap64 (a * b) = a * b" if "int64_range (a * b)" using that by (simp add: wrap64_id int64_range_def)
    ultimately show ?thesis
      using other sdiv_exact [of b a] by (auto simp: int64Multiply_def Let_def)
  qed
qed

subsection \<open>Digits\<close>

lemma digits_value_Nil [simp]: "digits_value [] = 0"
  by (simp add: digits_value_def)

lemma digits_value_snoc: "digits_value (ds @ [c]) = 10 * digits_value ds + (int (of_char c) - 48)"
  by (simp add: digits_value_def)

lemma digits_value_bounds:
  "list_all is_digit ds \<Longrightarrow> 0 \<le> digits_value ds \<and> digits_value ds < 10 ^ length ds"
proof (induction ds rule: rev_induct)
  case (snoc c ds)
  then have "0 \<le> int (of_char c) - 48" "int (of_char c) - 48 \<le> 9" by (simp_all add: is_digit_def)
  with snoc show ?case by (simp add: digits_value_snoc)
qed simp

lemma digits_value_append:
  "digits_value (ds @ es) = digits_value ds * 10 ^ length es + digits_value es"
proof (induction es rule: rev_induct)
  case (snoc c es)
  have "digits_value (ds @ es @ [c]) = 10 * digits_value (ds @ es) + (int (of_char c) - 48)"
    using digits_value_snoc [of "ds @ es" c] by simp
  with snoc show ?case by (simp add: digits_value_snoc algebra_simps)
qed simp

lemma digits_value_zeros: "list_all (\<lambda>c. c = CHR ''0'') zs \<Longrightarrow> digits_value zs = 0"
  by (induction zs rule: rev_induct) (simp_all add: digits_value_snoc)

lemma digits_value_strip: "digits_value (dropWhile (\<lambda>c. c = CHR ''0'') ds @ es) = digits_value (ds @ es)"
proof -
  have "digits_value (takeWhile (\<lambda>c. c = CHR ''0'') ds) = 0"
    by (rule digits_value_zeros) (auto simp: list_all_iff dest: set_takeWhileD)
  then have "digits_value (dropWhile (\<lambda>c. c = CHR ''0'') ds) = digits_value ds"
    using digits_value_append [of "takeWhile (\<lambda>c. c = CHR ''0'') ds" "dropWhile (\<lambda>c. c = CHR ''0'') ds"]
    by (simp only: takeWhile_dropWhile_id mult_zero_left add_0_left)
  then show ?thesis by (simp add: digits_value_append)
qed

subsection \<open>The texts\<close>

text \<open>
  A quantity text: a sign, digits, perhaps a point with digits, a suffix. The texts the parser
  accepts have a suffix it can interpret, and a digit unless the suffix is small.
\<close>

definition is_sign :: "string \<Rightarrow> bool" where
  "is_sign sg \<longleftrightarrow> sg \<in> {'''', ''+'', ''-''}"

definition frac_digits :: "string option \<Rightarrow> string" where
  "frac_digits fr = (case fr of None \<Rightarrow> '''' | Some fs \<Rightarrow> fs)"

definition number_text :: "string \<Rightarrow> string \<Rightarrow> string option \<Rightarrow> string" where
  "number_text sg ds fr = sg @ ds @ (case fr of None \<Rightarrow> '''' | Some fs \<Rightarrow> CHR ''.'' # fs)"

definition well_split :: "string \<Rightarrow> string \<Rightarrow> string option \<Rightarrow> string \<Rightarrow> bool" where
  "well_split sg ds fr rest \<longleftrightarrow> is_sign sg \<and> list_all is_digit ds \<and> list_all is_digit (frac_digits fr) \<and>
     (rest = [] \<or> \<not> is_digit (hd rest) \<and> (fr = None \<longrightarrow> hd rest \<noteq> CHR ''.'') \<and>
        (sg = '''' \<longrightarrow> ds = '''' \<longrightarrow> fr = None \<longrightarrow> hd rest \<noteq> CHR ''+'' \<and> hd rest \<noteq> CHR ''-''))"

definition num_of :: "string \<Rightarrow> string" where
  "num_of ds = (if dropWhile (\<lambda>c. c = CHR ''0'') ds = [] then ''0'' else dropWhile (\<lambda>c. c = CHR ''0'') ds)"

lemma sign_dot_not_digit [simp]:
  "\<not> is_digit (CHR ''.'')" "\<not> is_digit (CHR ''+'')" "\<not> is_digit (CHR ''-'')" "is_digit (CHR ''0'')"
  by (simp_all add: is_digit_def)

lemma digits_not_sign: "list_all is_digit ds \<Longrightarrow> ds \<noteq> [] \<Longrightarrow> hd ds \<noteq> CHR ''+'' \<and> hd ds \<noteq> CHR ''-'' \<and> hd ds \<noteq> CHR ''.''"
  by (cases ds) auto

lemma while_digits:
  assumes "list_all is_digit ds" and "rest = [] \<or> \<not> is_digit (hd rest)"
  shows "takeWhile is_digit (ds @ rest) = ds" and "dropWhile is_digit (ds @ rest) = rest"
proof -
  have "takeWhile is_digit rest = []" "dropWhile is_digit rest = rest" using assms(2) by (cases rest; auto)+
  with assms(1) show "takeWhile is_digit (ds @ rest) = ds" "dropWhile is_digit (ds @ rest) = rest"
    by (induction ds) auto
qed

lemma dropWhile_zeros:
  assumes "rest = [] \<or> hd rest \<noteq> CHR ''0''"
  shows "dropWhile (\<lambda>c. c = CHR ''0'') (ds @ rest) = dropWhile (\<lambda>c. c = CHR ''0'') ds @ rest"
proof -
  have "dropWhile (\<lambda>c. c = CHR ''0'') rest = rest" using assms by (cases rest) auto
  then show ?thesis by (induction ds) auto
qed

lemma dropWhile_digits: "list_all is_digit ds \<Longrightarrow> list_all is_digit (dropWhile P ds)"
  by (auto simp: list_all_iff dest: set_dropWhileD)

lemma around_digits:
  "list_all is_digit (takeWhile is_digit xs)"
  "dropWhile is_digit xs = [] \<or> \<not> is_digit (hd (dropWhile is_digit xs))"
  using hd_dropWhile by (auto simp: list_all_iff dest: set_takeWhileD simp del: dropWhile_eq_Nil_conv)

text \<open>Every text splits.\<close>

lemma split_exists:
  obtains sg ds fr rest where "t = number_text sg ds fr @ rest" and "well_split sg ds fr rest"
proof -
  define u where "u = (if t \<noteq> [] \<and> (hd t = CHR ''-'' \<or> hd t = CHR ''+'') then tl t else t)"
  define sg where "sg = (if t \<noteq> [] \<and> (hd t = CHR ''-'' \<or> hd t = CHR ''+'') then [hd t] else [])"
  have t: "t = sg @ u" "is_sign sg" by (cases t; auto simp: u_def sg_def is_sign_def)+
  have nosign: "sg = [] \<Longrightarrow> u \<noteq> [] \<Longrightarrow> hd u \<noteq> CHR ''+'' \<and> hd u \<noteq> CHR ''-''"
    by (auto simp: u_def sg_def split: if_splits)
  define ds where "ds = takeWhile is_digit u"
  define r where "r = dropWhile is_digit u"
  have u: "u = ds @ r" "list_all is_digit ds" "r = [] \<or> \<not> is_digit (hd r)"
    unfolding ds_def r_def using around_digits [of u] by simp_all
  show thesis
  proof (cases "r \<noteq> [] \<and> hd r = CHR ''.''")
    case True
    define fs where "fs = takeWhile is_digit (tl r)"
    define rest where "rest = dropWhile is_digit (tl r)"
    have r: "r = CHR ''.'' # fs @ rest" "list_all is_digit fs" "rest = [] \<or> \<not> is_digit (hd rest)"
      using True around_digits [of "tl r"] unfolding fs_def rest_def by (cases r; simp)+
    show thesis
      by (rule that [of sg ds "Some fs" rest])
         (use t u r in \<open>simp_all add: number_text_def well_split_def frac_digits_def\<close>)
  next
    case False
    have "ds = [] \<Longrightarrow> u = r" using u by simp
    then show thesis
      by (intro that [of sg ds None r])
         (use False t u nosign in \<open>auto simp: number_text_def well_split_def frac_digits_def\<close>)
  qed
qed

text \<open>What the scanner makes of a split text.\<close>

lemma scan_unsigned:
  assumes "well_split sg ds fr rest"
  defines "t \<equiv> number_text sg ds fr @ rest"
  shows "(t \<noteq> [] \<and> hd t = CHR ''-'') = (sg = ''-'')"
    and "(if t \<noteq> [] \<and> (hd t = CHR ''-'' \<or> hd t = CHR ''+'') then tl t else t) = number_text '''' ds fr @ rest"
proof -
  have "sg = '''' \<Longrightarrow> t \<noteq> [] \<Longrightarrow> hd t \<noteq> CHR ''-'' \<and> hd t \<noteq> CHR ''+''"
  proof -
    assume sg: "sg = ''''" and ne: "t \<noteq> []"
    show ?thesis
    proof (cases ds)
      case (Cons c cs)
      with assms(1) sg show ?thesis by (auto simp: t_def number_text_def well_split_def)
    next
      case Nil
      with assms(1) sg ne show ?thesis
        by (cases fr; cases rest) (auto simp: t_def number_text_def well_split_def)
    qed
  qed
  moreover have "sg = '''' \<or> sg = ''+'' \<or> sg = ''-''" using assms(1) by (auto simp: well_split_def is_sign_def)
  ultimately show "(t \<noteq> [] \<and> hd t = CHR ''-'') = (sg = ''-'')"
    "(if t \<noteq> [] \<and> (hd t = CHR ''-'' \<or> hd t = CHR ''+'') then tl t else t) = number_text '''' ds fr @ rest"
    by (auto simp: t_def number_text_def)
qed

lemma scan_suffix_same: "scan_suffix rest = Some suf \<Longrightarrow> suf = rest"
  by (auto simp: scan_suffix_def Let_def split: if_splits)

lemma zeros_only_digits: "hd rest \<noteq> CHR ''0''" if "rest \<noteq> []" "\<not> is_digit (hd rest)"
  using that by (metis sign_dot_not_digit(4))

lemma scan_text:
  assumes "well_split sg ds fr rest"
  shows "scan_quantity (number_text sg ds fr @ rest) =
    (if rest \<noteq> [] \<and> scan_suffix rest = None then Inl ErrFormatWrong
     else Inr \<lparr>sc_positive = (sg \<noteq> ''-''),
       sc_value = (if fr = None \<and> rest = [] \<and> dropWhile (\<lambda>c. c = CHR ''0'') ds = [] then ''0''
                   else number_text sg ds fr),
       sc_num = num_of ds, sc_denom = frac_digits fr, sc_suffix = rest\<rparr>)"
proof -
  define n where "n = dropWhile (\<lambda>c. c = CHR ''0'') ds"
  define after where "after = (case fr of None \<Rightarrow> rest | Some fs \<Rightarrow> CHR ''.'' # fs @ rest)"
  have u: "number_text '''' ds fr @ rest = ds @ after"
    by (simp add: number_text_def after_def split: option.split)
  have after: "after = [] \<or> \<not> is_digit (hd after)"
    using assms by (auto simp: after_def well_split_def split: option.splits)
  then have z: "dropWhile (\<lambda>c. c = CHR ''0'') (ds @ after) = n @ after"
    unfolding n_def using dropWhile_zeros [of after ds] zeros_only_digits by blast
  have ds: "list_all is_digit n" using assms dropWhile_digits by (simp add: n_def well_split_def)
  have n: "takeWhile is_digit (n @ after) = n" "dropWhile is_digit (n @ after) = after"
    using while_digits [OF ds after] .
  have num: "num_of ds = (if n = [] then ''0'' else n)" by (simp only: num_of_def n_def)
  note scan = scan_quantity_def [of "number_text sg ds fr @ rest", unfolded Let_def,
      unfolded scan_unsigned(1) [OF assms] scan_unsigned(2) [OF assms] u z n]
  show ?thesis
  proof (cases fr)
    case None
    with after_def have a: "after = rest" by simp
    have "rest \<noteq> [] \<Longrightarrow> hd rest \<noteq> CHR ''.''" using assms None by (auto simp: well_split_def)
    then show ?thesis
      unfolding scan num n_def [symmetric] using None a scan_suffix_same [of rest]
      by (cases "rest = []"; cases "n = []"; cases "scan_suffix rest") (simp_all add: frac_digits_def)
  next
    case (Some fs)
    with assms have fs: "takeWhile is_digit (fs @ rest) = fs" "dropWhile is_digit (fs @ rest) = rest"
      using while_digits [of fs rest] by (auto simp: well_split_def frac_digits_def)
    have a: "hd after = CHR ''.''" "after \<noteq> []" "takeWhile is_digit (tl after) = fs"
        "dropWhile is_digit (tl after) = rest"
      using Some after_def fs by simp_all
    show ?thesis
      unfolding scan num n_def [symmetric] using Some scan_suffix_same [of rest]
      by (cases "rest = []"; cases "n = []"; cases "scan_suffix rest") (simp_all add: frac_digits_def a)
  qed
qed

text \<open>A suffix with a meaning is one the scanner passes.\<close>

lemma ParseInt64_shape:
  assumes "ParseInt64 t \<noteq> None"
  shows "t \<noteq> []" and "dropWhile is_digit (if hd t = CHR ''-'' \<or> hd t = CHR ''+'' then tl t else t) = []"
    and "is_digit (hd t) \<or> hd t = CHR ''-'' \<or> hd t = CHR ''+''"
  using assms by (cases t; auto simp: ParseInt64_def big_SetString_def split_sign_def list_all_iff split: if_splits)+

lemma suffix_cases:
  assumes "interpret_suffix suf = Some (b, e, f)"
  obtains (si) "f = DecimalSI" "b = 10" "(suf, e) \<in> set decSuffixes"
  | (bin) "f = BinarySI" "b = 2" "(suf, e) \<in> set binSuffixes"
  | (exp) c t n where "f = DecimalExponent" "b = 10" "suf = c # t" "c = CHR ''e'' \<or> c = CHR ''E''"
      "ParseInt64 t = Some n" "e = wrap32 n"
proof (cases "map_of fastSuffixes suf")
  case (Some e')
  with assms have "f = DecimalSI" "b = 10" "(suf, e) \<in> set fastSuffixes"
    by (auto simp: interpret_suffix_def map_of_SomeD)
  moreover have "set fastSuffixes \<subseteq> set decSuffixes" by (auto simp: fastSuffixes_def decSuffixes_def)
  ultimately show thesis using si by blast
next
  case None
  with assms have h: "suffixHandler_interpret suf = Some (b, e, f)" by (simp add: interpret_suffix_def)
  show thesis
  proof (cases "map_of decSuffixes suf")
    case (Some e')
    with h show thesis by (intro si) (auto simp: suffixHandler_interpret_def map_of_SomeD)
  next
    case d: None
    show thesis
    proof (cases "map_of binSuffixes suf")
      case (Some e')
      with h d show thesis by (intro bin) (auto simp: suffixHandler_interpret_def map_of_SomeD)
    next
      case None
      with h d obtain n where n: "ParseInt64 (tl suf) = Some n" "length suf > 1"
          "hd suf = CHR ''E'' \<or> hd suf = CHR ''e''" "b = 10" "e = wrap32 n" "f = DecimalExponent"
        by (auto simp: suffixHandler_interpret_def split: if_splits option.splits)
      then show thesis by (intro exp [of "hd suf" "tl suf" n]) (cases suf; auto)+
    qed
  qed
qed

lemma suffix_passes:
  assumes "interpret_suffix suf = Some (b, e, f)" and "suf \<noteq> []"
  shows "scan_suffix suf = Some suf" and "\<not> is_digit (hd suf)"
    and "hd suf \<noteq> CHR ''.''" and "hd suf \<noteq> CHR ''+''" and "hd suf \<noteq> CHR ''-''"
proof -
  have "scan_suffix suf = Some suf \<and> \<not> is_digit (hd suf) \<and> hd suf \<noteq> CHR ''.'' \<and> hd suf \<noteq> CHR ''+'' \<and> hd suf \<noteq> CHR ''-''"
    using assms(1)
  proof (cases rule: suffix_cases)
    case si
    with assms(2) show ?thesis by (auto simp: decSuffixes_def scan_suffix_def is_digit_def)
  next
    case bin
    then show ?thesis by (auto simp: binSuffixes_def scan_suffix_def is_digit_def)
  next
    case (exp c t n)
    then have t: "t \<noteq> []" "dropWhile is_digit (if hd t = CHR ''-'' \<or> hd t = CHR ''+'' then tl t else t) = []"
        "is_digit (hd t) \<or> hd t = CHR ''-'' \<or> hd t = CHR ''+''"
      using ParseInt64_shape [of t] by auto
    from t(1,3) have "hd t \<notin> set ''eEinumkKMGTP''" by (auto simp: is_digit_def)
    with t(1) have "dropWhile (\<lambda>c. c \<in> set ''eEinumkKMGTP'') t = t" by (cases t) auto
    with exp t show ?thesis by (auto simp: scan_suffix_def Let_def is_digit_def)
  qed
  then show "scan_suffix suf = Some suf" "\<not> is_digit (hd suf)" "hd suf \<noteq> CHR ''.''" "hd suf \<noteq> CHR ''+''"
    "hd suf \<noteq> CHR ''-''" by blast+
qed

subsection \<open>The fast path\<close>

lemma num_of_props:
  assumes "list_all is_digit ds"
  shows "list_all is_digit (num_of ds)" and "num_of ds \<noteq> []" and "length (num_of ds) \<le> max 1 (length ds)"
    and "digits_value (num_of ds @ es) = digits_value (ds @ es)"
proof -
  have "length (dropWhile (\<lambda>c. c = CHR ''0'') ds) \<le> length ds" by (rule length_dropWhile_le)
  then show "length (num_of ds) \<le> max 1 (length ds)" by (auto simp: num_of_def)
  show "list_all is_digit (num_of ds)" "num_of ds \<noteq> []"
    using dropWhile_digits [OF assms] by (auto simp: num_of_def)
  show "digits_value (num_of ds @ es) = digits_value (ds @ es)"
  proof (cases "dropWhile (\<lambda>c. c = CHR ''0'') ds = []")
    case True
    then have "digits_value (ds @ es) = digits_value es" using digits_value_strip [of ds es] by (simp only: append_Nil)
    moreover have "digits_value (''0'' @ es) = digits_value es"
      using digits_value_append [of "''0''" es] by (simp add: digits_value_def)
    ultimately show ?thesis using True by (simp add: num_of_def del: dropWhile_eq_Nil_conv)
  next
    case False
    then show ?thesis using digits_value_strip [of ds es] by (simp add: num_of_def del: dropWhile_eq_Nil_conv)
  qed
qed

lemma ParseInt64_digits:
  assumes "list_all is_digit ds" and "ds \<noteq> []" and "length ds \<le> 18"
  shows "ParseInt64 ds = Some (digits_value ds)"
proof -
  have "split_sign ds = (False, ds)" using digits_not_sign [OF assms(1,2)] by (cases ds) (auto simp: split_sign_def)
  moreover have "digits_value ds < 2 ^ 63"
  proof -
    have "(10::int) ^ length ds \<le> 10 ^ 18" using assms(3) by (intro power_increasing) simp_all
    with digits_value_bounds [OF assms(1)] show ?thesis by simp
  qed
  ultimately show ?thesis
    using assms(1,2) digits_value_bounds [OF assms(1)] by (simp add: ParseInt64_def big_SetString_def)
qed

definition takes_fast :: "QuantityFormat \<Rightarrow> int \<Rightarrow> string \<Rightarrow> string \<Rightarrow> bool" where
  "takes_fast fmt e num denom \<longleftrightarrow> fast_precision fmt e num denom \<ge> 0 \<and>
     wrap32 ((if fmt = BinarySI then 0 else e) - wrap32 (int (length denom))) \<ge> Nano"

definition binary_factor :: "QuantityFormat \<Rightarrow> int \<Rightarrow> int" where
  "binary_factor fmt e = (if fmt = BinarySI then 2 ^ nat e else 1)"

lemma binary_exponents:
  assumes "interpret_suffix suf = Some (b, e, BinarySI)"
  shows "e = 10 \<or> e = 20 \<or> e = 30 \<or> e = 40 \<or> e = 50 \<or> e = 60" and "b = 2"
  using assms by (cases rule: suffix_cases; auto simp: binSuffixes_def)+

lemma fast_lengths:
  assumes "interpret_suffix suf = Some (b, e, f)" and "int (length num + length denom) < 2 ^ 31 - 20"
    and "fast_precision f e num denom \<ge> 0"
  shows "length num + length denom \<le> 18"
    and "f = BinarySI \<Longrightarrow> denom = [] \<and> (e = 10 \<and> length num \<le> 11 \<or> e = 20 \<and> length num \<le> 8 \<or>
      e = 30 \<and> length num \<le> 5 \<or> e = 40 \<and> length num \<le> 2)"
proof -
  have wrap: "wrap32 (int n) = int n" if "n \<le> length num + length denom" for n
    using that assms(2) by (intro wrap32_id) simp_all
  have bin: "denom = [] \<and> (e = 10 \<and> length num \<le> 11 \<or> e = 20 \<and> length num \<le> 8 \<or>
      e = 30 \<and> length num \<le> 5 \<or> e = 40 \<and> length num \<le> 2)" if f: "f = BinarySI"
  proof -
    have d: "denom = []" using assms(3) f by (cases denom) (simp_all add: fast_precision_def)
    have e: "e = 10 \<or> e = 20 \<or> e = 30 \<or> e = 40 \<or> e = 50 \<or> e = 60"
      using binary_exponents(1) assms(1) f by simp
    have "wrap32 (15 - int (length num)) = 15 - int (length num)"
      using assms(2) by (intro wrap32_id) simp_all
    moreover have "wrap32 (15 - int (length num) - e * 3 div 10) = 15 - int (length num) - e * 3 div 10"
      using assms(2) e by (intro wrap32_id) auto
    moreover have "wrap32 (15 - int (length num) - e * 3 div 10 - 1) = 15 - int (length num) - e * 3 div 10 - 1"
      using assms(2) e by (intro wrap32_id) auto
    moreover have "0 \<le> wrap32 (wrap32 (wrap32 (15 - wrap32 (int (length num))) - e * 3 div 10) - 1)"
      using assms(3) f d e by (auto simp: fast_precision_def)
    ultimately have "15 - int (length num) - e * 3 div 10 - 1 \<ge> 0"
      using wrap [of "length num"] by (simp only:)
    with e d show ?thesis by auto
  qed
  then show "f = BinarySI \<Longrightarrow> denom = [] \<and> (e = 10 \<and> length num \<le> 11 \<or> e = 20 \<and> length num \<le> 8 \<or>
      e = 30 \<and> length num \<le> 5 \<or> e = 40 \<and> length num \<le> 2)" .
  show "length num + length denom \<le> 18"
  proof (cases "f = BinarySI")
    case True
    with bin show ?thesis by auto
  next
    case False
    have "wrap32 (18 - int (length num + length denom)) = 18 - int (length num + length denom)"
      using assms(2) by (intro wrap32_id) simp_all
    with False assms(3) wrap [of "length num + length denom"] show ?thesis
      by (simp add: fast_precision_def maxInt64Factors_def)
  qed
qed

lemma fast_product:
  assumes "interpret_suffix suf = Some (b, e, f)" and "int (length num + length denom) < 2 ^ 31 - 20"
    and "fast_precision f e num denom \<ge> 0" and "list_all is_digit (num @ denom)"
  shows "fast_mantissa f e denom = binary_factor f e"
    and "digits_value (num @ denom) * binary_factor f e < 2 ^ 63"
proof -
  note len = fast_lengths [OF assms(1-3)]
  show "fast_mantissa f e denom = binary_factor f e"
    using len(2) by (cases "f = BinarySI") (auto simp: fast_mantissa_def binary_factor_def wrap64_id)
  have v: "digits_value (num @ denom) < 10 ^ n" if "length num + length denom \<le> n" for n
  proof -
    have "(10::int) ^ length (num @ denom) \<le> 10 ^ n" using that by (intro power_increasing) simp_all
    with digits_value_bounds [OF assms(4)] show ?thesis by linarith
  qed
  show "digits_value (num @ denom) * binary_factor f e < 2 ^ 63"
  proof (cases "f = BinarySI")
    case True
    from len(2) [OF True] consider "e = 10" "length num + length denom \<le> 11" | "e = 20" "length num + length denom \<le> 8"
      | "e = 30" "length num + length denom \<le> 5" | "e = 40" "length num + length denom \<le> 2" by auto
    then show ?thesis using v True by cases (fastforce simp: binary_factor_def)+
  next
    case False
    with v [OF len(1)] show ?thesis by (simp add: binary_factor_def)
  qed
qed

lemma parse_fast_eq:
  assumes "interpret_suffix suf = Some (b, e, f)" and "int (length (sc_num sc) + length (sc_denom sc)) < 2 ^ 31 - 20"
    and "list_all is_digit (sc_num sc @ sc_denom sc)" and "sc_num sc \<noteq> []"
  shows "(takes_fast f e (sc_num sc) (sc_denom sc) \<longrightarrow> (\<exists>s. parse_fast str sc e f =
      Some (Inr (int_quantity ((if sc_positive sc then 1 else -1) * (digits_value (sc_num sc @ sc_denom sc) * binary_factor f e))
        (wrap32 ((if f = BinarySI then 0 else e) - wrap32 (int (length (sc_denom sc))))) f s)))) \<and>
    (\<not> takes_fast f e (sc_num sc) (sc_denom sc) \<longrightarrow> parse_fast str sc e f = None)"
proof (cases "takes_fast f e (sc_num sc) (sc_denom sc)")
  case False
  then show ?thesis by (auto simp: parse_fast_def takes_fast_def Let_def)
next
  case True
  then have p: "fast_precision f e (sc_num sc) (sc_denom sc) \<ge> 0" by (simp add: takes_fast_def)
  let ?v = "digits_value (sc_num sc @ sc_denom sc)"
  have v: "0 \<le> ?v" "ParseInt64 (sc_num sc @ sc_denom sc) = Some ?v"
    using digits_value_bounds [OF assms(3)] ParseInt64_digits [OF assms(3)] fast_lengths(1) [OF assms(1,2) p] assms(4)
    by simp_all
  note m = fast_product [OF assms(1,2) p assms(3)]
  have f1: "1 \<le> binary_factor f e" by (simp add: binary_factor_def)
  then have "?v \<le> ?v * binary_factor f e" using v(1) by (simp add: mult_le_cancel_left1)
  with m(2) v(1) have r: "int64_range ?v" "int64_range (?v * binary_factor f e)"
    by (simp_all add: int64_range_def)
  have "int64_range (binary_factor f e)"
    using binary_exponents(1) [of suf b e] assms(1) by (cases "f = BinarySI") (auto simp: int64_range_def binary_factor_def)
  with r have "int64Multiply ?v (binary_factor f e) = Some (?v * binary_factor f e)"
    by (simp add: int64Multiply_exact)
  moreover have "wrap64 (- (?v * binary_factor f e)) = - (?v * binary_factor f e)"
  proof (rule wrap64_id)
    have "0 \<le> ?v * binary_factor f e" using v(1) f1 by (intro mult_nonneg_nonneg) simp_all
    then have "- (?v * binary_factor f e) \<le> 0" by (simp only: neg_le_0_iff_le)
    then show "- (?v * binary_factor f e) < 2 ^ 63" by (rule le_less_trans) simp
    show "- (2 ^ 63) \<le> - (?v * binary_factor f e)" using r(2) by (simp add: int64_range_def)
  qed
  ultimately show ?thesis
    using True v(2) m(1) by (auto simp: parse_fast_def takes_fast_def Let_def)
qed

subsection \<open>The slow path\<close>

lemma dec_scan_digits:
  "list_all is_digit ds \<Longrightarrow> dec_scan un dp dg (ds @ r) = dec_scan (un @ ds) dp (dg \<or> ds \<noteq> []) r"
proof (induction ds arbitrary: un dg)
  case (Cons c cs)
  then have "c \<noteq> CHR ''+''" "c \<noteq> CHR ''-''" "c \<noteq> CHR ''.''" "is_digit c" by auto
  with Cons show ?case by simp
qed simp

lemma dec_scan_sign: "is_sign sg \<Longrightarrow> dec_scan [] None dg (sg @ r) = dec_scan sg None dg r"
  by (auto simp: is_sign_def)

lemma dec_scan_text:
  assumes "is_sign sg" and "list_all is_digit ds" and "list_all is_digit (frac_digits fr)"
  shows "dec_scan [] None False (number_text sg ds fr) = (sg @ ds @ frac_digits fr,
    (if fr = None then None else Some (length (sg @ ds))), ds @ frac_digits fr \<noteq> [], [])"
proof (cases fr)
  case None
  have "dec_scan [] None False (sg @ ds @ []) = dec_scan (sg @ ds) None (ds \<noteq> []) []"
    unfolding dec_scan_sign [OF assms(1)] dec_scan_digits [OF assms(2)] by simp
  with None show ?thesis by (simp add: number_text_def frac_digits_def)
next
  case (Some fs)
  have "dec_scan [] None False (sg @ ds @ CHR ''.'' # fs @ []) =
      dec_scan (sg @ ds) (Some (length (sg @ ds))) (ds \<noteq> []) (fs @ [])"
    unfolding dec_scan_sign [OF assms(1)] dec_scan_digits [OF assms(2)] by simp
  also have "\<dots> = dec_scan ((sg @ ds) @ fs) (Some (length (sg @ ds))) (ds \<noteq> [] \<or> fs \<noteq> []) []"
    using assms(3) Some by (intro dec_scan_digits) (simp add: frac_digits_def)
  finally show ?thesis using Some by (simp add: number_text_def frac_digits_def)
qed

lemma big_SetString_signed:
  assumes "is_sign sg" and "list_all is_digit ds" and "ds \<noteq> []"
  shows "big_SetString (sg @ ds) = Some ((if sg = ''-'' then -1 else 1) * digits_value ds)"
proof -
  have "split_sign (sg @ ds) = (sg = ''-'', ds)"
    using assms digits_not_sign [OF assms(2,3)] by (cases ds) (auto simp: split_sign_def is_sign_def)
  with assms show ?thesis by (simp add: big_SetString_def)
qed

lemma Dec_SetString_text:
  assumes "is_sign sg" and "list_all is_digit ds" and "list_all is_digit (frac_digits fr)"
    and "int (length (frac_digits fr)) < 2 ^ 31"
  shows "Dec_SetString (number_text sg ds fr) =
    (if ds @ frac_digits fr = [] then None
     else Some ((if sg = ''-'' then -1 else 1) * digits_value (ds @ frac_digits fr), int (length (frac_digits fr))))"
proof (cases "ds @ frac_digits fr = []")
  case True
  then show ?thesis using dec_scan_text [OF assms(1-3)] by (simp add: Dec_SetString_def)
next
  case False
  have "wrap32 (int (length (frac_digits fr))) = int (length (frac_digits fr))"
    using assms(4) by (intro wrap32_id) simp_all
  then show ?thesis
    using False dec_scan_text [OF assms(1-3)] big_SetString_signed [of sg "ds @ frac_digits fr"] assms(1-3)
    by (cases fr) (auto simp: Dec_SetString_def frac_digits_def)
qed

text \<open>Rational values of big decimals, and rounding up to a scale.\<close>

definition dec_value :: "Dec \<Rightarrow> rat" where
  "dec_value d = of_int (fst d) * 10 powi (- snd d)"

lemma sdiv_ceiling:
  assumes "0 \<le> n" and "(0::int) < m"
  shows "(if n smod m \<noteq> 0 then n sdiv m + 1 else n sdiv m) = \<lceil>(of_int n :: rat) / of_int m\<rceil>"
proof -
  have s: "n sdiv m = n div m" "n smod m = n mod m"
    using assms by (simp_all add: signed_divide_int_def signed_modulo_int_def sgn_if)
  have f: "\<lceil>(of_int n :: rat) / of_int m\<rceil> = - ((- n) div m)"
    by (rule ceiling_divide_eq_div)
  have "- ((- n) div m) = (if n mod m \<noteq> 0 then n div m + 1 else n div m)"
    using assms(2) by (simp add: zdiv_zminus1_eq_if)
  with s f show ?thesis by simp
qed

lemma unscaled_nonzero_iff: "unscaled_nonzero d \<longleftrightarrow> fst d \<noteq> 0"
  by (auto simp: unscaled_nonzero_def Let_def wrap64_id)

text \<open>
  \<^verbatim>\<open>Round\<close> multiplies or divides by a power of ten whose exponent is computed in 32 bits. The least
  of these numbers has no negation, and the table of powers is read at a negative index.
\<close>

lemma Round_shift:
  assumes "0 \<le> n" and "sh = wrap32 (9 - s)"
  shows "Round (n, s) 9 = (if sh = - (2 ^ 31) then Panic ''index out of range''
    else Returns (\<lceil>(of_int n :: rat) * 10 powi sh\<rceil>, 9))"
proof -
  have w: "wrap32 (9 - wrap32 s) = sh" using assms(2) by (simp add: wrap32_diff)
  have up: "RoundUp (n sdiv m, 9) (n smod m) m = (\<lceil>(of_int n :: rat) / of_int m\<rceil>, 9)" if m: "0 < m" for m
  proof -
    have "n smod m = n mod m" using assms(1) m by (simp add: signed_modulo_int_def sgn_if)
    then have "n smod m = 0 \<or> 0 < n smod m" using pos_mod_sign [OF m, of n] by linarith
    then show ?thesis using sdiv_ceiling [OF assms(1) m] m by (auto simp: RoundUp_def sgn_if)
  qed
  consider "sh > 0" | "sh = 0" | "sh = - (2 ^ 31)" | "sh < 0" "- (2 ^ 31) < sh"
    using wrap32_range(1) [of "9 - s"] assms(2) by linarith
  then show ?thesis
  proof cases
    case 1
    have "10 powi sh = (of_int (10 ^ nat sh) :: rat)" using 1 by (simp add: power_int_def)
    then have "\<lceil>(of_int n :: rat) * 10 powi sh\<rceil> = n * 10 ^ nat sh"
      by (simp only: ceiling_of_int flip: of_int_mult)
    then show ?thesis using 1 w by (simp add: Round_def quoRem_def exp10_def RoundUp_def Let_def smod_int_alt_def)
  next
    case 2
    then show ?thesis using w by (simp add: Round_def quoRem_def RoundUp_def smod_int_alt_def)
  next
    case 3
    then have "wrap32 (- sh) = - (2 ^ 31)" by (simp add: wrap32_def)
    then show ?thesis using 3 w by (simp add: Round_def quoRem_def exp10_def Let_def)
  next
    case 4
    have "wrap32 (- sh) = - sh" using 4 by (intro wrap32_id) linarith+
    moreover have "10 powi sh = (1 / of_int (10 ^ nat (- sh)) :: rat)" using 4 by (simp add: power_int_def field_simps)
    ultimately show ?thesis using 4 w up [of "10 ^ nat (- sh)"] by (simp add: Round_def quoRem_def exp10_def Let_def)
  qed
qed

lemma Round_up:
  assumes "0 \<le> n" and "- (2 ^ 31 - 10) < s \<and> s < 2 ^ 31"
  shows "Round (n, s) 9 = Returns (\<lceil>dec_value (n, s) * 10 ^ 9\<rceil>, 9)"
proof -
  have "9 - s = wrap32 (9 - s)" using assms(2) by (intro wrap32_id [symmetric]) linarith+
  moreover have "dec_value (n, s) * 10 ^ 9 = of_int n * 10 powi (9 - s)"
    by (simp add: dec_value_def power_int_diff power_int_minus field_simps)
  ultimately show ?thesis using Round_shift [OF assms(1)] assms(2) by simp
qed

lemma Cmp_whole:
  assumes "0 \<le> s" and "s < 2 ^ 31"
  shows "Cmp (n, s) (m, 0) = Returns (sgn (n - m * 10 ^ nat s))"
proof (cases "s = 0")
  case False
  with assms have "wrap32 s = s" by (intro wrap32_id) simp_all
  with False assms show ?thesis by (simp add: Cmp_def rescale_def exp10_def)
qed (simp add: Cmp_def)

lemma dec_value_le:
  assumes "0 \<le> s"
  shows "dec_value (n, s) \<le> of_int m \<longleftrightarrow> n \<le> m * 10 ^ nat s"
proof -
  have "dec_value (n, s) = of_int n / of_int (10 ^ nat s)"
    using assms by (simp add: dec_value_def power_int_minus power_int_def field_simps)
  then have "dec_value (n, s) \<le> of_int m \<longleftrightarrow> (of_int n :: rat) \<le> of_int m * of_int (10 ^ nat s)"
    by (simp add: divide_le_eq)
  also have "\<dots> \<longleftrightarrow> n \<le> m * 10 ^ nat s" by (simp only: of_int_le_iff flip: of_int_mult)
  finally show ?thesis .
qed

definition capped :: "QuantityFormat \<Rightarrow> rat \<Rightarrow> rat" where
  "capped f x = (if f = BinarySI then min x (2 ^ 63 - 1) else x)"

lemma cap_binary_value:
  assumes "f = BinarySI \<Longrightarrow> 0 \<le> s \<and> s < 2 ^ 31"
  obtains a where "cap_binary f (n, s) = Returns a" and "dec_value a = capped f (dec_value (n, s))"
    and "f = BinarySI \<Longrightarrow> 0 \<le> snd a \<and> snd a < 2 ^ 31"
proof (cases "f = BinarySI")
  case True
  note c = Cmp_whole [OF conjunct1 [OF assms [OF True]] conjunct2 [OF assms [OF True]], of n "2 ^ 63 - 1"]
  note l = dec_value_le [OF conjunct1 [OF assms [OF True]], of n "2 ^ 63 - 1"]
  show thesis
  proof (cases "n \<le> (2 ^ 63 - 1) * 10 ^ nat s")
    case le: True
    show thesis
      by (rule that [of "(n, s)"])
         (use True le c l assms in \<open>simp_all add: cap_binary_def maxAllowed_def capped_def sgn_if\<close>)
  next
    case False
    show thesis
      by (rule that [of maxAllowed])
         (use True False c l in \<open>simp_all add: cap_binary_def maxAllowed_def capped_def dec_value_def sgn_if\<close>)
  qed
next
  case False
  show thesis by (rule that [of "(n, s)"]) (use False in \<open>simp_all add: cap_binary_def capped_def\<close>)
qed

lemma binary_format_returns:
  assumes "f = BinarySI \<Longrightarrow> 0 \<le> snd a \<and> snd a < 2 ^ 31"
  obtains f' where "binary_format f a = Returns f'"
proof -
  obtain n s where a: "a = (n, s)" by (cases a)
  show thesis
  proof (cases "f = BinarySI")
    case True
    then have "0 \<le> s" "s < 2 ^ 31" using assms a by simp_all
    then have "Cmp a (1, 0) = Returns (sgn (n - 10 ^ nat s))" "Cmp a (0, 0) = Returns (sgn n)"
      using a Cmp_whole [of s n 1] Cmp_whole [of s n 0] by simp_all
    then have "binary_format f a = Returns (if n < 10 ^ nat s \<and> 0 < n then DecimalSI else f)"
      using True by (simp add: binary_format_def)
    then show thesis by (rule that)
  qed (use that in \<open>simp add: binary_format_def\<close>)
qed

text \<open>What a text stands for: its decimal value, in nano units rounded up, capped in the binary format.\<close>

definition nano_up :: "rat \<Rightarrow> rat" where
  "nano_up x = of_int \<lceil>x * 10 ^ 9\<rceil> / 10 ^ 9"

definition text_value :: "string \<Rightarrow> string option \<Rightarrow> int \<Rightarrow> int \<Rightarrow> rat" where
  "text_value ds fr b e = of_int (digits_value (ds @ frac_digits fr)) / 10 ^ length (frac_digits fr) * of_int b powi e"

definition sign_of :: "string \<Rightarrow> int" where
  "sign_of sg = (if sg = ''-'' then -1 else 1)"

definition quantity_value :: "Quantity \<Rightarrow> rat" where
  "quantity_value q = (case qt_d q of
     None \<Rightarrow> of_int (qt_i_value q) * 10 powi (qt_i_scale q)
   | Some d \<Rightarrow> dec_value d)"

lemma dec_value_neg [simp]: "dec_value (dec_neg d) = - dec_value d"
  by (simp add: dec_value_def dec_neg_def)

lemma dec_value_zero [simp]: "dec_value (0, s) = 0"
  by (simp add: dec_value_def)

lemma capped_zero [simp]: "capped f (nano_up 0) = 0"
  by (simp add: capped_def nano_up_def)

definition scale_of :: "QuantityFormat \<Rightarrow> int \<Rightarrow> int \<Rightarrow> int" where
  "scale_of f e n = n - (if f = BinarySI then 0 else e)"

lemma base_cases:
  assumes "interpret_suffix suf = Some (b, e, f)"
  shows "b = (if f = BinarySI then 2 else 10)" and "f = BinarySI \<Longrightarrow> 0 \<le> e \<and> e \<le> 60"
  using assms by (cases rule: suffix_cases; auto simp: binSuffixes_def)+

lemma scaled_value:
  assumes "interpret_suffix suf = Some (b, e, f)"
  shows "dec_value (digits_value (ds @ frac_digits fr) * binary_factor f e, scale_of f e (int (length (frac_digits fr)))) =
    text_value ds fr b e"
proof (cases "f = BinarySI")
  case True
  then have "b = 2" "0 \<le> e" using base_cases [OF assms] by simp_all
  with True show ?thesis
    by (simp add: dec_value_def text_value_def scale_of_def binary_factor_def power_int_minus power_int_def [of 2] field_simps)
next
  case False
  then have "b = 10" using base_cases [OF assms] by simp
  with False show ?thesis
    by (simp add: dec_value_def text_value_def scale_of_def binary_factor_def power_int_diff field_simps)
qed

lemma rounded:
  assumes "0 \<le> n" and "- (2 ^ 31 - 10) < s \<and> s < 2 ^ 31" and "f = BinarySI \<Longrightarrow> 0 \<le> s"
  obtains a where "(if unscaled_nonzero (n, s) then Round (n, s) (- Nano) else Returns (n, s)) = Returns a"
    and "dec_value a = nano_up (dec_value (n, s))" and "f = BinarySI \<Longrightarrow> 0 \<le> snd a \<and> snd a < 2 ^ 31"
proof (cases "n = 0")
  case True
  with assms show thesis by (intro that [of "(n, s)"]) (auto simp: unscaled_nonzero_iff nano_up_def)
next
  case False
  show thesis
    by (rule that [of "(\<lceil>dec_value (n, s) * 10 ^ 9\<rceil>, 9)"])
       (use False Round_up [OF assms(1,2)] in
         \<open>simp_all add: unscaled_nonzero_iff nano_up_def Nano_def dec_value_def [of "(_, 9)"] power_int_minus field_simps\<close>)
qed

lemma finish_slow_value:
  assumes "0 \<le> n" and "- (2 ^ 31 - 10) < s \<and> s < 2 ^ 31" and "f = BinarySI \<Longrightarrow> 0 \<le> s" and "\<sigma> = 1 \<or> \<sigma> = -1"
  obtains d f' where "finish_slow f (\<sigma> * n, s) = Returns (Inr (dec_quantity d f'))"
    and "dec_value d = of_int \<sigma> * capped f (nano_up (dec_value (n, s)))"
proof -
  have neg: "sgn (\<sigma> * n) = -1 \<longleftrightarrow> \<sigma> = -1 \<and> n \<noteq> 0" using assms(1,4) by (auto simp: sgn_if)
  have abs: "(if sgn (\<sigma> * n) = -1 then dec_neg (\<sigma> * n, s) else (\<sigma> * n, s)) = (n, s)"
    using neg assms(4) by (auto simp: dec_neg_def)
  from rounded [of n s f] assms(1-3) obtain a where
    a: "(if unscaled_nonzero (n, s) then Round (n, s) (- Nano) else Returns (n, s)) = Returns a"
      "dec_value a = nano_up (dec_value (n, s))" "f = BinarySI \<Longrightarrow> 0 \<le> snd a \<and> snd a < 2 ^ 31" by metis
  from cap_binary_value [of f "snd a" "fst a"] a(3) obtain c where
    c: "cap_binary f a = Returns c" "dec_value c = capped f (dec_value a)"
      "f = BinarySI \<Longrightarrow> 0 \<le> snd c \<and> snd c < 2 ^ 31" by (metis prod.collapse)
  from binary_format_returns [of f c] c(3) obtain f' where f: "binary_format f c = Returns f'" by metis
  show thesis
  proof (rule that [of "if sgn (\<sigma> * n) = -1 then dec_neg c else c" f'])
    show "finish_slow f (\<sigma> * n, s) =
        Returns (Inr (dec_quantity (if sgn (\<sigma> * n) = -1 then dec_neg c else c) f'))"
      using abs a(1) c(1) f by (simp add: finish_slow_def)
    show "dec_value (if sgn (\<sigma> * n) = -1 then dec_neg c else c) = of_int \<sigma> * capped f (nano_up (dec_value (n, s)))"
      using neg a(2) c(2) assms(4) by auto
  qed
qed

lemma parse_slow_finish:
  assumes "Dec_SetString v = Some (n, s)" and "interpret_suffix suf = Some (b, e, f)"
    and "0 \<le> s" "s < 2 ^ 30" and "\<bar>e\<bar> < 2 ^ 30"
  shows "parse_slow v b e f = finish_slow f (n * binary_factor f e, scale_of f e s)"
proof -
  have "wrap32 (- e) = - e" "wrap32 (s + - e) = s - e" using assms(3-5) by (auto intro!: wrap32_id)
  then show ?thesis
    using assms(1) base_cases [OF assms(2)]
    by (simp add: parse_slow_def binary_factor_def scale_of_def)
qed

subsection \<open>What the parser accepts, and what it reads\<close>

lemma zero_text:
  assumes "number_text sg ds fr @ suf = ''0''" and "interpret_suffix suf = Some (b, e, f)"
    and "is_sign sg" and "list_all is_digit ds"
  shows "sg = '''' \<and> ds = ''0'' \<and> fr = None \<and> suf = '''' \<and> f = DecimalSI \<and> e = 0"
proof -
  have "suf = '''' \<or> \<not> is_digit (hd suf)" using suffix_passes(2) [OF assms(2)] by blast
  with assms(1,3) have "suf = ''''" "fr = None" "sg = ''''" "ds = ''0''"
    by (auto simp: number_text_def is_sign_def append_eq_Cons_conv split: option.splits)
  with assms(2) show ?thesis by (simp add: interpret_suffix_def fastSuffixes_def)
qed

lemma well_split_suffix:
  assumes "is_sign sg" and "list_all is_digit ds" and "list_all is_digit (frac_digits fr)"
    and "interpret_suffix suf = Some (b, e, f)"
  shows "well_split sg ds fr suf"
  using assms suffix_passes [OF assms(4)] by (auto simp: well_split_def)

lemma text_lengths:
  assumes "number_text sg ds fr @ suf \<noteq> []" and "int (length (number_text sg ds fr @ suf)) < 2 ^ 30"
    and "list_all is_digit ds"
  shows "int (length (num_of ds) + length (frac_digits fr)) < 2 ^ 31 - 20" and "int (length (frac_digits fr)) < 2 ^ 30"
  using assms(1,2) num_of_props(3) [OF assms(3)]
  by (cases fr; auto simp: number_text_def frac_digits_def split: if_splits)+

definition scan_of :: "string \<Rightarrow> string \<Rightarrow> string option \<Rightarrow> string \<Rightarrow> scanned" where
  "scan_of sg ds fr suf = \<lparr>sc_positive = (sg \<noteq> ''-''),
     sc_value = (if fr = None \<and> suf = [] \<and> dropWhile (\<lambda>c. c = CHR ''0'') ds = [] then ''0'' else number_text sg ds fr),
     sc_num = num_of ds, sc_denom = frac_digits fr, sc_suffix = suf\<rparr>"

lemma ParseQuantity_run:
  assumes "is_sign sg" and "list_all is_digit ds" and "list_all is_digit (frac_digits fr)"
    and "interpret_suffix suf = Some (b, e, f)"
    and "number_text sg ds fr @ suf \<noteq> []" and "number_text sg ds fr @ suf \<noteq> ''0''"
  shows "ParseQuantity (number_text sg ds fr @ suf) =
    (case parse_fast (number_text sg ds fr @ suf) (scan_of sg ds fr suf) e f of
       Some r \<Rightarrow> Returns r
     | None \<Rightarrow> parse_slow (sc_value (scan_of sg ds fr suf)) b e f)"
proof -
  have "\<not> (suf \<noteq> [] \<and> scan_suffix suf = None)" using suffix_passes(1) [OF assms(4)] by auto
  then have "scan_quantity (number_text sg ds fr @ suf) = Inr (scan_of sg ds fr suf)"
    using scan_text [OF well_split_suffix [OF assms(1-4)]] unfolding scan_of_def by (simp only: if_False)
  moreover have "sc_suffix (scan_of sg ds fr suf) = suf" by (simp add: scan_of_def)
  ultimately show ?thesis
    using assms(4-6) unfolding ParseQuantity_eq length_0_conv
    by (simp only: if_False sum.case option.case prod.case)
qed

lemma plain_zero_fast: "takes_fast DecimalSI 0 ''0'' ''''"
  by (simp add: takes_fast_def fast_precision_def maxInt64Factors_def wrap32_id Nano_def)

lemma slow_scan:
  assumes "\<not> takes_fast f e (num_of ds) (frac_digits fr)" and "interpret_suffix suf = Some (b, e, f)"
    and "is_sign sg" and "list_all is_digit ds"
  shows "number_text sg ds fr @ suf \<noteq> ''0''" and "sc_value (scan_of sg ds fr suf) = number_text sg ds fr"
proof -
  show "number_text sg ds fr @ suf \<noteq> ''0''"
  proof
    assume "number_text sg ds fr @ suf = ''0''"
    from zero_text [OF this assms(2-4)] have "num_of ds = ''0''" "f = DecimalSI" "e = 0" "frac_digits fr = ''''"
      by (simp_all add: num_of_def frac_digits_def)
    with assms(1) plain_zero_fast show False by simp
  qed
  have "num_of ds = ''0'' \<and> f = DecimalSI \<and> e = 0 \<and> frac_digits fr = ''''"
    if "fr = None \<and> suf = [] \<and> dropWhile (\<lambda>c. c = CHR ''0'') ds = []"
    using that assms(2) by (simp add: num_of_def frac_digits_def interpret_suffix_def fastSuffixes_def)
  with assms(1) plain_zero_fast have "\<not> (fr = None \<and> suf = [] \<and> dropWhile (\<lambda>c. c = CHR ''0'') ds = [])" by metis
  then show "sc_value (scan_of sg ds fr suf) = number_text sg ds fr" by (simp only: scan_of_def if_False scanned.simps)
qed

lemma ParseQuantity_text:
  assumes "is_sign sg" and "list_all is_digit ds" and "list_all is_digit (frac_digits fr)"
    and "interpret_suffix suf = Some (b, e, f)"
    and "number_text sg ds fr @ suf \<noteq> []" and "int (length (number_text sg ds fr @ suf)) < 2 ^ 30"
  shows "takes_fast f e (num_of ds) (frac_digits fr) \<Longrightarrow>
      \<exists>s. ParseQuantity (number_text sg ds fr @ suf) = Returns (Inr (int_quantity
        (sign_of sg * (digits_value (ds @ frac_digits fr) * binary_factor f e))
        (wrap32 ((if f = BinarySI then 0 else e) - wrap32 (int (length (frac_digits fr))))) f s))"
    and "\<not> takes_fast f e (num_of ds) (frac_digits fr) \<Longrightarrow>
      ParseQuantity (number_text sg ds fr @ suf) = parse_slow (number_text sg ds fr) b e f"
proof -
  let ?t = "number_text sg ds fr @ suf"
  let ?sc = "scan_of sg ds fr suf"
  note run = ParseQuantity_run [OF assms(1-5)]
  have len: "int (length (sc_num ?sc) + length (sc_denom ?sc)) < 2 ^ 31 - 20"
    using text_lengths(1) [OF assms(5,6,2)] by (simp add: scan_of_def)
  have dig: "list_all is_digit (sc_num ?sc @ sc_denom ?sc)" "sc_num ?sc \<noteq> []"
    using num_of_props(1,2) [OF assms(2)] assms(3) by (simp_all add: scan_of_def)
  have sel: "sc_positive ?sc = (sg \<noteq> ''-'')" "sc_num ?sc = num_of ds" "sc_denom ?sc = frac_digits fr"
    by (simp_all add: scan_of_def)
  have sg: "(if sg \<noteq> ''-'' then 1 else -1) = sign_of sg" by (simp add: sign_of_def)
  note fast = parse_fast_eq [OF assms(4) len dig, of ?t, unfolded sel sg num_of_props(4) [OF assms(2)]]
  show "\<exists>s. ParseQuantity ?t = Returns (Inr (int_quantity
      (sign_of sg * (digits_value (ds @ frac_digits fr) * binary_factor f e))
      (wrap32 ((if f = BinarySI then 0 else e) - wrap32 (int (length (frac_digits fr))))) f s))"
    if "takes_fast f e (num_of ds) (frac_digits fr)"
  proof (cases "?t = ''0''")
    case True
    from zero_text [OF True assms(4,1,2)] have z: "sign_of sg * (digits_value (ds @ frac_digits fr) * binary_factor f e) = 0"
        "wrap32 ((if f = BinarySI then 0 else e) - wrap32 (int (length (frac_digits fr)))) = 0" "f = DecimalSI"
      by (simp_all add: frac_digits_def digits_value_def wrap32_id)
    have "ParseQuantity ?t = Returns (Inr (int_quantity 0 0 DecimalSI ''0''))" using True by (simp add: ParseQuantity_eq)
    then show ?thesis unfolding z(1,2) unfolding z(3) by blast
  next
    case False
    from fast that obtain s where "parse_fast ?t ?sc e f = Some (Inr (int_quantity
        (sign_of sg * (digits_value (ds @ frac_digits fr) * binary_factor f e))
        (wrap32 ((if f = BinarySI then 0 else e) - wrap32 (int (length (frac_digits fr))))) f s))"
      by blast
    with run [OF False] show ?thesis by auto
  qed
  show "ParseQuantity ?t = parse_slow (number_text sg ds fr) b e f"
    if "\<not> takes_fast f e (num_of ds) (frac_digits fr)"
    using run [OF slow_scan(1) [OF that assms(4,1,2)]] slow_scan(2) [OF that assms(4,1,2)] fast that
    by (simp add: scan_of_def)
qed
text \<open>The fast path reads the exact value.\<close>

lemma fast_value:
  assumes "interpret_suffix suf = Some (b, e, f)" and "takes_fast f e (num_of ds) (frac_digits fr)"
    and "list_all is_digit ds" and "list_all is_digit (frac_digits fr)" and "\<bar>e\<bar> < 2 ^ 30"
    and "int (length (num_of ds) + length (frac_digits fr)) < 2 ^ 31 - 20" and "int (length (frac_digits fr)) < 2 ^ 30"
  shows "quantity_value (int_quantity (sign_of sg * (digits_value (ds @ frac_digits fr) * binary_factor f e))
      (wrap32 ((if f = BinarySI then 0 else e) - wrap32 (int (length (frac_digits fr))))) f s) =
    of_int (sign_of sg) * capped f (nano_up (text_value ds fr b e))"
proof -
  let ?n = "digits_value (ds @ frac_digits fr) * binary_factor f e"
  let ?s = "scale_of f e (int (length (frac_digits fr)))"
  have w: "wrap32 ((if f = BinarySI then 0 else e) - wrap32 (int (length (frac_digits fr)))) = - ?s"
    using assms(5,7) by (auto simp: wrap32_id scale_of_def)
  have "?s \<le> 9" using assms(2) w by (simp add: takes_fast_def Nano_def)
  have v: "text_value ds fr b e = dec_value (?n, ?s)" using scaled_value [OF assms(1)] by simp
  have "dec_value (?n, ?s) * 10 ^ 9 = of_int (?n * 10 ^ nat (9 - ?s))"
  proof -
    have "10 powi (9 - ?s) = (10 ^ nat (9 - ?s) :: rat)" using \<open>?s \<le> 9\<close> by (simp add: power_int_def)
    then show ?thesis by (simp add: dec_value_def power_int_diff power_int_minus field_simps)
  qed
  then have "nano_up (dec_value (?n, ?s)) = of_int (?n * 10 ^ nat (9 - ?s)) / 10 ^ 9"
    by (simp only: nano_up_def ceiling_of_int)
  also have "\<dots> = dec_value (?n, ?s)" using \<open>dec_value (?n, ?s) * 10 ^ 9 = _\<close> by (simp add: field_simps)
  finally have up: "nano_up (dec_value (?n, ?s)) = dec_value (?n, ?s)" .
  have p: "fast_precision f e (num_of ds) (frac_digits fr) \<ge> 0" using assms(2) by (simp add: takes_fast_def)
  have cap: "capped f (dec_value (?n, ?s)) = dec_value (?n, ?s)"
  proof (cases "f = BinarySI")
    case True
    have "frac_digits fr = []" using fast_lengths(2) [OF assms(1,6) p True] by blast
    then have "dec_value (?n, ?s) = of_int ?n" using True by (simp add: dec_value_def scale_of_def)
    moreover have "?n \<le> 2 ^ 63 - 1"
      using fast_product(2) [OF assms(1,6) p] num_of_props(1,4) [OF assms(3)] assms(4) by simp
    then have "(of_int ?n :: rat) \<le> of_int (2 ^ 63 - 1)" by (simp only: of_int_le_iff)
    ultimately show ?thesis using True by (simp add: capped_def)
  qed (simp add: capped_def)
  show ?thesis
    unfolding w v up cap by (simp add: quantity_value_def int_quantity_def dec_value_def mult.assoc)
qed

lemma ParseQuantity_reads:
  assumes "is_sign sg" and "list_all is_digit ds" and "list_all is_digit (frac_digits fr)"
    and "ds @ frac_digits fr \<noteq> []" and "interpret_suffix suf = Some (b, e, f)"
    and "int (length (number_text sg ds fr @ suf)) < 2 ^ 30" and "\<bar>e\<bar> < 2 ^ 30"
  shows "\<exists>q. ParseQuantity (number_text sg ds fr @ suf) = Returns (Inr q) \<and>
    quantity_value q = of_int (sign_of sg) * capped f (nano_up (text_value ds fr b e))"
proof -
  have ne: "number_text sg ds fr @ suf \<noteq> []"
    using assms(4) by (cases fr) (auto simp: number_text_def frac_digits_def)
  note len = text_lengths [OF ne assms(6,2)]
  note parse = ParseQuantity_text [OF assms(1-3,5) ne assms(6)]
  show ?thesis
  proof (cases "takes_fast f e (num_of ds) (frac_digits fr)")
    case True
    with parse(1) fast_value [OF assms(5) True assms(2,3,7) len] show ?thesis by blast
  next
    case False
    let ?n = "digits_value (ds @ frac_digits fr)" and ?l = "int (length (frac_digits fr))"
    have n: "0 \<le> ?n * binary_factor f e"
      using digits_value_bounds [of "ds @ frac_digits fr"] assms(2,3) by (simp add: binary_factor_def)
    have "Dec_SetString (number_text sg ds fr) = Some (sign_of sg * ?n, ?l)"
      using Dec_SetString_text [OF assms(1-3)] assms(4) len(2) by (simp add: sign_of_def)
    from parse_slow_finish [OF this assms(5) _ len(2) assms(7)] parse(2) [OF False]
    have run: "ParseQuantity (number_text sg ds fr @ suf) =
        finish_slow f (sign_of sg * (?n * binary_factor f e), scale_of f e ?l)" by (simp add: mult.assoc)
    have s: "- (2 ^ 31 - 10) < scale_of f e ?l \<and> scale_of f e ?l < 2 ^ 31"
      using assms(7) len(2) by (auto simp: scale_of_def abs_less_iff)
    have b: "f = BinarySI \<Longrightarrow> 0 \<le> scale_of f e ?l" and sg: "sign_of sg = 1 \<or> sign_of sg = -1"
      by (simp_all add: scale_of_def sign_of_def)
    obtain d f' where d: "finish_slow f (sign_of sg * (?n * binary_factor f e), scale_of f e ?l) =
        Returns (Inr (dec_quantity d f'))"
        "dec_value d = of_int (sign_of sg) * capped f (nano_up (text_value ds fr b e))"
      by (rule finish_slow_value [OF n s b sg, unfolded scaled_value [OF assms(5)]])
    with run show ?thesis by (intro exI [of _ "dec_quantity d f'"]) (simp add: quantity_value_def dec_quantity_def)
  qed
qed

subsection \<open>The grammar\<close>

text \<open>
  The texts the parser accepts, said without the parser: a sign, digits with an optional fraction,
  and a suffix. A suffix is a unit of the decimal system from nano to exa, in steps of a thousand, a
  unit of the binary system, in steps of 1024, or an exponent of ten with a sign; \<open>suffix_meaning\<close>
  gives the base, the exponent as written, and the format. Without a digit the text passes when the
  suffix is one for which the fast path reads the number zero.
\<close>

definition decimal_units :: "string list" where
  "decimal_units = [''n'', ''u'', ''m'', '''', ''k'', ''M'', ''G'', ''T'', ''P'', ''E'']"

definition binary_units :: "string list" where
  "binary_units = [''Ki'', ''Mi'', ''Gi'', ''Ti'', ''Pi'', ''Ei'']"

definition exponent_text :: "string \<Rightarrow> int \<Rightarrow> bool" where
  "exponent_text suf x \<longleftrightarrow> (\<exists>c sg ds. suf = c # sg @ ds \<and> (c = CHR ''e'' \<or> c = CHR ''E'') \<and> is_sign sg \<and>
     ds \<noteq> [] \<and> list_all is_digit ds \<and> x = sign_of sg * digits_value ds \<and> - (2 ^ 63) \<le> x \<and> x < 2 ^ 63)"

definition suffix_meaning :: "string \<Rightarrow> int \<Rightarrow> int \<Rightarrow> QuantityFormat \<Rightarrow> bool" where
  "suffix_meaning suf b x f \<longleftrightarrow>
     f = DecimalSI \<and> b = 10 \<and> (\<exists>i < 10. suf = decimal_units ! i \<and> x = 3 * (int i - 3)) \<or>
     f = BinarySI \<and> b = 2 \<and> (\<exists>i < 6. suf = binary_units ! i \<and> x = 10 * (int i + 1)) \<or>
     f = DecimalExponent \<and> b = 10 \<and> exponent_text suf x"

definition quantity_syntax :: "string \<Rightarrow> bool" where
  "quantity_syntax t \<longleftrightarrow> t \<noteq> [] \<and> (\<exists>sg ds fr suf b x f. t = number_text sg ds fr @ suf \<and> is_sign sg \<and>
     list_all is_digit ds \<and> list_all is_digit (frac_digits fr) \<and> suffix_meaning suf b x f \<and>
     (ds @ frac_digits fr = [] \<longrightarrow> (if f = BinarySI then x \<le> 40 else -9 \<le> wrap32 x)))"

text \<open>The tables and the reading of exponents give a suffix its meaning, the exponent in 32 bits.\<close>

lemma decSuffixes_units: "(suf, x) \<in> set decSuffixes \<longleftrightarrow> (\<exists>i < 10. suf = decimal_units ! i \<and> x = 3 * (int i - 3))"
  by (simp add: decSuffixes_def decimal_units_def numeral_eq_Suc Ex_less_Suc2)

lemma binSuffixes_units: "(suf, x) \<in> set binSuffixes \<longleftrightarrow> (\<exists>i < 6. suf = binary_units ! i \<and> x = 10 * (int i + 1))"
  by (simp add: binSuffixes_def binary_units_def numeral_eq_Suc Ex_less_Suc2)

lemma ParseInt64_text:
  "ParseInt64 t = Some x \<longleftrightarrow> (\<exists>sg ds. t = sg @ ds \<and> is_sign sg \<and> ds \<noteq> [] \<and> list_all is_digit ds \<and>
     x = sign_of sg * digits_value ds \<and> - (2 ^ 63) \<le> x \<and> x < 2 ^ 63)"
proof
  assume h: "ParseInt64 t = Some x"
  define sg where "sg = (if t \<noteq> [] \<and> (hd t = CHR ''-'' \<or> hd t = CHR ''+'') then [hd t] else '''')"
  define ds where "ds = snd (split_sign t)"
  have "t = sg @ ds" "is_sign sg" "fst (split_sign t) = (sg = ''-'')"
    by (cases t; auto simp: split_sign_def is_sign_def sg_def ds_def)+
  moreover have "ds \<noteq> []" "list_all is_digit ds" "x = (if fst (split_sign t) then - digits_value ds else digits_value ds)"
      "- (2 ^ 63) \<le> x" "x < 2 ^ 63"
    using h by (auto simp: ParseInt64_def big_SetString_def ds_def split: prod.splits if_splits option.splits)
  ultimately show "\<exists>sg ds. t = sg @ ds \<and> is_sign sg \<and> ds \<noteq> [] \<and> list_all is_digit ds \<and>
      x = sign_of sg * digits_value ds \<and> - (2 ^ 63) \<le> x \<and> x < 2 ^ 63"
    by (intro exI [of _ sg] exI [of _ ds]) (simp add: sign_of_def)
next
  assume "\<exists>sg ds. t = sg @ ds \<and> is_sign sg \<and> ds \<noteq> [] \<and> list_all is_digit ds \<and>
      x = sign_of sg * digits_value ds \<and> - (2 ^ 63) \<le> x \<and> x < 2 ^ 63"
  then show "ParseInt64 t = Some x" by (auto simp: ParseInt64_def big_SetString_signed sign_of_def)
qed

lemma exponent_text_iff:
  "exponent_text suf x \<longleftrightarrow> (\<exists>c t. suf = c # t \<and> (c = CHR ''e'' \<or> c = CHR ''E'') \<and> ParseInt64 t = Some x)"
  unfolding exponent_text_def ParseInt64_text by blast

lemma interpret_suffix_iff:
  "interpret_suffix suf = Some (b, e, f) \<longleftrightarrow> (\<exists>x. suffix_meaning suf b x f \<and> e = wrap32 x)"
proof
  assume "interpret_suffix suf = Some (b, e, f)"
  then show "\<exists>x. suffix_meaning suf b x f \<and> e = wrap32 x"
  proof (cases rule: suffix_cases)
    case si
    moreover have "wrap32 e = e" using si(3) by (auto simp: decSuffixes_def wrap32_id)
    ultimately show ?thesis by (intro exI [of _ e]) (simp add: suffix_meaning_def decSuffixes_units)
  next
    case bin
    moreover have "wrap32 e = e" using bin(3) by (auto simp: binSuffixes_def wrap32_id)
    ultimately show ?thesis by (intro exI [of _ e]) (simp add: suffix_meaning_def binSuffixes_units)
  next
    case (exp c t n)
    then show ?thesis by (intro exI [of _ n]) (auto simp: suffix_meaning_def exponent_text_iff)
  qed
next
  assume "\<exists>x. suffix_meaning suf b x f \<and> e = wrap32 x"
  then obtain x where x: "e = wrap32 x" and m: "suffix_meaning suf b x f" by blast
  from m consider (si) "f = DecimalSI" "b = 10" "(suf, x) \<in> set decSuffixes"
    | (bin) "f = BinarySI" "b = 2" "(suf, x) \<in> set binSuffixes"
    | (exp) "f = DecimalExponent" "b = 10" "exponent_text suf x"
    unfolding suffix_meaning_def decSuffixes_units binSuffixes_units by blast
  then show "interpret_suffix suf = Some (b, e, f)"
  proof cases
    case si
    have d: "map_of decSuffixes suf = Some x"
      using si(3) by (intro map_of_is_SomeI) (simp_all add: decSuffixes_def)
    have w: "wrap32 x = x" using si(3) by (auto simp: decSuffixes_def wrap32_id)
    show ?thesis
    proof (cases "map_of fastSuffixes suf")
      case None
      then show ?thesis using d si w x by (simp add: interpret_suffix_def suffixHandler_interpret_def)
    next
      case (Some y)
      have "(suf, y) \<in> set decSuffixes" using map_of_SomeD [OF Some] by (auto simp: fastSuffixes_def decSuffixes_def)
      then have "map_of decSuffixes suf = Some y" by (intro map_of_is_SomeI) (simp_all add: decSuffixes_def)
      with d Some si w x show ?thesis by (simp add: interpret_suffix_def)
    qed
  next
    case bin
    have "map_of binSuffixes suf = Some x"
      using bin(3) by (intro map_of_is_SomeI) (simp_all add: binSuffixes_def)
    moreover have "wrap32 x = x" "map_of fastSuffixes suf = None" "map_of decSuffixes suf = None"
      using bin(3) by (auto simp: binSuffixes_def fastSuffixes_def decSuffixes_def wrap32_id)
    ultimately show ?thesis using bin x by (simp add: interpret_suffix_def suffixHandler_interpret_def)
  next
    case exp
    then obtain c t where t: "suf = c # t" "c = CHR ''e'' \<or> c = CHR ''E''" "ParseInt64 t = Some x"
      by (auto simp: exponent_text_iff)
    have "t \<noteq> []" "t \<noteq> ''i''" using t(3) ParseInt64_shape [of t] by (auto simp: is_digit_def)
    with exp t x show ?thesis
      by (auto simp: decSuffixes_def binSuffixes_def interpret_suffix_def fastSuffixes_def suffixHandler_interpret_def)
  qed
qed

lemma quantity_syntax_interpret:
  "quantity_syntax t \<longleftrightarrow> t \<noteq> [] \<and> (\<exists>sg ds fr suf b e f. t = number_text sg ds fr @ suf \<and> is_sign sg \<and>
     list_all is_digit ds \<and> list_all is_digit (frac_digits fr) \<and> interpret_suffix suf = Some (b, e, f) \<and>
     (ds @ frac_digits fr = [] \<longrightarrow> (if f = BinarySI then e \<le> 40 else -9 \<le> e)))" (is "_ \<longleftrightarrow> ?r")
proof
  have same: "(if f = BinarySI then x \<le> 40 else -9 \<le> wrap32 x) \<longleftrightarrow> (if f = BinarySI then wrap32 x \<le> 40 else -9 \<le> wrap32 x)"
    if "suffix_meaning suf b x f" for suf b x f
    using that by (auto simp: suffix_meaning_def wrap32_id)
  {
    assume "quantity_syntax t"
    then obtain sg ds fr suf b x f where t: "t \<noteq> []" "t = number_text sg ds fr @ suf" "is_sign sg"
        "list_all is_digit ds" "list_all is_digit (frac_digits fr)" and m: "suffix_meaning suf b x f"
      and z: "ds @ frac_digits fr = [] \<longrightarrow> (if f = BinarySI then x \<le> 40 else -9 \<le> wrap32 x)"
      unfolding quantity_syntax_def by blast
    have "interpret_suffix suf = Some (b, wrap32 x, f)" using m interpret_suffix_iff by blast
    with t z [unfolded same [OF m]] show ?r by blast
  next
    assume ?r
    then obtain sg ds fr suf b e f where t: "t \<noteq> []" "t = number_text sg ds fr @ suf" "is_sign sg"
        "list_all is_digit ds" "list_all is_digit (frac_digits fr)" and m: "interpret_suffix suf = Some (b, e, f)"
      and z: "ds @ frac_digits fr = [] \<longrightarrow> (if f = BinarySI then e \<le> 40 else -9 \<le> e)"
      by blast
    obtain x where x: "suffix_meaning suf b x f" "e = wrap32 x" using m interpret_suffix_iff by blast
    with t z same [OF x(1)] show "quantity_syntax t" unfolding quantity_syntax_def by blast
  }
qed

lemma digitless_fast:
  assumes "interpret_suffix suf = Some (b, e, f)"
  shows "takes_fast f e ''0'' '''' \<longleftrightarrow> (if f = BinarySI then e \<le> 40 else -9 \<le> e)"
proof (cases "f = BinarySI")
  case True
  then show ?thesis
    using binary_exponents [of suf b e] assms
    by (auto simp: takes_fast_def fast_precision_def Nano_def wrap32_id)
next
  case False
  have "wrap32 e = e"
    using assms by (cases rule: suffix_cases) (auto simp: decSuffixes_def binSuffixes_def wrap32_def)
  with False show ?thesis
    by (simp add: takes_fast_def fast_precision_def maxInt64Factors_def Nano_def wrap32_id)
qed

lemma and_then_not_error:
  assumes "\<And>x. k x \<noteq> Returns (Inl err)"
  shows "and_then r k \<noteq> Returns (Inl err)"
  using assms by (cases r) simp_all

lemma parse_slow_error:
  "parse_slow v b e f = Returns (Inl err) \<longleftrightarrow> Dec_SetString v = None \<and> err = ErrNumeric"
proof (cases "Dec_SetString v")
  case (Some a)
  have "parse_slow v b e f \<noteq> Returns (Inl err)"
    unfolding parse_slow_def finish_slow_def Some option.case Let_def by (intro and_then_not_error) simp
  with Some show ?thesis by simp
qed (auto simp: parse_slow_def)

lemma ParseQuantity_error_iff:
  assumes "well_split sg ds fr rest" and "number_text sg ds fr @ rest \<noteq> []"
    and "int (length (number_text sg ds fr @ rest)) < 2 ^ 30"
  shows "(\<exists>err. ParseQuantity (number_text sg ds fr @ rest) = Returns (Inl err)) \<longleftrightarrow>
    (\<forall>b e f. interpret_suffix rest = Some (b, e, f) \<longrightarrow>
      ds @ frac_digits fr = [] \<and> \<not> (if f = BinarySI then e \<le> 40 else -9 \<le> e))"
proof (cases "interpret_suffix rest")
  case None
  have "number_text sg ds fr @ rest \<noteq> ''0''"
  proof
    assume h: "number_text sg ds fr @ rest = ''0''"
    then have "rest \<noteq> ''''" using None by (auto simp: interpret_suffix_def fastSuffixes_def)
    with h assms(1) show False
      by (auto simp: number_text_def well_split_def append_eq_Cons_conv split: option.splits)
  qed
  then show ?thesis
    using None assms(2) scan_text [OF assms(1)]
    by (auto simp: ParseQuantity_eq split: if_splits)
next
  case (Some bef)
  obtain b e f where s: "interpret_suffix rest = Some (b, e, f)" using Some by (cases bef) auto
  have w: "is_sign sg" "list_all is_digit ds" "list_all is_digit (frac_digits fr)"
    using assms(1) by (simp_all add: well_split_def)
  note parse = ParseQuantity_text [OF w s assms(2,3)]
  note len = text_lengths(2) [OF assms(2,3) w(2)]
  have dec: "Dec_SetString (number_text sg ds fr) = None \<longleftrightarrow> ds @ frac_digits fr = []"
    using Dec_SetString_text [OF w] len by simp
  have z: "num_of ds = ''0'' \<and> frac_digits fr = ''''" if "ds @ frac_digits fr = []"
    using that by (simp add: num_of_def)
  show ?thesis
  proof (cases "takes_fast f e (num_of ds) (frac_digits fr)")
    case True
    with parse(1) z digitless_fast [OF s] s show ?thesis by fastforce
  next
    case False
    with parse(2) parse_slow_error dec z digitless_fast [OF s] s show ?thesis by auto
  qed
qed

lemma ParseQuantity_error_syntax:
  assumes "int (length t) < 2 ^ 30"
  shows "(\<exists>err. ParseQuantity t = Returns (Inl err)) \<longleftrightarrow> \<not> quantity_syntax t"
proof (cases "t = []")
  case True
  then show ?thesis by (simp add: ParseQuantity_eq quantity_syntax_def)
next
  case False
  obtain sg ds fr rest where t: "t = number_text sg ds fr @ rest" and w: "well_split sg ds fr rest"
    by (rule split_exists)
  show ?thesis
  proof
    assume "\<exists>err. ParseQuantity t = Returns (Inl err)"
    show "\<not> quantity_syntax t"
    proof
      assume "quantity_syntax t"
      then obtain sg ds fr suf b e f where t: "t = number_text sg ds fr @ suf" and w: "is_sign sg" "list_all is_digit ds"
          "list_all is_digit (frac_digits fr)" "interpret_suffix suf = Some (b, e, f)"
        and z: "ds @ frac_digits fr = [] \<longrightarrow> (if f = BinarySI then e \<le> 40 else -9 \<le> e)"
        unfolding quantity_syntax_interpret by blast
      from ParseQuantity_error_iff [OF well_split_suffix [OF w]] t z w(4) assms False
        \<open>\<exists>err. ParseQuantity t = Returns (Inl err)\<close> show False by auto
    qed
  next
    assume "\<not> quantity_syntax t"
    with t w False have "\<forall>b e f. interpret_suffix rest = Some (b, e, f) \<longrightarrow>
        ds @ frac_digits fr = [] \<and> \<not> (if f = BinarySI then e \<le> 40 else -9 \<le> e)"
      unfolding quantity_syntax_interpret well_split_def by blast
    with ParseQuantity_error_iff [OF w] t assms False show "\<exists>err. ParseQuantity t = Returns (Inl err)" by simp
  qed
qed

text \<open>
  The parser as the builder uses it returns on exactly the quantities, for texts of a bounded length
  no ending of which is an exponent of 2^30 or more.
\<close>

definition small_text :: "string \<Rightarrow> bool" where
  "small_text t \<longleftrightarrow> int (length t) < 2 ^ 30 \<and>
     list_all (\<lambda>n. case interpret_suffix (drop n t) of None \<Rightarrow> True | Some (b, e, f) \<Rightarrow> \<bar>e\<bar> < 2 ^ 30) [0..<Suc (length t)]"

lemma small_suffix:
  assumes "small_text (x @ suf)" and "interpret_suffix suf = Some (b, e, f)"
  shows "\<bar>e\<bar> < 2 ^ 30"
proof -
  have "length x \<in> set [0..<Suc (length (x @ suf))]" by auto
  with assms(1) have "case interpret_suffix (drop (length x) (x @ suf)) of None \<Rightarrow> True | Some (b, e, f) \<Rightarrow> \<bar>e\<bar> < 2 ^ 30"
    unfolding small_text_def list_all_iff by blast
  with assms(2) show ?thesis by simp
qed

lemma quantity_parse_iff:
  assumes "small_text t"
  shows "(\<exists>q. quantity_parse t = Inr q) \<longleftrightarrow> quantity_syntax t"
proof
  have len: "int (length t) < 2 ^ 30" using assms by (simp add: small_text_def)
  assume "\<exists>q. quantity_parse t = Inr q"
  then have "\<nexists>err. ParseQuantity t = Returns (Inl err)" by (auto simp: quantity_parse_def)
  with ParseQuantity_error_syntax [OF len] show "quantity_syntax t" by blast
next
  have len: "int (length t) < 2 ^ 30" using assms by (simp add: small_text_def)
  assume "quantity_syntax t"
  then obtain sg ds fr suf b e f where t: "t = number_text sg ds fr @ suf" and w: "is_sign sg" "list_all is_digit ds"
      "list_all is_digit (frac_digits fr)" "interpret_suffix suf = Some (b, e, f)"
    and z: "ds @ frac_digits fr = [] \<longrightarrow> (if f = BinarySI then e \<le> 40 else -9 \<le> e)" and ne: "t \<noteq> []"
    unfolding quantity_syntax_interpret by blast
  have "\<exists>q. ParseQuantity t = Returns (Inr q)"
  proof (cases "ds @ frac_digits fr = []")
    case True
    then have "takes_fast f e (num_of ds) (frac_digits fr)"
      using z digitless_fast [OF w(4)] by (simp add: num_of_def)
    from ParseQuantity_text(1) [OF w _ _ this] show ?thesis using w t ne len by blast
  next
    case False
    then show ?thesis using ParseQuantity_reads [OF w(1-3) False w(4)] small_suffix [of "number_text sg ds fr" suf] 
      t w(4) len assms by blast
  qed
  then show "\<exists>q. quantity_parse t = Inr q" by (auto simp: quantity_parse_def)
qed

text \<open>Evaluation of the parser on a literal text.\<close>

lemmas parse_eval = ParseQuantity_eq scan_quantity_def is_digit_def scan_suffix_def interpret_suffix_def
  fastSuffixes_def suffixHandler_interpret_def decSuffixes_def binSuffixes_def parse_fast_def fast_precision_def
  fast_mantissa_def maxInt64Factors_def Nano_def ParseInt64_def big_SetString_def split_sign_def digits_value_def
  int64Multiply_def canonical_text_def wrap32_def wrap64_def signed_take_bit_int_eq_self Let_def

text \<open>
  Exponents of any size. Behind the truncation to 32 bits the number of decimals is taken from the
  exponent, and nine added for the rounding to nano units, again in 32 bits.
\<close>

lemma finish_slow_exponent:
  assumes "0 \<le> n" and "\<sigma> = 1 \<or> \<sigma> = -1" and "sh = wrap32 (9 - s)"
  shows "if n \<noteq> 0 \<and> sh = - (2 ^ 31) then finish_slow DecimalExponent (\<sigma> * n, s) = Panic ''index out of range''
    else \<exists>d. finish_slow DecimalExponent (\<sigma> * n, s) = Returns (Inr (dec_quantity d DecimalExponent)) \<and>
      dec_value d = of_int \<sigma> * nano_up (of_int n * 10 powi (sh - 9))"
proof -
  have neg: "sgn (\<sigma> * n) = -1 \<longleftrightarrow> \<sigma> = -1 \<and> n \<noteq> 0" using assms(1,2) by (auto simp: sgn_if)
  have abs: "(if sgn (\<sigma> * n) = -1 then dec_neg (\<sigma> * n, s) else (\<sigma> * n, s)) = (n, s)"
    using neg assms(2) by (auto simp: dec_neg_def)
  have run: "finish_slow DecimalExponent (\<sigma> * n, s) =
      and_then (if n \<noteq> 0 then Round (n, s) 9 else Returns (n, s))
        (\<lambda>a. Returns (Inr (dec_quantity (if sgn (\<sigma> * n) = -1 then dec_neg a else a) DecimalExponent)))"
    using abs by (simp add: finish_slow_def Let_def unscaled_nonzero_iff Nano_def cap_binary_def binary_format_def)
  have nano: "dec_value (\<lceil>(of_int n :: rat) * 10 powi sh\<rceil>, 9) = nano_up (of_int n * 10 powi (sh - 9))"
    by (simp add: dec_value_def nano_up_def power_int_diff power_int_minus field_simps)
  show ?thesis
  proof (cases "n = 0")
    case True
    then show ?thesis using run by (auto simp: nano_up_def simp del: split_paired_Ex intro!: exI [of _ "(0, s)"])
  next
    case False
    then show ?thesis
      using run neg nano assms(2) Round_shift [OF assms(1,3)] by (auto simp del: split_paired_Ex)
  qed
qed

lemma exponent_fast:
  assumes "int (length num + length denom) < 2 ^ 31 - 20"
  shows "takes_fast DecimalExponent (wrap32 x) num denom \<longleftrightarrow>
    length num + length denom \<le> 18 \<and> -9 \<le> wrap32 (x - int (length denom))"
proof -
  have "wrap32 (18 - wrap32 (int (length num + length denom))) = 18 - int (length num + length denom)"
    using assms by (simp add: wrap32_id)
  then show ?thesis
    by (auto simp: takes_fast_def fast_precision_def maxInt64Factors_def Nano_def wrap32_diff)
qed

lemma ParseQuantity_exponent:
  assumes "is_sign sg" and "list_all is_digit ds" and "list_all is_digit (frac_digits fr)"
    and "ds @ frac_digits fr \<noteq> []" and "exponent_text suf x"
    and "int (length (number_text sg ds fr @ suf)) < 2 ^ 30"
  defines "n \<equiv> digits_value (ds @ frac_digits fr)" and "k \<equiv> wrap32 (x - int (length (frac_digits fr)))"
  defines "fast \<equiv> length (num_of ds) + length (frac_digits fr) \<le> 18 \<and> -9 \<le> k"
  shows "if \<not> fast \<and> n \<noteq> 0 \<and> wrap32 (k + 9) = - (2 ^ 31)
    then ParseQuantity (number_text sg ds fr @ suf) = Panic ''index out of range''
    else \<exists>q. ParseQuantity (number_text sg ds fr @ suf) = Returns (Inr q) \<and> quantity_value q =
      of_int (sign_of sg) * (if fast then of_int n * 10 powi k else nano_up (of_int n * 10 powi (wrap32 (k + 9) - 9)))"
proof -
  have ne: "number_text sg ds fr @ suf \<noteq> []"
    using assms(4) by (cases fr) (auto simp: number_text_def frac_digits_def)
  have suf: "interpret_suffix suf = Some (10, wrap32 x, DecimalExponent)"
    unfolding interpret_suffix_iff using assms(5) by (auto simp: suffix_meaning_def)
  note len = text_lengths [OF ne assms(6,2)]
  note parse = ParseQuantity_text [OF assms(1-3) suf ne assms(6)]
  have fast: "takes_fast DecimalExponent (wrap32 x) (num_of ds) (frac_digits fr) \<longleftrightarrow> fast"
    using exponent_fast [OF len(1)] by (simp add: fast_def k_def)
  show ?thesis
  proof (cases fast)
    case True
    with parse(1) fast obtain s where "ParseQuantity (number_text sg ds fr @ suf) =
        Returns (Inr (int_quantity (sign_of sg * n) k DecimalExponent s))"
      by (auto simp: n_def k_def binary_factor_def wrap32_diff)
    with True show ?thesis by (simp add: quantity_value_def int_quantity_def)
  next
    case False
    let ?s = "wrap32 (int (length (frac_digits fr)) + wrap32 (- wrap32 x))"
    have "Dec_SetString (number_text sg ds fr) = Some (sign_of sg * n, int (length (frac_digits fr)))"
      using Dec_SetString_text [OF assms(1-3)] assms(4) len(2) by (simp add: sign_of_def n_def)
    then have run: "ParseQuantity (number_text sg ds fr @ suf) = finish_slow DecimalExponent (sign_of sg * n, ?s)"
      using parse(2) fast False by (simp add: parse_slow_def)
    have sh: "wrap32 (k + 9) = wrap32 (9 - ?s)"
      using wrap32_diff(1) [of 0 x]
      by (simp add: k_def wrap32_add wrap32_diff algebra_simps)
    have n: "0 \<le> n" using digits_value_bounds [of "ds @ frac_digits fr"] assms(2,3) by (simp add: n_def)
    have sg: "sign_of sg = 1 \<or> sign_of sg = -1" by (simp add: sign_of_def)
    from finish_slow_exponent [OF n sg sh] run False show ?thesis
      by (auto simp: quantity_value_def dec_quantity_def)
  qed
qed

text \<open>
  C20: What the parser reads. A text shorter than 2^30 characters that is a sign, digits with an optional
  fraction (one digit at least), and a suffix with a meaning and an exponent below 2^30 in size, is
  parsed without an error or a panic, on the fast and on the slow path. The quantity is the decimal
  value of the text times the power of ten or two the suffix stands for, rounded away from zero to
  nano units, and in the binary format capped at 2^63 - 1; the sign is put back at the end. The comment
  on \<^verbatim>\<open>Quantity\<close> says more than that: a cap in every format, and three decimals.
\<close>

theorem ParseQuantity_reads_the_value:
  assumes "is_sign sg" and "list_all is_digit ds" and "list_all is_digit (frac_digits fr)"
    and "ds @ frac_digits fr \<noteq> []" and "suffix_meaning suf b e f"
    and "int (length (number_text sg ds fr @ suf)) < 2 ^ 30" and "\<bar>e\<bar> < 2 ^ 30"
  shows "\<exists>q. ParseQuantity (number_text sg ds fr @ suf) = Returns (Inr q) \<and>
    quantity_value q = of_int (sign_of sg) * capped f (nano_up (text_value ds fr b e))"
proof -
  have "wrap32 e = e" using assms(7) by (intro wrap32_id) (auto simp: abs_less_iff)
  then have "interpret_suffix suf = Some (b, e, f)" unfolding interpret_suffix_iff using assms(5) by metis
  from ParseQuantity_reads [OF assms(1-4) this assms(6,7)] show ?thesis .
qed

theorem ParseQuantity_reads_the_value_witness:
  "(\<exists>q. ParseQuantity ''1.5Gi'' = Returns (Inr q) \<and> quantity_value q = 1610612736) \<and>
   (\<exists>q. ParseQuantity ''0.1m'' = Returns (Inr q) \<and> quantity_value q = 1 / 10000)"
proof (rule conjI)
  have whole: "nano_up x = x" if "x * 10 ^ 9 = of_int i" for x i
    using that by (simp add: nano_up_def field_simps)
  have t: "number_text '''' ''1'' (Some ''5'') @ ''Gi'' = ''1.5Gi''" "number_text '''' ''0'' (Some ''1'') @ ''m'' = ''0.1m''"
    by (simp_all add: number_text_def)
  have "suffix_meaning ''Gi'' 2 30 BinarySI"
    by (simp add: suffix_meaning_def binary_units_def exI [of _ 2])
  then have "\<exists>q. ParseQuantity (number_text '''' ''1'' (Some ''5'') @ ''Gi'') = Returns (Inr q) \<and>
      quantity_value q = of_int (sign_of '''') * capped BinarySI (nano_up (text_value ''1'' (Some ''5'') 2 30))"
    by (intro ParseQuantity_reads_the_value)
       (simp_all add: is_sign_def is_digit_def frac_digits_def number_text_def)
  moreover have "text_value ''1'' (Some ''5'') 2 30 = 1610612736"
    by (simp add: text_value_def frac_digits_def digits_value_def)
  moreover have "nano_up 1610612736 = 1610612736" by (rule whole [of _ "1610612736 * 10 ^ 9"]) simp
  ultimately show "\<exists>q. ParseQuantity ''1.5Gi'' = Returns (Inr q) \<and> quantity_value q = 1610612736"
    unfolding t by (simp add: sign_of_def capped_def)
  have "suffix_meaning ''m'' 10 (-3) DecimalSI"
    by (simp add: suffix_meaning_def decimal_units_def exI [of _ 2])
  then have "\<exists>q. ParseQuantity (number_text '''' ''0'' (Some ''1'') @ ''m'') = Returns (Inr q) \<and>
      quantity_value q = of_int (sign_of '''') * capped DecimalSI (nano_up (text_value ''0'' (Some ''1'') 10 (-3)))"
    by (intro ParseQuantity_reads_the_value)
       (simp_all add: is_sign_def is_digit_def frac_digits_def number_text_def)
  moreover have "text_value ''0'' (Some ''1'') 10 (-3) = 1 / 10000"
    by (simp add: text_value_def frac_digits_def digits_value_def power_int_def power_divide)
  moreover have "nano_up (1 / 10000) = 1 / 10000" by (rule whole [of _ "10 ^ 5"]) simp
  ultimately show "\<exists>q. ParseQuantity ''0.1m'' = Returns (Inr q) \<and> quantity_value q = 1 / 10000"
    unfolding t by (simp add: sign_of_def capped_def)
qed

text \<open>
  C21: What the parser rejects. A text shorter than 2^30 characters is answered with an error exactly
  when it is not in the grammar \<open>quantity_syntax\<close>: when it is empty, or cannot be split into a sign,
  digits with an optional fraction and a suffix (a unit from nano to exa, a binary unit from Ki to
  Ei, or e or E with a whole 64-bit exponent), or has no digit at all and a suffix that the fast path
  does not take. The grammar in the comment on \<^verbatim>\<open>Quantity\<close> lacks the units n and u, allows fractions in
  exponents of any size, and asks for a digit.
\<close>

theorem ParseQuantity_rejects_iff:
  assumes "int (length t) < 2 ^ 30"
  shows "(\<exists>err. ParseQuantity t = Returns (Inl err)) \<longleftrightarrow> \<not> quantity_syntax t"
  using assms by (rule ParseQuantity_error_syntax)

lemma ParseQuantity_rejects_iff_witness: "\<not> quantity_syntax ''12k5'' \<and> quantity_syntax ''100m''"
proof -
  have "ParseQuantity ''12k5'' = Returns (Inl ErrSuffix)" by (simp add: parse_eval)
  moreover have "ParseQuantity ''100m'' = Returns (Inr (int_quantity 100 (-3) DecimalSI ''100m''))" by (simp add: parse_eval)
  ultimately show ?thesis using ParseQuantity_rejects_iff [of "''12k5''"] ParseQuantity_rejects_iff [of "''100m''"] by auto
qed

text \<open>
  C22: Exponents of any size. A number \<open>n\<close> with \<open>l\<close> decimals and an exponent \<open>x\<close> (64 bits) is
  read with the power \<open>k\<close>, which is \<open>x - l\<close> in 32 bits: exponents are not checked, and 1e4294967297
  is ten. At most 18 digits (leading zeros of the whole part aside) and a power from -9 on are read as they are. Otherwise nine is added to the
  power, again in 32 bits, and the number rounded up to nano units; when that sum is the least 32-bit
  number, as for a number of 19 digits with exponent 2^31 - 9, the parser panics, because the table
  of powers of ten is indexed with a negative number.
\<close>

theorem ParseQuantity_exponents_wrap:
  assumes "is_sign sg" and "list_all is_digit ds" and "list_all is_digit (frac_digits fr)"
    and "ds @ frac_digits fr \<noteq> []" and "exponent_text suf x"
    and "int (length (number_text sg ds fr @ suf)) < 2 ^ 30"
  shows "let n = digits_value (ds @ frac_digits fr); k = wrap32 (x - int (length (frac_digits fr)));
      fast = (length (num_of ds) + length (frac_digits fr) \<le> 18 \<and> -9 \<le> k) in
    if \<not> fast \<and> n \<noteq> 0 \<and> wrap32 (k + 9) = - (2 ^ 31)
    then ParseQuantity (number_text sg ds fr @ suf) = Panic ''index out of range''
    else \<exists>q. ParseQuantity (number_text sg ds fr @ suf) = Returns (Inr q) \<and> quantity_value q =
      of_int (sign_of sg) * (if fast then of_int n * 10 powi k else nano_up (of_int n * 10 powi (wrap32 (k + 9) - 9)))"
  unfolding Let_def by (rule ParseQuantity_exponent [OF assms])

theorem ParseQuantity_exponents_wrap_witness:
  "(\<exists>q. ParseQuantity ''1e4294967297'' = Returns (Inr q) \<and> quantity_value q = 10) \<and>
   ParseQuantity ''1000000000000000000e2147483639'' = Panic ''index out of range''"
proof (rule conjI)
  have "exponent_text ''e4294967297'' 4294967297"
    unfolding exponent_text_def
    by (rule exI [of _ "CHR ''e''"], rule exI [of _ "''''"], rule exI [of _ "''4294967297''"])
       (simp add: is_sign_def is_digit_def sign_of_def digits_value_def)
  from ParseQuantity_exponents_wrap [of "''''" "''1''" None, OF _ _ _ _ this]
  show "\<exists>q. ParseQuantity ''1e4294967297'' = Returns (Inr q) \<and> quantity_value q = 10"
    by (simp add: number_text_def frac_digits_def is_sign_def is_digit_def digits_value_def num_of_def wrap32_def sign_of_def)
  have "exponent_text ''e2147483639'' 2147483639"
    unfolding exponent_text_def
    by (rule exI [of _ "CHR ''e''"], rule exI [of _ "''''"], rule exI [of _ "''2147483639''"])
       (simp add: is_sign_def is_digit_def sign_of_def digits_value_def)
  from ParseQuantity_exponents_wrap [of "''''" "''1000000000000000000''" None, OF _ _ _ _ this]
  show "ParseQuantity ''1000000000000000000e2147483639'' = Panic ''index out of range''"
    by (simp add: number_text_def frac_digits_def is_sign_def is_digit_def digits_value_def num_of_def wrap32_def)
qed

end
