(* ===== verification/Rbg_Builder.thy ===== *)
theory Rbg_Builder
  imports Config_Merger Quantities
begin

section \<open>Translation to a RoleBasedGroup (\<^verbatim>\<open>internal/translator/rbg_builder.go\<close>)\<close>

text \<open>
  \<^verbatim>\<open>RBGBuilder.Build\<close> and its helpers, in the order of the source from the leaves up.
  \<^verbatim>\<open>resource.MustParse\<close> panics on a text that is not a quantity, so every helper that
  parses returns an \<open>outcome\<close>. The parser is the argument \<open>pq\<close>: the parser of \<open>Quantities\<close>
  in the program, and any other in the lemmas that do not depend on it.
\<close>

definition MustParse :: "quantity_parser \<Rightarrow> string \<Rightarrow> Quantity outcome" where
  "MustParse pq str = (case pq str of
     Inl err \<Rightarrow> Panic (''cannot parse '' @ [char_of (39::nat)] @ str @ [char_of (39::nat)] @ '': '' @ err)
   | Inr q \<Rightarrow> Returns q)"

subsection \<open>Volumes and mounts\<close>

definition HostPathDirectory :: string where
  "HostPathDirectory = ''Directory''"

definition no_source :: VolumeSource where
  "no_source = \<lparr>src_HostPath = None, src_EmptyDir = None, src_PersistentVolumeClaim = None\<rparr>"

definition buildEmptyDir :: "quantity_parser \<Rightarrow> EmptyDirVolume \<Rightarrow> EmptyDirVolumeSource outcome" where
  "buildEmptyDir pq e =
     (let d = \<lparr>ed_Medium = '''', ed_SizeLimit = None\<rparr>;
          d = (if edv_Medium e \<noteq> '''' then d\<lparr>ed_Medium := edv_Medium e\<rparr> else d)
      in if edv_SizeLimit e \<noteq> ''''
         then and_then (MustParse pq (edv_SizeLimit e)) (\<lambda>q. Returns (d\<lparr>ed_SizeLimit := Some q\<rparr>))
         else Returns d)"

definition buildVolume :: "quantity_parser \<Rightarrow> VolumeSpec \<Rightarrow> Volume outcome" where
  "buildVolume pq v =
     (case (vs_HostPath v, vs_EmptyDir v, vs_PVC v) of
        (Some hp, _, _) \<Rightarrow>
          Returns \<lparr>vol_Name = vs_Name v, vol_VolumeSource = no_source\<lparr>src_HostPath := Some
            \<lparr>hp_Path = hpv_Path hp,
             hp_Type = Some (if hpv_Type hp \<noteq> '''' then hpv_Type hp else HostPathDirectory)\<rparr>\<rparr>\<rparr>
      | (None, Some e, _) \<Rightarrow>
          and_then (buildEmptyDir pq e) (\<lambda>d.
            Returns \<lparr>vol_Name = vs_Name v, vol_VolumeSource = no_source\<lparr>src_EmptyDir := Some d\<rparr>\<rparr>)
      | (None, None, Some c) \<Rightarrow>
          Returns \<lparr>vol_Name = vs_Name v, vol_VolumeSource = no_source\<lparr>src_PersistentVolumeClaim := Some
            \<lparr>pvcs_ClaimName = pvc_ClaimName c, pvcs_ReadOnly = False\<rparr>\<rparr>\<rparr>
      | (None, None, None) \<Rightarrow> Returns \<lparr>vol_Name = vs_Name v, vol_VolumeSource = no_source\<rparr>)"

definition buildVolumes :: "quantity_parser \<Rightarrow> VolumeSpec list \<Rightarrow> Volume list outcome" where
  "buildVolumes pq specVolumes = map_outcome (buildVolume pq) specVolumes"

definition buildVolumeMounts :: "VolumeMountSpec list \<Rightarrow> VolumeMount list" where
  "buildVolumeMounts mounts =
     map (\<lambda>m. \<lparr>mnt_Name = vms_Name m, mnt_ReadOnly = vms_ReadOnly m, mnt_MountPath = vms_MountPath m\<rparr>)
       mounts"

subsection \<open>Resources and probes\<close>

definition gpuResource :: string where
  "gpuResource = ''nvidia.com/gpu''"

text \<open>The \<^verbatim>\<open>range\<close> loop over a resource map, from the entry visited first.\<close>

fun parseInto :: "quantity_parser \<Rightarrow> (string, string) gomap \<Rightarrow> ResourceList \<Rightarrow> ResourceList outcome" where
  "parseInto pq [] acc = Returns acc"
| "parseInto pq ((k, v) # m) acc =
     and_then (MustParse pq v) (\<lambda>q. parseInto pq m (gomap_set k q acc))"

text \<open>The parsed requests and limits, and the GPU count added to both.\<close>

definition parseResources :: "quantity_parser \<Rightarrow> RoleResources option \<Rightarrow> (ResourceList \<times> ResourceList) outcome" where
  "parseResources pq res = (case res of
     None \<Rightarrow> Returns ([], [])
   | Some r \<Rightarrow> and_then (parseInto pq (rres_Requests r) []) (\<lambda>req.
               and_then (parseInto pq (rres_Limits r) []) (\<lambda>lims. Returns (req, lims))))"

definition addGPU :: "quantity_parser \<Rightarrow> string \<Rightarrow> ResourceList \<times> ResourceList \<Rightarrow> (ResourceList \<times> ResourceList) outcome" where
  "addGPU pq gpu rl =
     (if gpu \<noteq> ''''
      then and_then (MustParse pq gpu) (\<lambda>gpuQty.
             Returns (gomap_set gpuResource gpuQty (fst rl), gomap_set gpuResource gpuQty (snd rl)))
      else Returns rl)"

definition buildResources :: "quantity_parser \<Rightarrow> RoleResources option \<Rightarrow> string \<Rightarrow> ResourceRequirements outcome" where
  "buildResources pq res gpu =
     and_then (parseResources pq res) (\<lambda>rl.
     and_then (addGPU pq gpu rl) (\<lambda>(req, lims). Returns
       \<lparr>rr_Limits = (if length lims > 0 then Some lims else None),
        rr_Requests = (if length req > 0 then Some req else None)\<rparr>))"

definition portIntOrString :: "int32 \<Rightarrow> IntOrString" where
  "portIntOrString port = IntVal port"

definition buildProbe :: "ProbeSpec option \<Rightarrow> Probe option" where
  "buildProbe spec = (case spec of
     None \<Rightarrow> None
   | Some p \<Rightarrow>
       (let path = (if prs_HTTPPath p = '''' then ''/health'' else prs_HTTPPath p);
            port = (if prs_Port p = 0 then 8000 else prs_Port p)
        in Some \<lparr>pr_HTTPGet = Some \<lparr>hg_Path = path, hg_Port = portIntOrString port\<rparr>,
                 pr_InitialDelaySeconds = prs_InitialDelaySeconds p,
                 pr_TimeoutSeconds = prs_TimeoutSeconds p,
                 pr_PeriodSeconds = prs_PeriodSeconds p,
                 pr_FailureThreshold = prs_FailureThreshold p\<rparr>))"

subsection \<open>Engine runtimes\<close>

definition no_resources :: ResourceRequirements where
  "no_resources = \<lparr>rr_Limits = None, rr_Requests = None\<rparr>"

definition convertContainer :: "RuntimeContainer \<Rightarrow> Container" where
  "convertContainer c = \<lparr>ct_Name = rc_Name c, ct_Image = '''', ct_Command = [], ct_Args = rc_Args c,
     ct_Env = rc_Env c, ct_Resources = no_resources, ct_VolumeMounts = [],
     ct_LivenessProbe = None, ct_ReadinessProbe = None\<rparr>"

definition convertEngineRuntimes :: "EngineRuntime list \<Rightarrow> RbgEngineRuntime list" where
  "convertEngineRuntimes runtimes =
     (if length runtimes = 0 then []
      else map (\<lambda>rt. \<lparr>rer_ProfileName = er_ProfileName rt, rer_InjectContainers = [],
                      rer_Containers = map convertContainer (er_Containers rt)\<rparr>) runtimes)"

definition resolveEngineRuntimes :: "EngineRuntime list \<Rightarrow> EngineRuntime list \<Rightarrow> RbgEngineRuntime list" where
  "resolveEngineRuntimes inline profileRuntimes =
     (if length inline > 0 then convertEngineRuntimes inline
      else if length profileRuntimes > 0 then convertEngineRuntimes profileRuntimes
      else [])"

subsection \<open>Roles and the group\<close>

definition zero_RoleSpec :: RoleSpec where
  "zero_RoleSpec = \<lparr>rs_Name = '''', rs_Labels = [], rs_Annotations = [], rs_Replicas = None,
     rs_RestartPolicy = '''', rs_Dependencies = [],
     rs_Workload = \<lparr>ws_APIVersion = '''', ws_Kind = ''''\<rparr>, rs_Template = None, rs_TemplateRef = None,
     rs_EngineRuntimes = [], rs_ScalingAdapter = None, rs_MinReadySeconds = 0\<rparr>"

definition statefulSet :: WorkloadSpec where
  "statefulSet = \<lparr>ws_APIVersion = ''apps/v1'', ws_Kind = ''StatefulSet''\<rparr>"

definition buildRouterRole :: "quantity_parser \<Rightarrow> PDInferenceService \<Rightarrow> MergedConfig \<Rightarrow> RoleSpec outcome" where
  "buildRouterRole pq pdis cfg =
     (let router = sp_Router (pd_Spec pdis);
          replicas = (if sint (ror_Replicas router) < 1 then 1 else ror_Replicas router) in
      and_then (buildVolumes pq (sp_Volumes (pd_Spec pdis))) (\<lambda>volumes.
      let volumeMounts = buildVolumeMounts (ror_VolumeMounts router) in
      and_then (buildResources pq (ror_Resources router) '''') (\<lambda>resources.
      let runtimeEngines = (case mc_EngineRuntimes cfg of
            None \<Rightarrow> [] | Some er \<Rightarrow> convertEngineRuntimes (re_Router er)) in
      Returns (zero_RoleSpec
        \<lparr>rs_Name := ''router'',
         rs_Replicas := Some replicas,
         rs_Workload := statefulSet,
         rs_EngineRuntimes := runtimeEngines,
         rs_Template := Some \<lparr>pt_Labels = [], pt_Spec = \<lparr>
           ps_Volumes = volumes,
           ps_Containers = [\<lparr>
             ct_Name = ''router'',
             ct_Image = im_Router (mc_Images cfg),
             ct_Command = mc_RouterCommand cfg,
             ct_Args = mc_RouterArgs cfg,
             ct_Env = [],
             ct_Resources = resources,
             ct_VolumeMounts = volumeMounts,
             ct_LivenessProbe = buildProbe (ror_LivenessProbe router),
             ct_ReadinessProbe = buildProbe (ror_ReadinessProbe router)\<rparr>],
           ps_NodeSelector = []\<rparr>\<rparr>\<rparr>))))"

definition podIPEnv :: EnvVar where
  "podIPEnv = \<lparr>ev_Name = ''POD_IP'', ev_Value = '''',
     ev_ValueFrom = Some \<lparr>es_FieldRef = Some \<lparr>fs_APIVersion = '''', fs_FieldPath = ''status.podIP''\<rparr>,
       es_ResourceFieldRef = None, es_ConfigMapKeyRef = None, es_SecretKeyRef = None,
       es_FileKeyRef = None\<rparr>\<rparr>"

definition buildInferenceRole :: "quantity_parser \<Rightarrow> string \<Rightarrow> PDInferenceService \<Rightarrow> InferenceRoleSpec \<Rightarrow>
    string \<Rightarrow> string list \<Rightarrow> string list \<Rightarrow> RbgEngineRuntime list \<Rightarrow> RoleSpec outcome" where
  "buildInferenceRole pq roleName pdis roleSpec img command args engineRuntimes =
     and_then (buildVolumes pq (sp_Volumes (pd_Spec pdis))) (\<lambda>volumes.
     let volumeMounts = buildVolumeMounts (irs_VolumeMounts roleSpec) in
     and_then (buildResources pq (irs_Resources roleSpec) (irs_GPU roleSpec)) (\<lambda>resources.
     let env = [podIPEnv];
         podSpec = \<lparr>
           ps_Volumes = volumes,
           ps_Containers = [\<lparr>
             ct_Name = roleName,
             ct_Image = img,
             ct_Command = command,
             ct_Args = args,
             ct_Env = env,
             ct_Resources = resources,
             ct_VolumeMounts = volumeMounts,
             ct_LivenessProbe = buildProbe (irs_LivenessProbe roleSpec),
             ct_ReadinessProbe = buildProbe (irs_ReadinessProbe roleSpec)\<rparr>],
           ps_NodeSelector = []\<rparr>;
         podSpec = (if irs_GPUType roleSpec \<noteq> ''''
           then podSpec\<lparr>ps_NodeSelector := [(''accelerator'', irs_GPUType roleSpec)]\<rparr> else podSpec)
     in Returns (zero_RoleSpec
        \<lparr>rs_Name := roleName,
         rs_Replicas := Some (irs_Replicas roleSpec),
         rs_Workload := statefulSet,
         rs_EngineRuntimes := engineRuntimes,
         rs_Template := Some \<lparr>pt_Labels = [], pt_Spec = podSpec\<rparr>\<rparr>)))"

definition GroupVersion_String :: string where
  "GroupVersion_String = ''pdai.pdai.io/v1alpha1''"

definition ownerRef :: "PDInferenceService \<Rightarrow> OwnerReference" where
  "ownerRef pdis = \<lparr>or_APIVersion = GroupVersion_String, or_Kind = ''PDInferenceService'',
     or_Name = pd_Name pdis, or_UID = om_UID (pd_ObjectMeta pdis),
     or_Controller = Some True, or_BlockOwnerDeletion = Some True\<rparr>"

text \<open>\<^verbatim>\<open>Build\<close> returns a group and an error; the error it returns is always nil.\<close>

definition Build :: "quantity_parser \<Rightarrow> PDInferenceService \<Rightarrow> MergedConfig \<Rightarrow>
    (go_error + RoleBasedGroup) outcome" where
  "Build pq pdis cfg =
     (let spec = pd_Spec pdis;
          profilePrefill = (case mc_EngineRuntimes cfg of None \<Rightarrow> [] | Some er \<Rightarrow> re_Prefill er);
          profileDecode = (case mc_EngineRuntimes cfg of None \<Rightarrow> [] | Some er \<Rightarrow> re_Decode er) in
      and_then (buildRouterRole pq pdis cfg) (\<lambda>routerRole.
      and_then (buildInferenceRole pq ''prefill'' pdis (sp_Prefill spec)
          (im_Prefill (mc_Images cfg)) (mc_PrefillCommand cfg) (mc_PrefillArgs cfg)
          (resolveEngineRuntimes (irs_EngineRuntimes (sp_Prefill spec)) profilePrefill)) (\<lambda>prefillRole.
      and_then (buildInferenceRole pq ''decode'' pdis (sp_Decode spec)
          (im_Decode (mc_Images cfg)) (mc_DecodeCommand cfg) (mc_DecodeArgs cfg)
          (resolveEngineRuntimes (irs_EngineRuntimes (sp_Decode spec)) profileDecode)) (\<lambda>decodeRole.
      Returns (Inr
        \<lparr>rbg_ObjectMeta = empty_ObjectMeta
           \<lparr>om_Name := pd_Name pdis, om_Namespace := pd_Namespace pdis,
            om_OwnerReferences := [ownerRef pdis]\<rparr>,
         rbg_Spec = \<lparr>rgs_Roles = [routerRole, prefillRole, decodeRole], rgs_RoleTemplates = [],
           rgs_PodGroupPolicy = None, rgs_CoordinationRequirements = []\<rparr>,
         rbg_Status = \<lparr>rgst_Conditions = [], rgst_RoleStatuses = []\<rparr>\<rparr>)))))"

subsection \<open>When a build panics\<close>

text \<open>The texts a build hands to \<^verbatim>\<open>MustParse\<close>, in no particular order of evaluation.\<close>

definition volume_quantities :: "VolumeSpec \<Rightarrow> string list" where
  "volume_quantities v = (case (vs_HostPath v, vs_EmptyDir v) of
     (None, Some e) \<Rightarrow> (if edv_SizeLimit e \<noteq> '''' then [edv_SizeLimit e] else [])
   | _ \<Rightarrow> [])"

definition resource_quantities :: "RoleResources option \<Rightarrow> string \<Rightarrow> string list" where
  "resource_quantities res gpu =
     (case res of None \<Rightarrow> [] | Some r \<Rightarrow> map snd (rres_Requests r) @ map snd (rres_Limits r)) @
     (if gpu \<noteq> '''' then [gpu] else [])"

definition spec_quantities :: "PDInferenceServiceSpec \<Rightarrow> string list" where
  "spec_quantities spec =
     concat (map volume_quantities (sp_Volumes spec)) @
     resource_quantities (ror_Resources (sp_Router spec)) '''' @
     resource_quantities (irs_Resources (sp_Prefill spec)) (irs_GPU (sp_Prefill spec)) @
     resource_quantities (irs_Resources (sp_Decode spec)) (irs_GPU (sp_Decode spec))"

definition parses :: "quantity_parser \<Rightarrow> string \<Rightarrow> bool" where
  "parses pq str = (case pq str of Inl _ \<Rightarrow> False | Inr _ \<Rightarrow> True)"

definition returns :: "'a outcome \<Rightarrow> bool" where
  "returns m = (case m of Panic _ \<Rightarrow> False | Returns _ \<Rightarrow> True)"

lemma returns_simps [simp]: "returns (Returns x)" "\<not> returns (Panic p)"
  by (simp_all add: returns_def)

lemma returns_iff: "returns m \<longleftrightarrow> (\<exists>x. m = Returns x)"
  by (cases m) simp_all

lemma returns_and_then_const:
  "(\<And>x. m = Returns x \<Longrightarrow> returns (f x) = b) \<Longrightarrow> returns (and_then m f) \<longleftrightarrow> returns m \<and> b"
  by (cases m) simp_all

lemma parses_quantity_parse: "small_text t \<Longrightarrow> parses quantity_parse t \<longleftrightarrow> quantity_syntax t"
  using quantity_parse_iff [of t] by (auto simp: parses_def split: sum.splits)

lemma returns_MustParse [simp]: "returns (MustParse pq str) = parses pq str"
  by (simp add: MustParse_def parses_def split: sum.split)

lemma returns_map_outcome: "returns (map_outcome f xs) \<longleftrightarrow> (\<forall>x \<in> set xs. returns (f x))"
  using map_outcome_no_panic [of f xs] by (simp add: returns_iff)

lemma returns_parseInto: "returns (parseInto pq m acc) \<longleftrightarrow> (\<forall>v \<in> set (map snd m). parses pq v)"
proof (induction pq m acc rule: parseInto.induct)
  case (2 pq k v m acc)
  have "returns (parseInto pq ((k, v) # m) acc) \<longleftrightarrow>
        returns (MustParse pq v) \<and> (\<forall>v \<in> set (map snd m). parses pq v)"
    using 2 by (simp add: returns_and_then_const)
  then show ?case by simp
qed simp

lemma returns_buildVolume:
  "returns (buildVolume pq v) \<longleftrightarrow> (\<forall>q \<in> set (volume_quantities v). parses pq q)"
  by (simp add: buildVolume_def volume_quantities_def buildEmptyDir_def Let_def
      returns_and_then_const split: option.split)

lemma returns_buildVolumes:
  "returns (buildVolumes pq vs) \<longleftrightarrow> (\<forall>v \<in> set vs. \<forall>q \<in> set (volume_quantities v). parses pq q)"
  by (simp add: buildVolumes_def returns_map_outcome returns_buildVolume)

lemma returns_parseResources:
  "returns (parseResources pq res) \<longleftrightarrow>
     (\<forall>q \<in> set (resource_quantities res []). parses pq q)"
  by (auto simp: parseResources_def resource_quantities_def returns_and_then_const
      returns_parseInto split: option.split)

lemma returns_addGPU: "returns (addGPU pq gpu rl) \<longleftrightarrow> (gpu \<noteq> [] \<longrightarrow> parses pq gpu)"
  by (simp add: addGPU_def returns_and_then_const)

lemma returns_buildResources:
  "returns (buildResources pq res gpu) \<longleftrightarrow> (\<forall>q \<in> set (resource_quantities res gpu). parses pq q)"
  by (cases res) (simp_all add: buildResources_def resource_quantities_def returns_and_then_const
      returns_parseResources returns_addGPU case_prod_beta ball_Un)

lemma returns_buildRouterRole:
  "returns (buildRouterRole pq pdis cfg) \<longleftrightarrow>
     returns (buildVolumes pq (sp_Volumes (pd_Spec pdis))) \<and>
     returns (buildResources pq (ror_Resources (sp_Router (pd_Spec pdis))) '''')"
  by (simp add: buildRouterRole_def Let_def returns_and_then_const)

lemma returns_buildInferenceRole:
  "returns (buildInferenceRole pq name pdis rs img cmd args ers) \<longleftrightarrow>
     returns (buildVolumes pq (sp_Volumes (pd_Spec pdis))) \<and>
     returns (buildResources pq (irs_Resources rs) (irs_GPU rs))"
  by (simp add: buildInferenceRole_def Let_def returns_and_then_const)

lemma returns_Build:
  "returns (Build pq pdis cfg) \<longleftrightarrow> (\<forall>q \<in> set (spec_quantities (pd_Spec pdis)). parses pq q)"
  by (auto simp: Build_def Let_def returns_and_then_const returns_buildRouterRole
      returns_buildInferenceRole returns_buildVolumes returns_buildResources spec_quantities_def)

subsection \<open>What a build returns\<close>

text \<open>The replica count of the router is clamped from below at one.\<close>

definition routerReplicas :: "RouterRoleSpec \<Rightarrow> int32" where
  "routerReplicas r = (if sint (ror_Replicas r) < 1 then 1 else ror_Replicas r)"

lemma routerReplicas_pos: "1 \<le> sint (routerReplicas r)"
  by (simp add: routerReplicas_def)

text \<open>The container a role runs, read back from its pod template.\<close>

definition role_pod :: "RoleSpec \<Rightarrow> PodSpec" where
  "role_pod r = (case rs_Template r of Some t \<Rightarrow> pt_Spec t
     | None \<Rightarrow> \<lparr>ps_Volumes = [], ps_Containers = [], ps_NodeSelector = []\<rparr>)"

text \<open>What both kinds of role share: one container, named after the role, in a stateful set.\<close>

definition role_ok :: "quantity_parser \<Rightarrow> PDInferenceServiceSpec \<Rightarrow> RoleSpec \<Rightarrow> string \<Rightarrow> int32 \<Rightarrow>
    string \<Rightarrow> string list \<Rightarrow> string list \<Rightarrow> VolumeMountSpec list \<Rightarrow> RbgEngineRuntime list \<Rightarrow> bool" where
  "role_ok pq spec r name n img cmd args mounts ers \<longleftrightarrow>
     rs_Name r = name \<and> rs_Replicas r = Some n \<and> rs_Workload r = statefulSet \<and>
     rs_EngineRuntimes r = ers \<and> rs_ScalingAdapter r = None \<and> rs_TemplateRef r = None \<and>
     buildVolumes pq (sp_Volumes spec) = Returns (ps_Volumes (role_pod r)) \<and>
     (\<exists>c. ps_Containers (role_pod r) = [c] \<and> ct_Name c = name \<and> ct_Image c = img \<and>
          ct_Command c = cmd \<and> ct_Args c = args \<and> ct_VolumeMounts c = buildVolumeMounts mounts)"

lemma buildRouterRole_ok:
  assumes "buildRouterRole pq pdis cfg = Returns r"
  shows "role_ok pq (pd_Spec pdis) r ''router'' (routerReplicas (sp_Router (pd_Spec pdis)))
           (im_Router (mc_Images cfg)) (mc_RouterCommand cfg) (mc_RouterArgs cfg)
           (ror_VolumeMounts (sp_Router (pd_Spec pdis)))
           (case mc_EngineRuntimes cfg of None \<Rightarrow> [] | Some er \<Rightarrow> convertEngineRuntimes (re_Router er))"
  using assms
  by (auto simp: buildRouterRole_def Let_def and_then_returns_iff role_ok_def role_pod_def
      routerReplicas_def zero_RoleSpec_def split: option.splits)

lemma buildInferenceRole_ok:
  assumes "buildInferenceRole pq name pdis rs img cmd args ers = Returns r"
  shows "role_ok pq (pd_Spec pdis) r name (irs_Replicas rs) img cmd args (irs_VolumeMounts rs) ers"
  using assms
  by (auto simp: buildInferenceRole_def Let_def and_then_returns_iff role_ok_def role_pod_def
      zero_RoleSpec_def)

lemma buildInferenceRole_gpu:
  assumes "buildInferenceRole pq name pdis rs img cmd args ers = Returns r"
  shows "map_of (ps_NodeSelector (role_pod r)) =
           (if irs_GPUType rs = '''' then Map.empty else [''accelerator'' \<mapsto> irs_GPUType rs])"
    and "\<exists>c. ps_Containers (role_pod r) = [c] \<and> ct_Env c = [podIPEnv] \<and>
             buildResources pq (irs_Resources rs) (irs_GPU rs) = Returns (ct_Resources c)"
  using assms
  by (auto simp: buildInferenceRole_def Let_def and_then_returns_iff role_pod_def zero_RoleSpec_def
      fun_eq_iff)

lemma Build_returns_iff:
  "Build pq pdis cfg = Returns (Inr g) \<longleftrightarrow>
     (\<exists>router prefill decode.
        buildRouterRole pq pdis cfg = Returns router \<and>
        buildInferenceRole pq ''prefill'' pdis (sp_Prefill (pd_Spec pdis)) (im_Prefill (mc_Images cfg))
          (mc_PrefillCommand cfg) (mc_PrefillArgs cfg)
          (resolveEngineRuntimes (irs_EngineRuntimes (sp_Prefill (pd_Spec pdis)))
            (case mc_EngineRuntimes cfg of None \<Rightarrow> [] | Some er \<Rightarrow> re_Prefill er)) = Returns prefill \<and>
        buildInferenceRole pq ''decode'' pdis (sp_Decode (pd_Spec pdis)) (im_Decode (mc_Images cfg))
          (mc_DecodeCommand cfg) (mc_DecodeArgs cfg)
          (resolveEngineRuntimes (irs_EngineRuntimes (sp_Decode (pd_Spec pdis)))
            (case mc_EngineRuntimes cfg of None \<Rightarrow> [] | Some er \<Rightarrow> re_Decode er)) = Returns decode \<and>
        rgs_Roles (rbg_Spec g) = [router, prefill, decode] \<and>
        rbg_Spec g = \<lparr>rgs_Roles = [router, prefill, decode], rgs_RoleTemplates = [],
           rgs_PodGroupPolicy = None, rgs_CoordinationRequirements = []\<rparr> \<and>
        rbg_ObjectMeta g = empty_ObjectMeta\<lparr>om_Name := pd_Name pdis, om_Namespace := pd_Namespace pdis,
           om_OwnerReferences := [ownerRef pdis]\<rparr> \<and>
        rbg_Status g = \<lparr>rgst_Conditions = [], rgst_RoleStatuses = []\<rparr>)"
  by (cases g) (auto simp: Build_def Let_def and_then_returns_iff)

lemma Build_never_error: "Build pq pdis cfg \<noteq> Returns (Inl e)"
  by (auto simp: Build_def Let_def and_then_returns_iff)

lemma Build_cases:
  obtains (panic) m where "Build pq pdis cfg = Panic m"
  | (group) g where "Build pq pdis cfg = Returns (Inr g)"
  using Build_never_error by (cases "Build pq pdis cfg"; rename_tac r; case_tac r; blast)

subsection \<open>Resources as a lookup\<close>

lemma parseInto_lookup:
  assumes "parseInto pq m acc = Returns rl" and "gomap_ok m"
  shows "map_of rl k = (case map_of m k of
           None \<Rightarrow> map_of acc k
         | Some v \<Rightarrow> (case pq v of Inl _ \<Rightarrow> None | Inr q \<Rightarrow> Some q))"
  using assms
proof (induction pq m acc rule: parseInto.induct)
  case (2 pq j v m acc)
  then obtain q where q: "pq v = Inr q" and rest: "parseInto pq m (gomap_set j q acc) = Returns rl"
    by (auto simp: and_then_returns_iff MustParse_def split: sum.splits)
  from 2(3) have m: "gomap_ok m" and j: "map_of m j = None"
    by (auto simp: gomap_ok_def map_of_eq_None_iff)
  from 2(1) [OF rest m] show ?case
    using j q by (auto split: option.split)
qed simp

lemma parseInto_ok: "gomap_ok acc \<Longrightarrow> parseInto pq m acc = Returns rl \<Longrightarrow> gomap_ok rl"
  by (induction pq m acc rule: parseInto.induct) (auto simp: and_then_returns_iff)

text \<open>
  The quantity a built resource list holds under a key: the GPU count, when one is given,
  under the GPU key, and the parsed user value everywhere else.
\<close>

definition resource_lookup :: "quantity_parser \<Rightarrow> (string, string) gomap \<Rightarrow> string \<Rightarrow> string \<Rightarrow> Quantity option" where
  "resource_lookup pq m gpu k =
     (if gpu \<noteq> '''' \<and> k = gpuResource then (case pq gpu of Inl _ \<Rightarrow> None | Inr q \<Rightarrow> Some q)
      else (case map_of m k of None \<Rightarrow> None
            | Some v \<Rightarrow> (case pq v of Inl _ \<Rightarrow> None | Inr q \<Rightarrow> Some q)))"

definition requests_of :: "RoleResources option \<Rightarrow> (string, string) gomap" where
  "requests_of res = (case res of None \<Rightarrow> [] | Some r \<Rightarrow> rres_Requests r)"

definition limits_of :: "RoleResources option \<Rightarrow> (string, string) gomap" where
  "limits_of res = (case res of None \<Rightarrow> [] | Some r \<Rightarrow> rres_Limits r)"

definition list_lookup :: "ResourceList option \<Rightarrow> string \<Rightarrow> Quantity option" where
  "list_lookup rl k = (case rl of None \<Rightarrow> None | Some m \<Rightarrow> map_of m k)"

lemma parseResources_lookup:
  assumes "parseResources pq res = Returns (req, lims)"
    and "gomap_ok (requests_of res)" and "gomap_ok (limits_of res)"
  shows "map_of req k = resource_lookup pq (requests_of res) '''' k"
    and "map_of lims k = resource_lookup pq (limits_of res) '''' k"
proof (atomize (full), cases res)
  case None
  with assms(1) show "map_of req k = resource_lookup pq (requests_of res) '''' k \<and>
      map_of lims k = resource_lookup pq (limits_of res) '''' k"
    by (simp add: parseResources_def resource_lookup_def requests_of_def limits_of_def)
next
  case (Some r)
  with assms(1) have "parseInto pq (rres_Requests r) [] = Returns req"
      "parseInto pq (rres_Limits r) [] = Returns lims"
    by (auto simp: parseResources_def and_then_returns_iff)
  with assms(2,3) Some show "map_of req k = resource_lookup pq (requests_of res) '''' k \<and>
      map_of lims k = resource_lookup pq (limits_of res) '''' k"
    by (simp add: parseInto_lookup resource_lookup_def requests_of_def limits_of_def split: option.split)
qed

lemma addGPU_lookup:
  assumes "addGPU pq gpu (req, lims) = Returns (req', lims')"
    and "\<And>k. map_of req k = resource_lookup pq m '''' k"
    and "\<And>k. map_of lims k = resource_lookup pq m' '''' k"
  shows "map_of req' k = resource_lookup pq m gpu k" and "map_of lims' k = resource_lookup pq m' gpu k"
  using assms
  by (auto simp: addGPU_def and_then_returns_iff MustParse_def resource_lookup_def
      split: if_splits sum.splits)

lemma buildResources_lookup:
  assumes "buildResources pq res gpu = Returns rr"
    and "gomap_ok (requests_of res)" and "gomap_ok (limits_of res)"
  shows "list_lookup (rr_Requests rr) k = resource_lookup pq (requests_of res) gpu k"
    and "list_lookup (rr_Limits rr) k = resource_lookup pq (limits_of res) gpu k"
proof -
  from assms(1) obtain req lims req' lims' where
      p: "parseResources pq res = Returns (req, lims)" and
      a: "addGPU pq gpu (req, lims) = Returns (req', lims')" and
      rr: "rr = \<lparr>rr_Limits = (if length lims' > 0 then Some lims' else None),
                 rr_Requests = (if length req' > 0 then Some req' else None)\<rparr>"
    by (auto simp: buildResources_def and_then_returns_iff)
  note l = addGPU_lookup [OF a parseResources_lookup(1) [OF p assms(2,3)]
      parseResources_lookup(2) [OF p assms(2,3)]]
  show "list_lookup (rr_Requests rr) k = resource_lookup pq (requests_of res) gpu k"
    and "list_lookup (rr_Limits rr) k = resource_lookup pq (limits_of res) gpu k"
    using l(1) [of k] l(2) [of k] by (auto simp: rr list_lookup_def)
qed

subsection \<open>Names that pass through\<close>

lemma buildVolume_name: "buildVolume pq v = Returns w \<Longrightarrow> vol_Name w = vs_Name v"
  by (auto simp: buildVolume_def and_then_returns_iff split: option.splits)

lemma buildVolumes_names: "buildVolumes pq vs = Returns ws \<Longrightarrow> map vol_Name ws = map vs_Name vs"
  by (auto simp: buildVolumes_def map_outcome_returns list_all2_conv_all_nth buildVolume_name
      intro!: nth_equalityI)

lemma buildVolumeMounts_names: "map mnt_Name (buildVolumeMounts ms) = map vms_Name ms"
  by (simp add: buildVolumeMounts_def)

lemma convertEngineRuntimes_map:
  "convertEngineRuntimes rts = map (\<lambda>rt. \<lparr>rer_ProfileName = er_ProfileName rt,
     rer_InjectContainers = [], rer_Containers = map convertContainer (er_Containers rt)\<rparr>) rts"
  by (simp add: convertEngineRuntimes_def)

text \<open>Reading an engine runtime back from the group: the inverse of the conversion.\<close>

definition readEngineRuntime :: "RbgEngineRuntime \<Rightarrow> EngineRuntime" where
  "readEngineRuntime r = \<lparr>er_ProfileName = rer_ProfileName r,
     er_Containers = map (\<lambda>c. \<lparr>rc_Name = ct_Name c, rc_Args = ct_Args c, rc_Env = ct_Env c\<rparr>)
       (rer_Containers r)\<rparr>"

lemma read_convertContainer:
  "\<lparr>rc_Name = ct_Name (convertContainer c), rc_Args = ct_Args (convertContainer c),
    rc_Env = ct_Env (convertContainer c)\<rparr> = c"
  by (cases c) (simp add: convertContainer_def)

lemma readEngineRuntime_convert: "map readEngineRuntime (convertEngineRuntimes rts) = rts"
proof -
  have "readEngineRuntime \<lparr>rer_ProfileName = er_ProfileName rt, rer_InjectContainers = [],
      rer_Containers = map convertContainer (er_Containers rt)\<rparr> = rt" for rt
    by (cases rt) (simp add: readEngineRuntime_def read_convertContainer map_idI o_def)
  then show ?thesis by (simp add: convertEngineRuntimes_map map_idI o_def)
qed

lemma resolveEngineRuntimes_first:
  "map readEngineRuntime (resolveEngineRuntimes inline profile) = first_nonempty [inline, profile]"
  by (simp add: resolveEngineRuntimes_def readEngineRuntime_convert)

subsection \<open>What the builder relies on of the parser\<close>

text \<open>A parser that accepts, among texts of bounded size, exactly the quantities.\<close>

locale quantity_contract =
  fixes pq :: quantity_parser
  assumes parses_syntax: "small_text t \<Longrightarrow> parses pq t \<longleftrightarrow> quantity_syntax t"
begin

lemma parses_all:
  "list_all small_text ts \<Longrightarrow> (\<forall>t \<in> set ts. parses pq t) \<longleftrightarrow> list_all quantity_syntax ts"
  by (auto simp: list_all_iff parses_syntax)

lemma Build_decided:
  assumes "list_all small_text (spec_quantities (pd_Spec pdis))"
  shows "((\<exists>g. Build pq pdis cfg = Returns (Inr g)) \<longleftrightarrow> list_all quantity_syntax (spec_quantities (pd_Spec pdis))) \<and>
    ((\<exists>m. Build pq pdis cfg = Panic m) \<longleftrightarrow> \<not> list_all quantity_syntax (spec_quantities (pd_Spec pdis)))"
proof -
  have "returns (Build pq pdis cfg) \<longleftrightarrow> list_all quantity_syntax (spec_quantities (pd_Spec pdis))"
    using parses_all [OF assms] by (simp add: returns_Build)
  then show ?thesis by (cases rule: Build_cases [of pq pdis cfg]) auto
qed

end

interpretation parser: quantity_contract quantity_parse
  by unfold_locales (rule parses_quantity_parse)

subsection \<open>Properties\<close>

text \<open>A service to run the definitions on, with the parser of \<open>Quantities\<close>.\<close>

definition sample_role :: InferenceRoleSpec where
  "sample_role = zero_InferenceRoleSpec\<lparr>irs_Image := ''sglang:latest'', irs_Replicas := 2, irs_GPU := ''8'',
     irs_GPUType := ''H100'', irs_Args := [''--tp'', ''8''],
     irs_Resources := Some \<lparr>rres_Requests = [(''cpu'', ''4''), (''nvidia.com/gpu'', ''1'')], rres_Limits = []\<rparr>,
     irs_VolumeMounts := [\<lparr>vms_Name = ''model'', vms_MountPath = ''/models'', vms_ReadOnly = True\<rparr>]\<rparr>"

definition sample_spec :: PDInferenceServiceSpec where
  "sample_spec = zero_PDInferenceServiceSpec\<lparr>sp_Model := ''qwen3-14b'', sp_Engine := EngineTypeSGLang,
     sp_Volumes := [\<lparr>vs_Name = ''model'', vs_HostPath = Some \<lparr>hpv_Path = ''/data'', hpv_Type = ''''\<rparr>,
                      vs_EmptyDir = None, vs_PVC = None\<rparr>],
     sp_Router := zero_RouterRoleSpec\<lparr>ror_Image := ''sgl-router:latest'', ror_Replicas := 1,
                     ror_Args := [''--port'', ''8000'']\<rparr>,
     sp_Prefill := sample_role, sp_Decode := sample_role\<rparr>"

definition sample_pdis :: PDInferenceService where
  "sample_pdis = zero_PDInferenceService\<lparr>pd_ObjectMeta := empty_ObjectMeta\<lparr>om_Name := ''svc'',
     om_Namespace := ''default'', om_UID := ''u1'', om_ResourceVersion := ''7'', om_CreationTimestamp := 5\<rparr>,
     pd_Spec := sample_spec\<rparr>"

lemmas sample_defs = sample_role_def sample_spec_def sample_pdis_def zero_defs

lemma sample_quantities:
  "spec_quantities sample_spec = [''4'', ''1'', ''8'', ''4'', ''1'', ''8'']"
  by (simp add: spec_quantities_def sample_defs volume_quantities_def resource_quantities_def)

lemma sample_parses: "\<forall>t \<in> set (spec_quantities sample_spec). parses quantity_parse t"
  by (simp add: sample_quantities parses_def quantity_parse_def parse_eval)

lemma sample_builds: "\<exists>g. Build quantity_parse sample_pdis cfg = Returns (Inr g)"
proof -
  have "returns (Build quantity_parse sample_pdis cfg)"
    using sample_parses by (simp add: returns_Build sample_pdis_def)
  then show ?thesis by (cases rule: Build_cases [of quantity_parse sample_pdis cfg]) auto
qed

text \<open>
  When building returns. With the quantity parser of the API machinery, and texts of a bounded
  length without huge exponents, \<^verbatim>\<open>Build\<close> returns a group exactly when every quantity text of the
  specification (the size limits of volumes, the requests and limits of the three roles, the GPU counts)
  is a quantity; otherwise it panics. It never returns an error.
\<close>

lemma Build_returns_iff_syntax:
  assumes "list_all small_text (spec_quantities (pd_Spec pdis))"
  shows "((\<exists>g. Build quantity_parse pdis cfg = Returns (Inr g)) \<longleftrightarrow>
      list_all quantity_syntax (spec_quantities (pd_Spec pdis))) \<and>
    ((\<exists>m. Build quantity_parse pdis cfg = Panic m) \<longleftrightarrow>
      \<not> list_all quantity_syntax (spec_quantities (pd_Spec pdis)))"
  using parser.Build_decided [OF assms] .

lemma Build_returns_iff_syntax_witness:
  "list_all quantity_syntax (spec_quantities sample_spec)"
proof -
  have "list_all small_text (spec_quantities (pd_Spec sample_pdis))"
    by (simp add: sample_pdis_def sample_quantities small_text_def parse_eval)
  from Build_returns_iff_syntax [OF this] sample_builds show ?thesis by (simp add: sample_pdis_def)
qed

text \<open>
  C19: The shape of a built group. It is named after the service, in its namespace and owned by
  it, and consists of the router, prefill and decode roles in this order, each a stateful set
  with one container named after the role that runs the merged image, command and arguments
  over the declared volumes and mounts. Prefill and decode have the requested replicas, the
  router the requested ones but at least one (not always one, as the comment on \<^verbatim>\<open>Build\<close> has it); prefill and decode take their inline engine runtimes, or else those of
  the profile.
\<close>

theorem Build_shape:
  assumes "Build pq pdis cfg = Returns (Inr g)"
  shows "rbg_key g = pdis_key pdis \<and> om_OwnerReferences (rbg_ObjectMeta g) = [ownerRef pdis] \<and>
    (\<exists>router prefill decode. rgs_Roles (rbg_Spec g) = [router, prefill, decode] \<and>
       role_ok pq (pd_Spec pdis) router ''router'' (routerReplicas (sp_Router (pd_Spec pdis)))
         (im_Router (mc_Images cfg)) (mc_RouterCommand cfg) (mc_RouterArgs cfg)
         (ror_VolumeMounts (sp_Router (pd_Spec pdis))) (rs_EngineRuntimes router) \<and>
       1 \<le> sint (routerReplicas (sp_Router (pd_Spec pdis))) \<and>
       map readEngineRuntime (rs_EngineRuntimes router) =
         (case mc_EngineRuntimes cfg of None \<Rightarrow> [] | Some er \<Rightarrow> re_Router er) \<and>
       role_ok pq (pd_Spec pdis) prefill ''prefill'' (irs_Replicas (sp_Prefill (pd_Spec pdis)))
         (im_Prefill (mc_Images cfg)) (mc_PrefillCommand cfg) (mc_PrefillArgs cfg)
         (irs_VolumeMounts (sp_Prefill (pd_Spec pdis))) (rs_EngineRuntimes prefill) \<and>
       map readEngineRuntime (rs_EngineRuntimes prefill) = first_nonempty
         [irs_EngineRuntimes (sp_Prefill (pd_Spec pdis)),
          case mc_EngineRuntimes cfg of None \<Rightarrow> [] | Some er \<Rightarrow> re_Prefill er] \<and>
       role_ok pq (pd_Spec pdis) decode ''decode'' (irs_Replicas (sp_Decode (pd_Spec pdis)))
         (im_Decode (mc_Images cfg)) (mc_DecodeCommand cfg) (mc_DecodeArgs cfg)
         (irs_VolumeMounts (sp_Decode (pd_Spec pdis))) (rs_EngineRuntimes decode) \<and>
       map readEngineRuntime (rs_EngineRuntimes decode) = first_nonempty
         [irs_EngineRuntimes (sp_Decode (pd_Spec pdis)),
          case mc_EngineRuntimes cfg of None \<Rightarrow> [] | Some er \<Rightarrow> re_Decode er])"
proof -
  from assms obtain router prefill decode where
      r: "buildRouterRole pq pdis cfg = Returns router" and
      p: "buildInferenceRole pq ''prefill'' pdis (sp_Prefill (pd_Spec pdis)) (im_Prefill (mc_Images cfg))
          (mc_PrefillCommand cfg) (mc_PrefillArgs cfg)
          (resolveEngineRuntimes (irs_EngineRuntimes (sp_Prefill (pd_Spec pdis)))
            (case mc_EngineRuntimes cfg of None \<Rightarrow> [] | Some er \<Rightarrow> re_Prefill er)) = Returns prefill" and
      d: "buildInferenceRole pq ''decode'' pdis (sp_Decode (pd_Spec pdis)) (im_Decode (mc_Images cfg))
          (mc_DecodeCommand cfg) (mc_DecodeArgs cfg)
          (resolveEngineRuntimes (irs_EngineRuntimes (sp_Decode (pd_Spec pdis)))
            (case mc_EngineRuntimes cfg of None \<Rightarrow> [] | Some er \<Rightarrow> re_Decode er)) = Returns decode" and
      roles: "rgs_Roles (rbg_Spec g) = [router, prefill, decode]" and
      m: "rbg_ObjectMeta g = empty_ObjectMeta\<lparr>om_Name := pd_Name pdis, om_Namespace := pd_Namespace pdis,
           om_OwnerReferences := [ownerRef pdis]\<rparr>"
    unfolding Build_returns_iff by blast
  note ok = buildRouterRole_ok [OF r] buildInferenceRole_ok [OF p] buildInferenceRole_ok [OF d]
  have ers: "rs_EngineRuntimes router = (case mc_EngineRuntimes cfg of None \<Rightarrow> []
        | Some er \<Rightarrow> convertEngineRuntimes (re_Router er))"
      "rs_EngineRuntimes prefill = resolveEngineRuntimes (irs_EngineRuntimes (sp_Prefill (pd_Spec pdis)))
            (case mc_EngineRuntimes cfg of None \<Rightarrow> [] | Some er \<Rightarrow> re_Prefill er)"
      "rs_EngineRuntimes decode = resolveEngineRuntimes (irs_EngineRuntimes (sp_Decode (pd_Spec pdis)))
            (case mc_EngineRuntimes cfg of None \<Rightarrow> [] | Some er \<Rightarrow> re_Decode er)"
    using ok by (simp_all add: role_ok_def)
  show ?thesis
    using ok m
    by (intro conjI exI [of _ router] exI [of _ prefill] exI [of _ decode] roles)
       (simp_all add: ers routerReplicas_pos resolveEngineRuntimes_first readEngineRuntime_convert
          meta_key_def del: first_nonempty.simps split: option.split)
qed

theorem Build_shape_witness:
  "\<exists>g. Build quantity_parse sample_pdis zero_MergedConfig = Returns (Inr g) \<and>
       rbg_key g = mk_key ''default'' ''svc'' \<and> length (rgs_Roles (rbg_Spec g)) = 3"
proof -
  obtain g where g: "Build quantity_parse sample_pdis zero_MergedConfig = Returns (Inr g)"
    using sample_builds by blast
  from Build_shape [OF g] g show ?thesis
    by (intro exI [of _ g]) (auto simp: sample_pdis_def meta_key_def)
qed

text \<open>
  Resources as the user wrote them, with the GPU count on top. Each list of a built
  container holds, under every key, the parsed value the specification gives for that key,
  except that a non-empty GPU count decides \<^verbatim>\<open>nvidia.com/gpu\<close> in requests and limits alike.
\<close>

lemma buildResources_lookups:
  assumes "buildResources pq res gpu = Returns rr"
    and "gomap_ok (requests_of res)" and "gomap_ok (limits_of res)"
  shows "list_lookup (rr_Requests rr) k = resource_lookup pq (requests_of res) gpu k \<and>
    list_lookup (rr_Limits rr) k = resource_lookup pq (limits_of res) gpu k"
  using buildResources_lookup [OF assms] by blast

lemma buildResources_lookups_witness:
  "\<exists>rr. buildResources quantity_parse (irs_Resources sample_role) ''8'' = Returns rr \<and>
     map_option qt_i_value (list_lookup (rr_Requests rr) ''nvidia.com/gpu'') = Some 8 \<and>
     map_option qt_i_value (list_lookup (rr_Limits rr) ''nvidia.com/gpu'') = Some 8 \<and>
     map_option qt_i_value (list_lookup (rr_Requests rr) ''cpu'') = Some 4"
proof -
  let ?res = "irs_Resources sample_role"
  have "returns (buildResources quantity_parse ?res ''8'')"
    by (simp add: returns_buildResources sample_role_def resource_quantities_def parses_def quantity_parse_def parse_eval)
  then obtain rr where rr: "buildResources quantity_parse ?res ''8'' = Returns rr"
    by (auto simp: returns_iff)
  have "gomap_ok (requests_of ?res)" "gomap_ok (limits_of ?res)"
    by (simp_all add: sample_role_def requests_of_def limits_of_def gomap_ok_def)
  from buildResources_lookups [OF rr this] rr show ?thesis
    by (simp add: resource_lookup_def gpuResource_def quantity_parse_def parse_eval int_quantity_def sample_role_def requests_of_def)
qed

end
