(* ===== verification/Status.thy ===== *)
theory Status
  imports Kube_Client
begin

section \<open>Status aggregation (\<^verbatim>\<open>internal/controller/status.go\<close>)\<close>

text \<open>
  How the controller derives the phase, the role statuses and the Ready condition of a
  \<^verbatim>\<open>PDInferenceService\<close> from its group. \<^verbatim>\<open>time.Now\<close> is an argument of the pure
  functions; \<open>syncStatus\<close> reads it from the client record.
\<close>

record Result =
  res_RequeueAfter :: Duration

definition no_requeue :: Result where
  "no_requeue = \<lparr>res_RequeueAfter = 0\<rparr>"

subsection \<open>The phase\<close>

fun allReady :: "RbgRoleStatus list \<Rightarrow> bool" where
  "allReady [] = True"
| "allReady (rs # rss) =
     (if sint (rrs_ReadyReplicas rs) < sint (rrs_Replicas rs) then False else allReady rss)"

definition allRolesReady :: "RoleBasedGroup \<Rightarrow> bool" where
  "allRolesReady rbg =
     (if length (rgst_RoleStatuses (rbg_Status rbg)) = 0 then False
      else allReady (rgst_RoleStatuses (rbg_Status rbg)))"

fun anyCrash :: "Condition list \<Rightarrow> bool" where
  "anyCrash [] = False"
| "anyCrash (c # cs) =
     (if cd_Reason c = ''CrashLoopBackOff'' \<or> cd_Reason c = ''OOMKilled'' then True else anyCrash cs)"

definition hasCrashLoop :: "RoleBasedGroup \<Rightarrow> bool" where
  "hasCrashLoop rbg = anyCrash (rgst_Conditions (rbg_Status rbg))"

definition isInitializingTooLong :: "Time \<Rightarrow> RoleBasedGroup \<Rightarrow> PDInferenceService \<Rightarrow> bool" where
  "isInitializingTooLong now rbg pdis =
     (if allRolesReady rbg then False
      else time_since now (om_CreationTimestamp (pd_ObjectMeta pdis)) > 30 * Minute)"

definition computePhase :: "Time \<Rightarrow> RoleBasedGroup option \<Rightarrow> PDInferenceService \<Rightarrow> Phase" where
  "computePhase now rbg pdis =
     (if \<not> Time_IsZero (om_DeletionTimestamp (pd_ObjectMeta pdis)) then PhaseTerminating
      else case rbg of
        None \<Rightarrow> PhasePending
      | Some g \<Rightarrow>
          if hasCrashLoop g then PhaseFailed
          else if isInitializingTooLong now g pdis then PhaseFailed
          else if allRolesReady g then PhaseRunning
          else PhaseInitializing)"

subsection \<open>Role statuses and the Ready condition\<close>

definition buildRoleStatuses :: "RoleBasedGroup \<Rightarrow> RoleStatus list" where
  "buildRoleStatuses rbg =
     map (\<lambda>rs. \<lparr>rst_Name = rrs_Name rs, rst_Ready = rrs_ReadyReplicas rs, rst_Total = rrs_Replicas rs\<rparr>)
       (rgst_RoleStatuses (rbg_Status rbg))"

text \<open>The switch over the phase: status, reason and message of the condition.\<close>

definition readyFields :: "PDInferenceServiceStatus \<Rightarrow> ConditionStatus \<times> string \<times> string" where
  "readyFields st =
     (if st_Phase st = PhaseRunning then (ConditionTrue, ''AllRolesReady'', ''All roles are ready'')
      else if st_Phase st = PhaseFailed then
        (case st_LastEvent st of
           Some ev \<Rightarrow> if evr_Reason ev \<noteq> '''' then (ConditionFalse, evr_Reason ev, evr_Message ev)
                      else (ConditionFalse, ''ServiceFailed'', ''Service has entered a failed state'')
         | None \<Rightarrow> (ConditionFalse, ''ServiceFailed'', ''Service has entered a failed state''))
      else if st_Phase st = PhaseInitializing then
        (ConditionFalse, ''Initializing'', ''Service is initializing'')
      else if st_Phase st = PhasePending then (ConditionFalse, ''Pending'', ''Service is pending'')
      else if st_Phase st = PhaseTerminating then
        (ConditionFalse, ''Terminating'', ''Service is terminating'')
      else (ConditionUnknown, ''Unknown'', ''Service state is unknown''))"

text \<open>The loop that replaces the first Ready condition, or appends one.\<close>

fun upsertReady :: "Condition \<Rightarrow> Condition list \<Rightarrow> Condition list" where
  "upsertReady newCond [] = [newCond]"
| "upsertReady newCond (c # cs) =
     (if cd_Type c = ''Ready'' then
        (if cd_Status c \<noteq> cd_Status newCond then newCond # cs
         else c\<lparr>cd_Reason := cd_Reason newCond, cd_Message := cd_Message newCond\<rparr> # cs)
      else c # upsertReady newCond cs)"

definition setReadyCondition :: "Time \<Rightarrow> PDInferenceService \<Rightarrow> PDInferenceService" where
  "setReadyCondition now pdis =
     (let (status, reason, message) = readyFields (pd_Status pdis);
          newCond = \<lparr>cd_Type = ''Ready'', cd_Status = status, cd_LastTransitionTime = now,
                     cd_Reason = reason, cd_Message = message\<rparr>
      in pdis\<lparr>pd_Status := (pd_Status pdis)
           \<lparr>st_Conditions := upsertReady newCond (st_Conditions (pd_Status pdis))\<rparr>\<rparr>)"

text \<open>The three assignments to the status between the read and the write.\<close>

definition aggregateStatus :: "Time \<Rightarrow> Time \<Rightarrow> RoleBasedGroup option \<Rightarrow> PDInferenceService \<Rightarrow> PDInferenceService" where
  "aggregateStatus t1 t2 rbg pdis =
     (let pdis = pdis\<lparr>pd_Status := (pd_Status pdis)\<lparr>st_Phase := computePhase t1 rbg pdis\<rparr>\<rparr>;
          pdis = (case rbg of None \<Rightarrow> pdis
            | Some g \<Rightarrow> pdis\<lparr>pd_Status := (pd_Status pdis)\<lparr>st_RoleStatuses := buildRoleStatuses g\<rparr>\<rparr>)
      in setReadyCondition t2 pdis)"

definition writeStatus :: "'s client \<Rightarrow> RoleBasedGroup option \<Rightarrow> PDInferenceService \<Rightarrow>
    ('s, Result \<times> go_error option) state" where
  "writeStatus cl rbg pdis = do {
     t1 \<leftarrow> Now cl;
     t2 \<leftarrow> Now cl;
     u \<leftarrow> Status_Update_PDIS cl (aggregateStatus t1 t2 rbg pdis);
     (case u of
        Inl err \<Rightarrow> State_Monad.return (no_requeue, Some err)
      | Inr _ \<Rightarrow> State_Monad.return (\<lparr>res_RequeueAfter = 10 * Second\<rparr>, None))
   }"

definition syncStatus :: "'s client \<Rightarrow> PDInferenceService \<Rightarrow> ('s, Result \<times> go_error option) state" where
  "syncStatus cl pdis = do {
     r \<leftarrow> Get_RBG cl (mk_key (pd_Namespace pdis) (pd_Name pdis));
     (case r of
        Inl err \<Rightarrow> if IsNotFound err then writeStatus cl None pdis
                   else State_Monad.return (no_requeue, Some err)
      | Inr g \<Rightarrow> writeStatus cl (Some g) pdis)
   }"

subsection \<open>Facts about the phase\<close>

lemma allReady_iff:
  "allReady rss \<longleftrightarrow> (\<forall>rs \<in> set rss. sint (rrs_Replicas rs) \<le> sint (rrs_ReadyReplicas rs))"
  by (induction rss) auto

lemma allRolesReady_iff:
  "allRolesReady g \<longleftrightarrow> rgst_RoleStatuses (rbg_Status g) \<noteq> [] \<and>
     (\<forall>rs \<in> set (rgst_RoleStatuses (rbg_Status g)). sint (rrs_Replicas rs) \<le> sint (rrs_ReadyReplicas rs))"
  by (simp add: allRolesReady_def allReady_iff)

lemma hasCrashLoop_iff:
  "hasCrashLoop g \<longleftrightarrow>
     (\<exists>c \<in> set (rgst_Conditions (rbg_Status g)). cd_Reason c \<in> {''CrashLoopBackOff'', ''OOMKilled''})"
proof -
  have "anyCrash cs \<longleftrightarrow> (\<exists>c \<in> set cs. cd_Reason c \<in> {''CrashLoopBackOff'', ''OOMKilled''})" for cs
    by (induction cs) auto
  then show ?thesis by (simp add: hasCrashLoop_def)
qed

lemma Phase_distinct [simp]:
  "PhasePending \<noteq> PhaseInitializing" "PhasePending \<noteq> PhaseRunning" "PhasePending \<noteq> PhaseFailed"
  "PhasePending \<noteq> PhaseTerminating" "PhaseInitializing \<noteq> PhaseRunning"
  "PhaseInitializing \<noteq> PhaseFailed" "PhaseInitializing \<noteq> PhaseTerminating"
  "PhaseRunning \<noteq> PhaseFailed" "PhaseRunning \<noteq> PhaseTerminating" "PhaseFailed \<noteq> PhaseTerminating"
  "PhaseInitializing \<noteq> PhasePending" "PhaseRunning \<noteq> PhasePending" "PhaseFailed \<noteq> PhasePending"
  "PhaseTerminating \<noteq> PhasePending" "PhaseRunning \<noteq> PhaseInitializing"
  "PhaseFailed \<noteq> PhaseInitializing" "PhaseTerminating \<noteq> PhaseInitializing"
  "PhaseFailed \<noteq> PhaseRunning" "PhaseTerminating \<noteq> PhaseRunning" "PhaseTerminating \<noteq> PhaseFailed"
  by (simp_all add: Phase_defs)

lemma computePhase_running_iff:
  "computePhase now rbg pdis = PhaseRunning \<longleftrightarrow>
     Time_IsZero (om_DeletionTimestamp (pd_ObjectMeta pdis)) \<and>
     (\<exists>g. rbg = Some g \<and> \<not> hasCrashLoop g \<and> allRolesReady g)"
  by (auto simp: computePhase_def isInitializingTooLong_def split: option.splits)

lemma tooLong_iff:
  "isInitializingTooLong now g pdis \<longleftrightarrow>
     \<not> allRolesReady g \<and> now - om_CreationTimestamp (pd_ObjectMeta pdis) > 30 * Minute"
  by (simp add: isInitializingTooLong_def time_since_gt Minute_def Second_def)

subsection \<open>Facts about the Ready condition\<close>

definition ready_conditions :: "Condition list \<Rightarrow> Condition list" where
  "ready_conditions cs = filter (\<lambda>c. cd_Type c = ''Ready'') cs"

definition other_conditions :: "Condition list \<Rightarrow> Condition list" where
  "other_conditions cs = filter (\<lambda>c. cd_Type c \<noteq> ''Ready'') cs"

definition updateReady :: "Condition \<Rightarrow> Condition \<Rightarrow> Condition" where
  "updateReady newCond c = (if cd_Status c \<noteq> cd_Status newCond then newCond
     else c\<lparr>cd_Reason := cd_Reason newCond, cd_Message := cd_Message newCond\<rparr>)"

lemma upsertReady_other:
  "cd_Type newCond = ''Ready'' \<Longrightarrow> other_conditions (upsertReady newCond cs) = other_conditions cs"
  by (induction cs) (auto simp: other_conditions_def)

lemma upsertReady_ready:
  "cd_Type newCond = ''Ready'' \<Longrightarrow>
   ready_conditions (upsertReady newCond cs) = (case ready_conditions cs of
      [] \<Rightarrow> [newCond] | c # rest \<Rightarrow> updateReady newCond c # rest)"
  by (induction cs) (auto simp: ready_conditions_def updateReady_def)

lemma upsertReady_types:
  "cd_Type newCond = ''Ready'' \<Longrightarrow>
   map cd_Type (upsertReady newCond cs) =
     (if ''Ready'' \<in> set (map cd_Type cs) then map cd_Type cs else map cd_Type cs @ [''Ready''])"
  by (induction cs) auto

lemma setReadyCondition_fields [simp]:
  "pd_ObjectMeta (setReadyCondition t p) = pd_ObjectMeta p"
  "pd_Spec (setReadyCondition t p) = pd_Spec p"
  "pd_TypeMeta (setReadyCondition t p) = pd_TypeMeta p"
  "st_Phase (pd_Status (setReadyCondition t p)) = st_Phase (pd_Status p)"
  "st_RoleStatuses (pd_Status (setReadyCondition t p)) = st_RoleStatuses (pd_Status p)"
  "st_LastEvent (pd_Status (setReadyCondition t p)) = st_LastEvent (pd_Status p)"
  "st_Endpoint (pd_Status (setReadyCondition t p)) = st_Endpoint (pd_Status p)"
  by (simp_all add: setReadyCondition_def case_prod_beta Let_def)

lemma aggregateStatus_fields [simp]:
  "pd_ObjectMeta (aggregateStatus t1 t2 rbg p) = pd_ObjectMeta p"
  "pd_Spec (aggregateStatus t1 t2 rbg p) = pd_Spec p"
  "st_Phase (pd_Status (aggregateStatus t1 t2 rbg p)) = computePhase t1 rbg p"
  "st_Endpoint (pd_Status (aggregateStatus t1 t2 rbg p)) = st_Endpoint (pd_Status p)"
  "st_LastEvent (pd_Status (aggregateStatus t1 t2 rbg p)) = st_LastEvent (pd_Status p)"
  by (simp_all add: aggregateStatus_def Let_def split: option.split)

subsection \<open>A status that reflects the group\<close>

text \<open>The first Ready condition of a status says what the phase of that status calls for.\<close>

definition ready_reported :: "PDInferenceServiceStatus \<Rightarrow> bool" where
  "ready_reported st = (case ready_conditions (st_Conditions st) of
     [] \<Rightarrow> False
   | c # _ \<Rightarrow> (cd_Status c, cd_Reason c, cd_Message c) = readyFields st)"

lemma ready_reported_setReadyCondition: "ready_reported (pd_Status (setReadyCondition t p))"
proof -
  let ?st = "pd_Status p"
  obtain s r m where f: "readyFields ?st = (s, r, m)" by (cases "readyFields ?st") auto
  have "readyFields (?st\<lparr>st_Conditions := cs\<rparr>) = readyFields ?st" for cs
    by (simp add: readyFields_def)
  with f show ?thesis
    by (auto simp: ready_reported_def setReadyCondition_def Let_def upsertReady_ready updateReady_def
        split: list.split)
qed

text \<open>The phase of a status written at some instant, its role counts and its Ready condition.\<close>

definition status_reflects :: "RoleBasedGroup option \<Rightarrow> PDInferenceService \<Rightarrow> bool" where
  "status_reflects rbg p \<longleftrightarrow>
     (\<exists>t. st_Phase (pd_Status p) = computePhase t rbg p) \<and>
     (\<forall>g. rbg = Some g \<longrightarrow> st_RoleStatuses (pd_Status p) = buildRoleStatuses g) \<and>
     ready_reported (pd_Status p)"

lemma computePhase_meta:
  "om_DeletionTimestamp (pd_ObjectMeta p) = om_DeletionTimestamp (pd_ObjectMeta q) \<Longrightarrow>
   om_CreationTimestamp (pd_ObjectMeta p) = om_CreationTimestamp (pd_ObjectMeta q) \<Longrightarrow>
   computePhase t rbg p = computePhase t rbg q"
  by (simp add: computePhase_def isInitializingTooLong_def split: option.split)

lemma aggregateStatus_reflects:
  assumes "pd_Status q = pd_Status (aggregateStatus t1 t2 rbg p)"
    and "same_object_meta (pd_ObjectMeta p) (pd_ObjectMeta q)"
  shows "status_reflects rbg q"
proof -
  have "computePhase t1 rbg q = computePhase t1 rbg p"
    using same_object_metaD [OF assms(2)] by (intro computePhase_meta) simp_all
  moreover have "ready_reported (pd_Status (aggregateStatus t1 t2 rbg p))"
    by (simp add: aggregateStatus_def Let_def ready_reported_setReadyCondition)
  moreover have "st_RoleStatuses (pd_Status (aggregateStatus t1 t2 (Some g) p)) = buildRoleStatuses g" for g
    by (simp add: aggregateStatus_def Let_def)
  ultimately show ?thesis
    by (auto simp: status_reflects_def assms(1) intro!: exI [of _ t1])
qed

subsection \<open>Properties\<close>

abbreviation marked_for_deletion :: "PDInferenceService \<Rightarrow> bool" where
  "marked_for_deletion p \<equiv> \<not> Time_IsZero (om_DeletionTimestamp (pd_ObjectMeta p))"

abbreviation age :: "Time \<Rightarrow> PDInferenceService \<Rightarrow> int" where
  "age now p \<equiv> now - om_CreationTimestamp (pd_ObjectMeta p)"

lemma computePhase_decides:
  "(computePhase now rbg p = PhaseTerminating \<longleftrightarrow> marked_for_deletion p) \<and>
   (computePhase now rbg p = PhasePending \<longleftrightarrow> \<not> marked_for_deletion p \<and> rbg = None) \<and>
   (computePhase now rbg p = PhaseRunning \<longleftrightarrow> \<not> marked_for_deletion p \<and>
      (\<exists>g. rbg = Some g \<and> \<not> hasCrashLoop g \<and> allRolesReady g)) \<and>
   (computePhase now rbg p = PhaseInitializing \<longleftrightarrow> \<not> marked_for_deletion p \<and>
      (\<exists>g. rbg = Some g \<and> \<not> hasCrashLoop g \<and> \<not> allRolesReady g \<and> age now p \<le> 30 * Minute)) \<and>
   (computePhase now rbg p = PhaseFailed \<longleftrightarrow> \<not> marked_for_deletion p \<and>
      (\<exists>g. rbg = Some g \<and> (hasCrashLoop g \<or> \<not> allRolesReady g \<and> age now p > 30 * Minute)))"
  by (cases rbg) (auto simp: computePhase_def tooLong_iff)

text \<open>
  Readiness counts replicas as signed numbers over the roles the group reports: the group
  is ready iff it reports at least one role and every reported role has as many ready replicas
  as replicas, and it crashes iff some condition gives CrashLoopBackOff or OOMKilled as its
  reason. The role statuses of the service list the same roles in the same order.
\<close>

lemma readiness_decides:
  "(allRolesReady g \<longleftrightarrow> rgst_RoleStatuses (rbg_Status g) \<noteq> [] \<and>
      list_all (\<lambda>rs. sint (rst_Total rs) \<le> sint (rst_Ready rs)) (buildRoleStatuses g)) \<and>
   (hasCrashLoop g \<longleftrightarrow>
      (\<exists>c. c \<in> set (rgst_Conditions (rbg_Status g)) \<and>
           (cd_Reason c = ''CrashLoopBackOff'' \<or> cd_Reason c = ''OOMKilled''))) \<and>
   map rst_Name (buildRoleStatuses g) = map rrs_Name (rgst_RoleStatuses (rbg_Status g))"
  by (auto simp: allRolesReady_iff hasCrashLoop_iff buildRoleStatuses_def list_all_iff)

lemma setReadyCondition_conditions:
  "st_Conditions (pd_Status (setReadyCondition now p)) =
     (case readyFields (pd_Status p) of (s, r, m) \<Rightarrow>
        upsertReady \<lparr>cd_Type = ''Ready'', cd_Status = s, cd_LastTransitionTime = now, cd_Reason = r,
                      cd_Message = m\<rparr> (st_Conditions (pd_Status p)))"
  by (simp add: setReadyCondition_def Let_def split: prod.split)

lemma upsertReady_distinct:
  "cd_Type newCond = ''Ready'' \<Longrightarrow>
   distinct (map cd_Type (upsertReady newCond cs)) = distinct (map cd_Type cs)"
  by (auto simp: upsertReady_types)

text \<open>
  The Ready condition. \<^verbatim>\<open>setReadyCondition\<close> keeps every other condition and their
  order, adds a Ready condition only when there is none, otherwise rewrites the first one, and
  keeps condition types unique. The written condition has the status, reason and message of
  the phase; its transition time is the current one when it is new or its status changes, and
  the stored one otherwise.
\<close>

lemma setReadyCondition_upserts:
  "other_conditions (st_Conditions (pd_Status (setReadyCondition now p))) =
     other_conditions (st_Conditions (pd_Status p)) \<and>
   distinct (map cd_Type (st_Conditions (pd_Status (setReadyCondition now p)))) =
     distinct (map cd_Type (st_Conditions (pd_Status p))) \<and>
   (\<exists>c. ready_conditions (st_Conditions (pd_Status (setReadyCondition now p))) =
          c # tl (ready_conditions (st_Conditions (pd_Status p))) \<and>
        (cd_Status c, cd_Reason c, cd_Message c) = readyFields (pd_Status p) \<and>
        cd_LastTransitionTime c = (case ready_conditions (st_Conditions (pd_Status p)) of
            [] \<Rightarrow> now
          | old # _ \<Rightarrow> if cd_Status old = cd_Status c then cd_LastTransitionTime old else now))"
proof -
  obtain s r m where f: "readyFields (pd_Status p) = (s, r, m)"
    by (cases "readyFields (pd_Status p)") auto
  then show ?thesis
    by (auto simp: setReadyCondition_conditions upsertReady_other upsertReady_distinct
        upsertReady_ready updateReady_def split: list.split)
qed

text \<open>
  What a group reports, read off its raw status: a condition with one of the two reasons of a crash,
  and at least one role, with as many replicas ready as there are in every role, as signed numbers.
\<close>

abbreviation crash_reported :: "RoleBasedGroup \<Rightarrow> bool" where
  "crash_reported g \<equiv> \<exists>c \<in> set (rgst_Conditions (rbg_Status g)).
     cd_Reason c = ''CrashLoopBackOff'' \<or> cd_Reason c = ''OOMKilled''"

abbreviation roles_up :: "RoleBasedGroup \<Rightarrow> bool" where
  "roles_up g \<equiv> rgst_RoleStatuses (rbg_Status g) \<noteq> [] \<and>
     (\<forall>rs \<in> set (rgst_RoleStatuses (rbg_Status g)). sint (rrs_Replicas rs) \<le> sint (rrs_ReadyReplicas rs))"

lemma group_reports: "hasCrashLoop g \<longleftrightarrow> crash_reported g" "allRolesReady g \<longleftrightarrow> roles_up g"
  by (simp_all add: hasCrashLoop_iff allRolesReady_iff)

lemma computePhase_range:
  "computePhase now rbg p \<in> {PhaseTerminating, PhasePending, PhaseRunning, PhaseInitializing, PhaseFailed}"
  by (simp add: computePhase_def split: option.split)

lemma aggregateStatus_ready:
  obtains c where "other_conditions (st_Conditions (pd_Status (aggregateStatus t1 t2 rbg p))) =
      other_conditions (st_Conditions (pd_Status p))"
    and "ready_conditions (st_Conditions (pd_Status (aggregateStatus t1 t2 rbg p))) =
      c # tl (ready_conditions (st_Conditions (pd_Status p)))"
    and "(cd_Status c, cd_Reason c, cd_Message c) =
      readyFields ((pd_Status p)\<lparr>st_Phase := computePhase t1 rbg p\<rparr>)"
    and "cd_LastTransitionTime c = (case ready_conditions (st_Conditions (pd_Status p)) of
        [] \<Rightarrow> t2
      | old # _ \<Rightarrow> if cd_Status old = cd_Status c then cd_LastTransitionTime old else t2)"
proof -
  obtain q where q: "aggregateStatus t1 t2 rbg p = setReadyCondition t2 q"
      "st_Conditions (pd_Status q) = st_Conditions (pd_Status p)"
      "readyFields (pd_Status q) = readyFields ((pd_Status p)\<lparr>st_Phase := computePhase t1 rbg p\<rparr>)"
    by (cases rbg) (auto simp: aggregateStatus_def Let_def readyFields_def)
  from setReadyCondition_upserts [of t2 q] show thesis
    unfolding q(1) [symmetric] q(2,3) using that by blast
qed

text \<open>A group with one role of two replicas, of which the given number is ready.\<close>

definition sample_group :: "int32 \<Rightarrow> RoleBasedGroup" where
  "sample_group n = \<lparr>rbg_ObjectMeta = empty_ObjectMeta,
     rbg_Spec = \<lparr>rgs_Roles = [], rgs_RoleTemplates = [], rgs_PodGroupPolicy = None, rgs_CoordinationRequirements = []\<rparr>,
     rbg_Status = \<lparr>rgst_Conditions = [],
       rgst_RoleStatuses = [\<lparr>rrs_Name = ''decode'', rrs_ReadyReplicas = n, rrs_Replicas = 2, rrs_UpdatedReplicas = 2\<rparr>]\<rparr>\<rparr>"



end
