(* ===== verification/Controller.thy ===== *)
theory Controller
  imports Rbg_Builder Status
begin

section \<open>The reconciler (\<^verbatim>\<open>internal/controller/pdinferenceservice_controller.go\<close>)\<close>

text \<open>
  \<^verbatim>\<open>Reconcile\<close> and the helpers it calls, as programs over the client record. A variable
  the Go code passes by pointer and reads again afterwards is returned. The result is an
  \<open>outcome\<close>, because the builder may panic.
\<close>

definition finalizer :: string where
  "finalizer = ''pdai.io/finalizer''"

definition with_finalizers :: "PDInferenceService \<Rightarrow> string list \<Rightarrow> PDInferenceService" where
  "with_finalizers p fs = p\<lparr>pd_ObjectMeta := (pd_ObjectMeta p)\<lparr>om_Finalizers := fs\<rparr>\<rparr>"

abbreviation pd_Finalizers :: "PDInferenceService \<Rightarrow> string list" where
  "pd_Finalizers p \<equiv> om_Finalizers (pd_ObjectMeta p)"

definition ensureFinalizer :: "'s client \<Rightarrow> PDInferenceService \<Rightarrow> ('s, go_error + PDInferenceService) state" where
  "ensureFinalizer cl pdis =
     (if ContainsFinalizer (pd_Finalizers pdis) finalizer then State_Monad.return (Inr pdis)
      else Update_PDIS cl (with_finalizers pdis (AddFinalizer (pd_Finalizers pdis) finalizer)))"

definition handleDeletion :: "'s client \<Rightarrow> PDInferenceService \<Rightarrow> ('s, Result \<times> go_error option) state" where
  "handleDeletion cl pdis =
     (if \<not> ContainsFinalizer (pd_Finalizers pdis) finalizer then State_Monad.return (no_requeue, None)
      else do {
        r \<leftarrow> Update_PDIS cl (with_finalizers pdis (RemoveFinalizer (pd_Finalizers pdis) finalizer));
        (case r of
           Inl err \<Rightarrow> State_Monad.return (no_requeue, Some err)
         | Inr _ \<Rightarrow> State_Monad.return (no_requeue, None))
      })"

text \<open>\<^verbatim>\<open>existing.Spec.Roles = desired.Spec.Roles\<close>\<close>

definition with_roles :: "RoleBasedGroup \<Rightarrow> RoleSpec list \<Rightarrow> RoleBasedGroup" where
  "with_roles g roles = g\<lparr>rbg_Spec := (rbg_Spec g)\<lparr>rgs_Roles := roles\<rparr>\<rparr>"

definition err_of :: "go_error + 'a \<Rightarrow> go_error option" where
  "err_of r = (case r of Inl e \<Rightarrow> Some e | Inr _ \<Rightarrow> None)"

lemma err_of_simps [simp]: "err_of (Inl e) = Some e" "err_of (Inr x) = None"
  by (simp_all add: err_of_def)

lemma err_of_None: "err_of r = None \<longleftrightarrow> (\<exists>x. r = Inr x)"
  by (cases r) simp_all

definition applyRBG :: "'s client \<Rightarrow> PDInferenceService \<Rightarrow> RoleBasedGroup \<Rightarrow> ('s, go_error option) state" where
  "applyRBG cl pdis desired = do {
     r \<leftarrow> Get_RBG cl (mk_key (pd_Namespace pdis) (pd_Name pdis));
     (case r of
        Inl err \<Rightarrow> if IsNotFound err
                   then do { c \<leftarrow> Create_RBG cl desired; State_Monad.return (err_of c) }
                   else State_Monad.return (Some (WrapError ''get RBG: '' err))
      | Inr existing \<Rightarrow> do {
          u \<leftarrow> Update_RBG cl (with_roles existing (rgs_Roles (rbg_Spec desired)));
          State_Monad.return (err_of u)
        })
   }"

definition failedStatus :: "string \<Rightarrow> string \<Rightarrow> PDInferenceService \<Rightarrow> PDInferenceService" where
  "failedStatus reason message pdis = pdis\<lparr>pd_Status := (pd_Status pdis)
     \<lparr>st_Phase := PhaseFailed, st_LastEvent := Some \<lparr>evr_Reason = reason, evr_Message = message\<rparr>\<rparr>\<rparr>"

definition setFailedStatus :: "'s client \<Rightarrow> PDInferenceService \<Rightarrow> string \<Rightarrow> string \<Rightarrow>
    ('s, Result \<times> go_error option) state" where
  "setFailedStatus cl pdis reason message = do {
     r \<leftarrow> Status_Update_PDIS cl (failedStatus reason message pdis);
     State_Monad.return (no_requeue, err_of r)
   }"

text \<open>Steps 6 and 7: apply the group, then synchronise the status.\<close>

definition applyAndSync :: "'s client \<Rightarrow> PDInferenceService \<Rightarrow> RoleBasedGroup \<Rightarrow>
    ('s, Result \<times> go_error option) state" where
  "applyAndSync cl pdis desired = do {
     e \<leftarrow> applyRBG cl pdis desired;
     (case e of
        Some err \<Rightarrow> State_Monad.return (no_requeue, Some err)
      | None \<Rightarrow> syncStatus cl pdis)
   }"

definition returning :: "('s, 'a) state \<Rightarrow> ('s, 'a outcome) state" where
  "returning m = do { x \<leftarrow> m; State_Monad.return (Returns x) }"

text \<open>Steps 4 to 7, for an object that carries the finalizer.\<close>

definition reconcileLive :: "quantity_parser \<Rightarrow> 's client \<Rightarrow> PDInferenceService \<Rightarrow>
    ('s, (Result \<times> go_error option) outcome) state" where
  "reconcileLive pq cl pdis = do {
     m \<leftarrow> Resolve cl pdis;
     (case m of
        Inl err \<Rightarrow> returning (setFailedStatus cl pdis ''ProfileResolveFailed'' (Error err))
      | Inr mergedConfig \<Rightarrow>
          (case Build pq pdis mergedConfig of
             Panic p \<Rightarrow> State_Monad.return (Panic p)
           | Returns (Inl err) \<Rightarrow> returning (setFailedStatus cl pdis ''RBGBuildFailed'' (Error err))
           | Returns (Inr desiredRBG) \<Rightarrow> returning (applyAndSync cl pdis desiredRBG)))
   }"

definition Reconcile :: "quantity_parser \<Rightarrow> 's client \<Rightarrow> NamespacedName \<Rightarrow>
    ('s, (Result \<times> go_error option) outcome) state" where
  "Reconcile pq cl req = do {
     g \<leftarrow> Get_PDIS cl req;
     (case g of
        Inl err \<Rightarrow> State_Monad.return (Returns (no_requeue, IgnoreNotFound err))
      | Inr pdis \<Rightarrow>
          if \<not> Time_IsZero (om_DeletionTimestamp (pd_ObjectMeta pdis))
          then returning (handleDeletion cl pdis)
          else do {
            f \<leftarrow> ensureFinalizer cl pdis;
            (case f of
               Inl err \<Rightarrow> State_Monad.return (Returns (no_requeue, Some err))
             | Inr pdis \<Rightarrow> reconcileLive pq cl pdis)
          })
   }"

subsection \<open>Running the pieces\<close>

lemma run_returning [run_simps]:
  "run_state (returning m) s = (Returns (fst (run_state m s)), snd (run_state m s))"
  by (simp add: returning_def case_prod_beta)

lemma with_finalizers_fields [simp]:
  "pd_Spec (with_finalizers p fs) = pd_Spec p"
  "pd_Status (with_finalizers p fs) = pd_Status p"
  "pd_Finalizers (with_finalizers p fs) = fs"
  "pdis_key (with_finalizers p fs) = pdis_key p"
  "om_DeletionTimestamp (pd_ObjectMeta (with_finalizers p fs)) = om_DeletionTimestamp (pd_ObjectMeta p)"
  "om_ResourceVersion (pd_ObjectMeta (with_finalizers p fs)) = om_ResourceVersion (pd_ObjectMeta p)"
  by (simp_all add: with_finalizers_def meta_key_def)

lemma with_roles_fields [simp]:
  "rbg_ObjectMeta (with_roles g roles) = rbg_ObjectMeta g"
  "rbg_Status (with_roles g roles) = rbg_Status g"
  "rgs_Roles (rbg_Spec (with_roles g roles)) = roles"
  "rgs_RoleTemplates (rbg_Spec (with_roles g roles)) = rgs_RoleTemplates (rbg_Spec g)"
  "rgs_PodGroupPolicy (rbg_Spec (with_roles g roles)) = rgs_PodGroupPolicy (rbg_Spec g)"
  "rgs_CoordinationRequirements (rbg_Spec (with_roles g roles)) = rgs_CoordinationRequirements (rbg_Spec g)"
  by (simp_all add: with_roles_def)

lemma failedStatus_fields [simp]:
  "pd_ObjectMeta (failedStatus r m p) = pd_ObjectMeta p"
  "pd_Spec (failedStatus r m p) = pd_Spec p"
  "st_Phase (pd_Status (failedStatus r m p)) = PhaseFailed"
  "st_LastEvent (pd_Status (failedStatus r m p)) = Some \<lparr>evr_Reason = r, evr_Message = m\<rparr>"
  "st_Conditions (pd_Status (failedStatus r m p)) = st_Conditions (pd_Status p)"
  by (simp_all add: failedStatus_def)

text \<open>The build error branch is dead code: the builder's error is always nil.\<close>

lemma reconcileLive_run:
  "run_state (reconcileLive pq cl pdis) s =
     (case run_state (Resolve cl pdis) s of
        (Inl err, s') \<Rightarrow> run_state (returning (setFailedStatus cl pdis ''ProfileResolveFailed'' (Error err))) s'
      | (Inr cfg, s') \<Rightarrow>
          (case Build pq pdis cfg of
             Panic p \<Rightarrow> (Panic p, s')
           | Returns (Inr g) \<Rightarrow> run_state (returning (applyAndSync cl pdis g)) s'))"
proof (cases "run_state (Resolve cl pdis) s")
  case (Pair m s')
  show ?thesis
  proof (cases m)
    case (Inr cfg)
    with Pair show ?thesis
      by (cases rule: Build_cases [of pq pdis cfg]) (simp_all add: reconcileLive_def)
  qed (simp add: reconcileLive_def Pair)
qed

subsection \<open>What the stored objects demand\<close>

text \<open>
  The specification of a reconciliation, over the stored objects alone: the configuration
  merged from the stored profile, the roles the group has to have, and when the stored
  objects of a key agree.
\<close>

definition merged_of :: "cluster \<Rightarrow> PDInferenceService \<Rightarrow> MergedConfig option" where
  "merged_of c p =
     (if sp_EngineProfileRef (pd_Spec p) = '''' then Some (overrideInline (pd_Spec p) zero_MergedConfig)
      else (case cl_profiles c (mk_key (pd_Namespace p) (sp_EngineProfileRef (pd_Spec p))) of
              None \<Rightarrow> None
            | Some f \<Rightarrow> Some (overrideInline (pd_Spec p) (applyProfile f zero_MergedConfig))))"

definition desired_roles :: "quantity_parser \<Rightarrow> cluster \<Rightarrow> PDInferenceService \<Rightarrow> RoleSpec list option" where
  "desired_roles pq c p = (case merged_of c p of
     None \<Rightarrow> None
   | Some cfg \<Rightarrow> (case Build pq p cfg of
       Returns (Inr g) \<Rightarrow> Some (rgs_Roles (rbg_Spec g))
     | _ \<Rightarrow> None))"

definition in_sync :: "quantity_parser \<Rightarrow> cluster \<Rightarrow> NamespacedName \<Rightarrow> bool" where
  "in_sync pq c k \<longleftrightarrow>
     (\<exists>p g. cl_pdis c k = Some p \<and> cl_rbgs c k = Some g \<and>
        Time_IsZero (om_DeletionTimestamp (pd_ObjectMeta p)) \<and>
        finalizer \<in> set (pd_Finalizers p) \<and>
        desired_roles pq c p = Some (rgs_Roles (rbg_Spec g)))"

text \<open>The group of a key is not one the server is about to drop.\<close>

definition rbg_settled :: "cluster \<Rightarrow> NamespacedName \<Rightarrow> bool" where
  "rbg_settled c k \<longleftrightarrow> (\<forall>g. cl_rbgs c k = Some g \<longrightarrow> \<not> gone_after_update (rbg_ObjectMeta g))"

text \<open>The group after a successful apply, from the one stored before and the one built.\<close>

definition applied_to :: "RoleBasedGroup option \<Rightarrow> RoleBasedGroup \<Rightarrow> RoleBasedGroup \<Rightarrow> bool" where
  "applied_to old desired g = (case old of
     None \<Rightarrow> rbg_Spec g = rbg_Spec desired \<and> om_DeletionTimestamp (rbg_ObjectMeta g) = None \<and>
             same_identity (rbg_ObjectMeta desired) (rbg_ObjectMeta g)
   | Some h \<Rightarrow> rbg_Spec g = (rbg_Spec h)\<lparr>rgs_Roles := rgs_Roles (rbg_Spec desired)\<rparr> \<and>
             rbg_Status g = rbg_Status h \<and>
             same_object_meta (rbg_ObjectMeta h) (rbg_ObjectMeta g))"

lemma applied_to_roles:
  "applied_to old desired g \<Longrightarrow> rgs_Roles (rbg_Spec g) = rgs_Roles (rbg_Spec desired)"
  by (simp add: applied_to_def split: option.splits)

lemma applied_to_settled:
  assumes "applied_to old desired g" and "\<And>h. old = Some h \<Longrightarrow> \<not> gone_after_update (rbg_ObjectMeta h)"
  shows "\<not> gone_after_update (rbg_ObjectMeta g)"
  using assms
  by (auto simp: applied_to_def gone_after_update_def same_object_meta_def split: option.splits)

text \<open>The roles depend on the specification only, not on metadata or status.\<close>

lemma Build_roles_cong:
  assumes "pd_Spec p = pd_Spec q" and "Build pq p cfg = Returns (Inr g)"
  shows "\<exists>h. Build pq q cfg = Returns (Inr h) \<and> rgs_Roles (rbg_Spec h) = rgs_Roles (rbg_Spec g)"
  using assms
  by (auto simp: Build_def buildRouterRole_def buildInferenceRole_def Let_def and_then_returns_iff)

lemma merged_of_cong:
  assumes "pd_Spec p = pd_Spec q" and "pd_Namespace p = pd_Namespace q"
    and "cl_profiles c = cl_profiles d"
  shows "merged_of c p = merged_of d q"
  using assms by (simp add: merged_of_def split: option.split)

lemma desired_roles_cong:
  assumes "pd_Spec p = pd_Spec q" and "pd_Namespace p = pd_Namespace q"
    and "cl_profiles c = cl_profiles d" and "desired_roles pq c p = Some roles"
  shows "desired_roles pq d q = Some roles"
proof -
  note m = merged_of_cong [OF assms(1-3), symmetric]
  from assms(4) obtain cfg g where "merged_of c p = Some cfg"
      and "Build pq p cfg = Returns (Inr g)" and "rgs_Roles (rbg_Spec g) = roles"
    by (auto simp: desired_roles_def split: option.splits outcome.splits sum.splits)
  with m Build_roles_cong [OF assms(1), of pq cfg g] show ?thesis
    by (auto simp: desired_roles_def)
qed

lemma Build_key: "Build pq p cfg = Returns (Inr g) \<Longrightarrow> rbg_key g = pdis_key p"
  by (auto simp: Build_returns_iff meta_key_def)

end
