(* ===== verification/Reconcile_Contract.thy ===== *)
theory Reconcile_Contract
  imports Controller
begin

section \<open>What a reconciliation guarantees\<close>

text \<open>
  The lemmas about whole reconciliations, proved once inside the client interfaces of
  \<^verbatim>\<open>Kube_Client\<close>: each step of the controller against the laws of the API server, then
  the composition of the steps. Every other actor of the cluster is absent between the calls
  of one reconciliation; between reconciliations the stored objects are arbitrary.
\<close>

subsection \<open>The branches of a reconciliation\<close>

lemma Reconcile_cases:
  assumes "run_state (Reconcile pq cl req) s = (out, s')"
  obtains (unread) e where "run_state (Get_PDIS cl req) s = (Inl e, s')"
      "out = Returns (no_requeue, IgnoreNotFound e)"
  | (deleting) p s1 r where "run_state (Get_PDIS cl req) s = (Inr p, s1)"
      "\<not> Time_IsZero (om_DeletionTimestamp (pd_ObjectMeta p))"
      "run_state (handleDeletion cl p) s1 = (r, s')" "out = Returns r"
  | (unfinalized) p s1 e where "run_state (Get_PDIS cl req) s = (Inr p, s1)"
      "Time_IsZero (om_DeletionTimestamp (pd_ObjectMeta p))"
      "run_state (ensureFinalizer cl p) s1 = (Inl e, s')" "out = Returns (no_requeue, Some e)"
  | (live) p s1 q s2 where "run_state (Get_PDIS cl req) s = (Inr p, s1)"
      "Time_IsZero (om_DeletionTimestamp (pd_ObjectMeta p))"
      "run_state (ensureFinalizer cl p) s1 = (Inr q, s2)"
      "run_state (reconcileLive pq cl q) s2 = (out, s')"
proof (cases "run_state (Get_PDIS cl req) s")
  case (Pair g s1)
  show thesis
  proof (cases g)
    case (Inl e)
    with Pair assms show thesis by (intro unread) (auto simp: Reconcile_def)
  next
    case p: (Inr p)
    show thesis
    proof (cases "Time_IsZero (om_DeletionTimestamp (pd_ObjectMeta p))")
      case False
      with Pair p assms show thesis
        by (intro deleting) (auto simp: Reconcile_def run_returning)
    next
      case True
      obtain f s2 where f: "run_state (ensureFinalizer cl p) s1 = (f, s2)" by fastforce
      with Pair p True assms show thesis
        by (cases f) (auto simp: Reconcile_def intro: unfinalized live)
    qed
  qed
qed

lemma reconcileLive_cases:
  assumes "run_state (reconcileLive pq cl p) s = (out, s')"
  obtains (failed) e s1 r where "run_state (Resolve cl p) s = (Inl e, s1)"
      "run_state (setFailedStatus cl p ''ProfileResolveFailed'' (Error e)) s1 = (r, s')" "out = Returns r"
  | (panic) cfg m where "run_state (Resolve cl p) s = (Inr cfg, s')" "Build pq p cfg = Panic m" "out = Panic m"
  | (applied) cfg s1 g r where "run_state (Resolve cl p) s = (Inr cfg, s1)"
      "Build pq p cfg = Returns (Inr g)" "run_state (applyAndSync cl p g) s1 = (r, s')" "out = Returns r"
proof (cases "run_state (Resolve cl p) s")
  case (Pair m s1)
  show thesis
  proof (cases m)
    case (Inl e)
    with Pair assms show thesis by (intro failed) (auto simp: reconcileLive_run run_returning)
  next
    case (Inr cfg)
    show thesis
    proof (cases rule: Build_cases [of pq p cfg])
      case (panic m)
      with Inr Pair assms show thesis by (intro that(2)) (auto simp: reconcileLive_run)
    next
      case (group g)
      with Inr Pair assms show thesis
        by (intro that(3)) (auto simp: reconcileLive_run run_returning)
    qed
  qed
qed

lemma applyAndSync_cases:
  assumes "run_state (applyAndSync cl p g) s = (r, s')"
  obtains (refused) e where "run_state (applyRBG cl p g) s = (Some e, s')" "r = (no_requeue, Some e)"
  | (synced) s1 where "run_state (applyRBG cl p g) s = (None, s1)" "run_state (syncStatus cl p) s1 = (r, s')"
proof (cases "run_state (applyRBG cl p g) s")
  case (Pair e s1)
  with assms that show thesis by (cases e) (auto simp: applyAndSync_def)
qed

context kube_writer
begin

subsubsection \<open>The steps\<close>

lemma Resolve_reads:
  assumes "run_state (Resolve api p) s = (r, s')"
  shows "cluster s' = cluster s"
    and "r = Inr cfg \<Longrightarrow> merged_of (cluster s) p = Some cfg"
    and "r = Inl e \<Longrightarrow> IsNotFound e \<Longrightarrow> merged_of (cluster s) p = None"
  using assms
  by (cases rule: Resolve_cases;
      auto simp: merged_of_def dest: get_profile_found get_profile_missing get_profile_frame)+

lemma ensureFinalizer_ok:
  assumes "run_state (ensureFinalizer api p) s = (Inr q, s')"
    and "cl_pdis (cluster s) (pdis_key p) = Some p"
    and "Time_IsZero (om_DeletionTimestamp (pd_ObjectMeta p))"
  shows "cluster s' = (cluster s)\<lparr>cl_pdis := (cl_pdis (cluster s))(pdis_key p \<mapsto> q)\<rparr>"
    and "finalizer \<in> set (pd_Finalizers q)" and "pdis_key q = pdis_key p"
    and "Time_IsZero (om_DeletionTimestamp (pd_ObjectMeta q))"
    and "om_CreationTimestamp (pd_ObjectMeta q) = om_CreationTimestamp (pd_ObjectMeta p)"
    and "pd_Status q = pd_Status p"
    and "pd_Spec q = (if finalizer \<in> set (pd_Finalizers p) then pd_Spec p else admit (pd_Spec p))"
    and "pd_Finalizers q = AddFinalizer (pd_Finalizers p) finalizer"
proof -
  let ?q = "with_finalizers p (AddFinalizer (pd_Finalizers p) finalizer)"
  have "cluster s' = (cluster s)\<lparr>cl_pdis := (cl_pdis (cluster s))(pdis_key p \<mapsto> q)\<rparr> \<and>
      finalizer \<in> set (pd_Finalizers q) \<and> pdis_key q = pdis_key p \<and>
      Time_IsZero (om_DeletionTimestamp (pd_ObjectMeta q)) \<and>
      om_CreationTimestamp (pd_ObjectMeta q) = om_CreationTimestamp (pd_ObjectMeta p) \<and>
      pd_Status q = pd_Status p \<and>
      pd_Spec q = (if finalizer \<in> set (pd_Finalizers p) then pd_Spec p else admit (pd_Spec p)) \<and>
      pd_Finalizers q = AddFinalizer (pd_Finalizers p) finalizer"
  proof (cases "finalizer \<in> set (pd_Finalizers p)")
    case True
    with assms show ?thesis by (auto simp: ensureFinalizer_def AddFinalizer_def fun_upd_idem)
  next
    case False
    with assms(1) have u: "run_state (Update_PDIS api ?q) s = (Inr q, s')"
      by (simp add: ensureFinalizer_def)
    have "\<not> gone_after_update (pd_ObjectMeta ?q)"
      using assms(3) by (simp add: gone_after_update_def)
    from update_pdis_ok [OF u this] assms(2,3) False show ?thesis
      by (auto simp: same_object_meta_def with_finalizers_def meta_key_def)
  qed
  then show "cluster s' = (cluster s)\<lparr>cl_pdis := (cl_pdis (cluster s))(pdis_key p \<mapsto> q)\<rparr>"
    and "finalizer \<in> set (pd_Finalizers q)" and "pdis_key q = pdis_key p"
    and "Time_IsZero (om_DeletionTimestamp (pd_ObjectMeta q))"
    and "om_CreationTimestamp (pd_ObjectMeta q) = om_CreationTimestamp (pd_ObjectMeta p)"
    and "pd_Status q = pd_Status p"
    and "pd_Spec q = (if finalizer \<in> set (pd_Finalizers p) then pd_Spec p else admit (pd_Spec p))"
    and "pd_Finalizers q = AddFinalizer (pd_Finalizers p) finalizer"
    by auto
qed

lemma applyRBG_ok:
  assumes "run_state (applyRBG api p d) s = (None, s')"
    and "rbg_key d = pdis_key p" and "rbg_settled (cluster s) (pdis_key p)"
  shows "\<exists>g. cluster s' = (cluster s)\<lparr>cl_rbgs := (cl_rbgs (cluster s))(pdis_key p \<mapsto> g)\<rparr> \<and>
             applied_to (cl_rbgs (cluster s) (pdis_key p)) d g"
proof -
  obtain r s1 where g: "run_state (Get_RBG api (pdis_key p)) s = (r, s1)" by fastforce
  note c1 = get_rbg_frame [OF g]
  show ?thesis
  proof (cases r)
    case (Inl e)
    with assms(1) g obtain g' where nf: "IsNotFound e"
        and cr: "run_state (Create_RBG api d) s1 = (Inr g', s')"
      by (auto simp: applyRBG_def meta_key_def err_of_None split: if_splits prod.splits)
    have none: "cl_rbgs (cluster s) (pdis_key p) = None"
      using get_rbg_missing [of "pdis_key p" s e s1] g Inl nf by simp
    from create_rbg_ok [OF cr] none show ?thesis
      by (auto simp: applied_to_def c1 assms(2))
  next
    case (Inr h)
    let ?h = "with_roles h (rgs_Roles (rbg_Spec d))"
    from assms(1) g Inr obtain g' where up: "run_state (Update_RBG api ?h) s1 = (Inr g', s')"
      by (auto simp: applyRBG_def meta_key_def err_of_None split: prod.splits)
    have h: "cl_rbgs (cluster s) (pdis_key p) = Some h" "rbg_key h = pdis_key p"
      using get_rbg_found [of "pdis_key p" s h s1] g Inr by simp_all
    then have "\<not> gone_after_update (rbg_ObjectMeta ?h)"
      using assms(3) by (simp add: rbg_settled_def)
    from update_rbg_ok [OF up this] h show ?thesis
      by (auto simp: applied_to_def c1 with_roles_def)
  qed
qed

lemma writeStatus_ok:
  assumes "run_state (writeStatus api rbg p) s = ((res, None), s')"
    and "cl_pdis (cluster s) (pdis_key p) = Some old"
    and "\<not> gone_after_update (pd_ObjectMeta old)"
  shows "res = \<lparr>res_RequeueAfter = 10 * Second\<rparr> \<and>
     (\<exists>t1 t2 q. cluster s' = (cluster s)\<lparr>cl_pdis := (cl_pdis (cluster s))(pdis_key p \<mapsto> q)\<rparr> \<and>
        same_object_meta (pd_ObjectMeta old) (pd_ObjectMeta q) \<and> pd_Spec q = pd_Spec old \<and>
        pd_Status q = pd_Status (aggregateStatus t1 t2 rbg p))"
proof -
  obtain t1 s1 where n1: "run_state (Now api) s = (t1, s1)" by fastforce
  obtain t2 s2 where n2: "run_state (Now api) s1 = (t2, s2)" by fastforce
  let ?a = "aggregateStatus t1 t2 rbg p"
  from assms(1) n1 n2 obtain q where u: "run_state (Status_Update_PDIS api ?a) s2 = (Inr q, s')"
      and res: "res = \<lparr>res_RequeueAfter = 10 * Second\<rparr>"
    by (auto simp: writeStatus_def split: prod.splits sum.splits)
  have c: "cluster s2 = cluster s"
    using now_frame [OF n1] now_frame [OF n2] by simp
  have "cl_pdis (cluster s2) (pdis_key ?a) = Some old" using assms(2) c by simp
  from status_update_pdis_ok [OF u this assms(3)] c res show ?thesis by auto
qed

lemma syncStatus_ok:
  assumes "run_state (syncStatus api p) s = ((res, None), s')"
    and "cl_pdis (cluster s) (pdis_key p) = Some old"
    and "\<not> gone_after_update (pd_ObjectMeta old)"
  shows "res = \<lparr>res_RequeueAfter = 10 * Second\<rparr> \<and>
     (\<exists>t1 t2 q. cluster s' = (cluster s)\<lparr>cl_pdis := (cl_pdis (cluster s))(pdis_key p \<mapsto> q)\<rparr> \<and>
        same_object_meta (pd_ObjectMeta old) (pd_ObjectMeta q) \<and> pd_Spec q = pd_Spec old \<and>
        pd_Status q = pd_Status (aggregateStatus t1 t2 (cl_rbgs (cluster s) (pdis_key p)) p))"
proof -
  obtain r s1 where g: "run_state (Get_RBG api (pdis_key p)) s = (r, s1)" by fastforce
  note c1 = get_rbg_frame [OF g]
  have "run_state (writeStatus api (cl_rbgs (cluster s) (pdis_key p)) p) s1 = ((res, None), s')"
  proof (cases r)
    case (Inl e)
    with assms(1) g have nf: "IsNotFound e"
        and w: "run_state (writeStatus api None p) s1 = ((res, None), s')"
      by (auto simp: syncStatus_def meta_key_def split: if_splits)
    from get_rbg_missing [of "pdis_key p" s e s1] g Inl nf w show ?thesis by simp
  next
    case (Inr h)
    with assms(1) g have w: "run_state (writeStatus api (Some h) p) s1 = ((res, None), s')"
      by (auto simp: syncStatus_def meta_key_def)
    from get_rbg_found [of "pdis_key p" s h s1] g Inr w show ?thesis by simp
  qed
  from writeStatus_ok [OF this, of old] assms(2,3) c1 show ?thesis by simp
qed

lemma setFailedStatus_ok:
  assumes "run_state (setFailedStatus api p reason msg) s = ((res, None), s')"
    and "cl_pdis (cluster s) (pdis_key p) = Some old"
    and "\<not> gone_after_update (pd_ObjectMeta old)"
  shows "res = no_requeue \<and>
     (\<exists>q. cluster s' = (cluster s)\<lparr>cl_pdis := (cl_pdis (cluster s))(pdis_key p \<mapsto> q)\<rparr> \<and>
        same_object_meta (pd_ObjectMeta old) (pd_ObjectMeta q) \<and> pd_Spec q = pd_Spec old \<and>
        pd_Status q = pd_Status (failedStatus reason msg p))"
proof -
  let ?f = "failedStatus reason msg p"
  from assms(1) obtain q where u: "run_state (Status_Update_PDIS api ?f) s = (Inr q, s')"
      and res: "res = no_requeue"
    by (auto simp: setFailedStatus_def err_of_None split: prod.splits)
  have "cl_pdis (cluster s) (pdis_key ?f) = Some old" using assms(2) by simp
  from status_update_pdis_ok [OF u this assms(3)] res show ?thesis by auto
qed

lemma handleDeletion_ok:
  assumes "run_state (handleDeletion api p) s = ((res, None), s')"
    and "cl_pdis (cluster s) (pdis_key p) = Some p"
    and "\<not> Time_IsZero (om_DeletionTimestamp (pd_ObjectMeta p))"
  shows "res = no_requeue \<and> cl_rbgs (cluster s') = cl_rbgs (cluster s) \<and>
     (case cl_pdis (cluster s') (pdis_key p) of
        None \<Rightarrow> finalizer \<in> set (pd_Finalizers p) \<and> (\<forall>f \<in> set (pd_Finalizers p). f = finalizer)
      | Some q \<Rightarrow> pd_Finalizers q = filter (\<lambda>f. f \<noteq> finalizer) (pd_Finalizers p) \<and>
                  (finalizer \<in> set (pd_Finalizers p) \<longrightarrow> pd_Finalizers q \<noteq> []) \<and>
                  pd_Status q = pd_Status p)"
proof (cases "finalizer \<in> set (pd_Finalizers p)")
  case False
  with assms show ?thesis
    by (auto simp: handleDeletion_def intro!: filter_True [symmetric])
next
  case True
  let ?p = "with_finalizers p (RemoveFinalizer (pd_Finalizers p) finalizer)"
  from assms(1) True obtain q where u: "run_state (Update_PDIS api ?p) s = (Inr q, s')"
      and res: "res = no_requeue"
    by (auto simp: handleDeletion_def split: prod.splits sum.splits)
  show ?thesis
  proof (cases "gone_after_update (pd_ObjectMeta ?p)")
    case gone: True
    then have "\<forall>f \<in> set (pd_Finalizers p). f = finalizer"
      by (simp add: gone_after_update_def RemoveFinalizer_filter filter_empty_conv)
    with update_pdis_gone [OF u gone] res True show ?thesis by simp
  next
    case stays: False
    from update_pdis_ok [OF u stays] have "same_object_meta (pd_ObjectMeta ?p) (pd_ObjectMeta q)"
      by blast
    then have "pd_Finalizers q = filter (\<lambda>f. f \<noteq> finalizer) (pd_Finalizers p)"
      by (auto simp: same_object_meta_def RemoveFinalizer_filter)
    moreover from this have "pd_Finalizers q \<noteq> []"
      using stays assms(3) by (simp add: gone_after_update_def RemoveFinalizer_filter)
    ultimately show ?thesis using update_pdis_ok [OF u stays] res assms(2) by auto
  qed
qed

subsubsection \<open>Frames\<close>

lemma ensureFinalizer_frame:
  "run_state (ensureFinalizer api p) s = (r, s') \<Longrightarrow> only_at (pdis_key p) (cluster s) (cluster s')"
  by (auto simp: ensureFinalizer_def intro: only_atI dest!: update_pdis_frame split: if_splits)

lemma handleDeletion_frame:
  assumes "run_state (handleDeletion api p) s = (r, s')"
  shows "only_pdis (pdis_key p) (cluster s) (cluster s')"
  using assms
  by (auto simp: handleDeletion_def only_pdis_def dest!: update_pdis_frame
      split: if_splits prod.splits sum.splits)

lemma setFailedStatus_frame:
  "run_state (setFailedStatus api p reason msg) s = (r, s') \<Longrightarrow>
   only_pdis (pdis_key p) (cluster s) (cluster s')"
  by (auto simp: setFailedStatus_def dest!: status_update_pdis_frame split: prod.splits)

lemma applyRBG_frame:
  assumes "run_state (applyRBG api p d) s = (r, s')" and "rbg_key d = pdis_key p"
  shows "only_at (pdis_key p) (cluster s) (cluster s')"
proof -
  obtain g s1 where g: "run_state (Get_RBG api (pdis_key p)) s = (g, s1)" by fastforce
  note c1 = get_rbg_frame [OF g]
  show ?thesis
  proof (cases g)
    case (Inl e)
    with assms g c1 show ?thesis
      by (auto simp: applyRBG_def meta_key_def intro: only_atI dest!: create_rbg_frame
          split: if_splits prod.splits)
  next
    case (Inr h)
    moreover from this g have "rbg_key h = pdis_key p" using get_rbg_found by blast
    ultimately show ?thesis using assms(1) g c1
      by (auto simp: applyRBG_def meta_key_def intro: only_atI dest!: update_rbg_frame
          split: prod.splits)
  qed
qed

lemma writeStatus_frame:
  "run_state (writeStatus api rbg p) s = (r, s') \<Longrightarrow> only_at (pdis_key p) (cluster s) (cluster s')"
  by (auto simp: writeStatus_def intro: only_atI dest!: status_update_pdis_frame now_frame
      split: prod.splits sum.splits)

lemma syncStatus_frame:
  "run_state (syncStatus api p) s = (r, s') \<Longrightarrow> only_at (pdis_key p) (cluster s) (cluster s')"
  by (auto simp: syncStatus_def meta_key_def intro: only_atI dest!: writeStatus_frame get_rbg_frame
      split: prod.splits sum.splits if_splits)

lemma reconcileLive_frame:
  assumes "run_state (reconcileLive pq api p) s = (out, s')"
  shows "only_at (pdis_key p) (cluster s) (cluster s')"
  using assms
proof (cases rule: reconcileLive_cases)
  case (applied cfg s1 g r)
  from applied(3) have "only_at (pdis_key p) (cluster s1) (cluster s')"
    by (cases rule: applyAndSync_cases)
       (auto intro: applyRBG_frame syncStatus_frame only_at_trans Build_key [OF applied(2)])
  then show ?thesis using Resolve_reads(1) [OF applied(1)] by simp
qed (auto dest!: Resolve_reads(1) setFailedStatus_frame intro: only_atI)

lemma Reconcile_frame:
  assumes "run_state (Reconcile pq api req) s = (out, s')"
  shows "only_at req (cluster s) (cluster s')"
  using assms
proof (cases rule: Reconcile_cases)
  case (deleting p s1 r)
  with get_pdis_found get_pdis_frame handleDeletion_frame show ?thesis by (metis only_atI(1))
next
  case (unfinalized p s1 e)
  with get_pdis_found get_pdis_frame ensureFinalizer_frame show ?thesis by metis
next
  case (live p s1 q s2)
  have p: "pdis_key p = req" "cl_pdis (cluster s1) req = Some p" "cluster s1 = cluster s"
    using get_pdis_found [OF live(1)] get_pdis_frame [OF live(1)] by simp_all
  then have "pdis_key q = req" using ensureFinalizer_ok(3) [OF live(3)] live(2) by simp
  with reconcileLive_frame [OF live(4)] ensureFinalizer_frame [OF live(3)] p show ?thesis
    by (auto intro: only_at_trans)
qed (auto dest!: get_pdis_frame intro: only_atI)

subsubsection \<open>A reconciliation that ends with a requeue\<close>

lemma reconcileLive_failed:
  assumes "run_state (reconcileLive pq api q) s = (Returns (res, None), s')"
    and "run_state (Resolve api q) s = (Inl e, s1)"
    and "cl_pdis (cluster s) (pdis_key q) = Some q" and "\<not> gone_after_update (pd_ObjectMeta q)"
  shows "res = no_requeue \<and>
     (\<exists>q'. cluster s' = (cluster s)\<lparr>cl_pdis := (cl_pdis (cluster s))(pdis_key q \<mapsto> q')\<rparr> \<and>
        same_object_meta (pd_ObjectMeta q) (pd_ObjectMeta q') \<and> pd_Spec q' = pd_Spec q \<and>
        pd_Status q' = pd_Status (failedStatus ''ProfileResolveFailed'' (Error e) q))"
proof -
  from assms(1,2) have f: "run_state (setFailedStatus api q ''ProfileResolveFailed'' (Error e)) s1 =
      ((res, None), s')"
    by (simp add: reconcileLive_run run_returning prod_eq_iff)
  have c: "cluster s1 = cluster s" by (rule Resolve_reads(1) [OF assms(2)])
  show ?thesis
    using setFailedStatus_ok [OF f, of q] assms(3,4) c by simp
qed

lemma reconcileLive_synced:
  assumes "run_state (reconcileLive pq api q) s = (Returns (res, None), s')"
    and "res \<noteq> no_requeue" and "rbg_settled (cluster s) (pdis_key q)"
    and "cl_pdis (cluster s) (pdis_key q) = Some q" and "\<not> gone_after_update (pd_ObjectMeta q)"
  obtains cfg d g q' t1 t2 where "merged_of (cluster s) q = Some cfg"
    and "Build pq q cfg = Returns (Inr d)"
    and "applied_to (cl_rbgs (cluster s) (pdis_key q)) d g"
    and "cluster s' = (cluster s)\<lparr>cl_rbgs := (cl_rbgs (cluster s))(pdis_key q \<mapsto> g),
           cl_pdis := (cl_pdis (cluster s))(pdis_key q \<mapsto> q')\<rparr>"
    and "same_object_meta (pd_ObjectMeta q) (pd_ObjectMeta q')" and "pd_Spec q' = pd_Spec q"
    and "pd_Status q' = pd_Status (aggregateStatus t1 t2 (Some g) q)"
    and "res = \<lparr>res_RequeueAfter = 10 * Second\<rparr>"
  using assms(1)
proof (cases rule: reconcileLive_cases)
  case (failed e s1 r)
  with reconcileLive_failed [OF assms(1) failed(1) assms(4,5)] assms(2) show thesis by simp
next
  case (applied cfg s1 d r)
  have c1: "cluster s1 = cluster s" and m: "merged_of (cluster s) q = Some cfg"
    using Resolve_reads [OF applied(1)] by simp_all
  from applied(3,4) obtain s2 where ap: "run_state (applyRBG api q d) s1 = (None, s2)"
      and sy: "run_state (syncStatus api q) s2 = ((res, None), s')"
    by (cases rule: applyAndSync_cases) auto
  from applyRBG_ok [OF ap Build_key [OF applied(2)]] assms(3) c1 obtain g where
      c2: "cluster s2 = (cluster s)\<lparr>cl_rbgs := (cl_rbgs (cluster s))(pdis_key q \<mapsto> g)\<rparr>" and
      app: "applied_to (cl_rbgs (cluster s) (pdis_key q)) d g" by auto
  have "cl_pdis (cluster s2) (pdis_key q) = Some q" using c2 assms(4) by simp
  from syncStatus_ok [OF sy this assms(5)] c2 show thesis
    by (auto intro: that [OF m applied(2) app])
qed simp

lemma Reconcile_live:
  assumes "run_state (Reconcile pq api req) s = (out, s')"
    and "cl_pdis (cluster s) req = Some p" and "Time_IsZero (om_DeletionTimestamp (pd_ObjectMeta p))"
  obtains (unread) e where "out = Returns (no_requeue, Some e)" "cluster s' = cluster s"
  | (unfinalized) e where "out = Returns (no_requeue, Some e)" "finalizer \<notin> set (pd_Finalizers p)"
  | (live) s1 q s2 where "run_state (ensureFinalizer api p) s1 = (Inr q, s2)" "cluster s1 = cluster s"
      "pdis_key p = req" "run_state (reconcileLive pq api q) s2 = (out, s')"
  using assms(1)
proof (cases rule: Reconcile_cases)
  case (unread e)
  with assms(2) have "\<not> IsNotFound e" using get_pdis_missing by fastforce
  with unread get_pdis_frame [OF unread(1)] show thesis
    by (intro that(1)) (simp_all add: IgnoreNotFound_def)
next
  case (deleting p' s1 r)
  with get_pdis_found [OF deleting(1)] assms(2,3) show thesis by simp
next
  case (unfinalized p' s1 e)
  with get_pdis_found [OF unfinalized(1)] assms(2) have "p' = p" by simp
  with unfinalized show thesis
    by (intro that(2)) (auto simp: ensureFinalizer_def split: if_splits)
next
  case (live p' s1 q s2)
  with get_pdis_found [OF live(1)] get_pdis_frame [OF live(1)] assms(2) show thesis
    by (intro that(3) [of s1 q s2]) auto
qed

text \<open>A requeue is only ever asked for after a synchronised live object.\<close>

lemma Reconcile_requeue_live:
  assumes "run_state (Reconcile pq api req) s = (Returns (res, None), s')" and "res \<noteq> no_requeue"
  obtains p where "cl_pdis (cluster s) req = Some p"
    and "Time_IsZero (om_DeletionTimestamp (pd_ObjectMeta p))"
  using assms(1)
proof (cases rule: Reconcile_cases)
  case (deleting p s1 r)
  have "cl_pdis (cluster s1) (pdis_key p) = Some p"
    using get_pdis_found [OF deleting(1)] get_pdis_frame [OF deleting(1)] by simp
  with handleDeletion_ok [of p s1 res s'] deleting assms(2) show thesis by simp
next
  case (live p s1 q s2)
  with get_pdis_found [OF live(1)] show thesis by (auto intro: that)
qed (use assms(2) in simp_all)

lemma Reconcile_synced:
  assumes "run_state (Reconcile pq api req) s = (Returns (res, None), s')"
    and "res \<noteq> no_requeue" and "rbg_settled (cluster s) req"
  obtains p q q' cfg d g t1 t2 where "cl_pdis (cluster s) req = Some p"
    and "finalizer \<in> set (pd_Finalizers p) \<Longrightarrow> q = p"
    and "pd_Spec q = (if finalizer \<in> set (pd_Finalizers p) then pd_Spec p else admit (pd_Spec p))"
    and "Time_IsZero (om_DeletionTimestamp (pd_ObjectMeta q))"
    and "pd_Finalizers q = AddFinalizer (pd_Finalizers p) finalizer"
    and "finalizer \<in> set (pd_Finalizers q)" and "pdis_key q = req"
    and "merged_of (cluster s) q = Some cfg" and "Build pq q cfg = Returns (Inr d)"
    and "applied_to (cl_rbgs (cluster s) req) d g"
    and "cl_profiles (cluster s') = cl_profiles (cluster s)"
    and "cl_pdis (cluster s') req = Some q'" and "cl_rbgs (cluster s') req = Some g"
    and "same_object_meta (pd_ObjectMeta q) (pd_ObjectMeta q')" and "pd_Spec q' = pd_Spec q"
    and "pd_Status q' = pd_Status (aggregateStatus t1 t2 (Some g) q)"
    and "res = \<lparr>res_RequeueAfter = 10 * Second\<rparr>"
proof -
  obtain p where p: "cl_pdis (cluster s) req = Some p"
      and z: "Time_IsZero (om_DeletionTimestamp (pd_ObjectMeta p))"
    by (rule Reconcile_requeue_live [OF assms(1,2)])
  from assms(1) p z show thesis
  proof (cases rule: Reconcile_live)
    case (live s1 q s2)
    note fin = ensureFinalizer_ok [OF live(1) _ z, unfolded live(2,3), OF p]
    have q_p: "finalizer \<in> set (pd_Finalizers p) \<Longrightarrow> q = p"
      using live(1) by (simp add: ensureFinalizer_def)
    have "rbg_settled (cluster s2) (pdis_key q)"
      using assms(3) fin(1,3) by (simp add: rbg_settled_def)
    moreover have "merged_of (cluster s2) q = merged_of (cluster s) q"
      using fin(1) by (simp add: merged_of_def)
    ultimately show thesis
      using fin(1,3,4)
      by (elim reconcileLive_synced [OF live(4) assms(2)])
         (auto simp: gone_after_update_def intro: that [OF p q_p fin(7,4,8,2,3)])
  qed (use assms(2) in simp_all)
qed

subsubsection \<open>The contract\<close>

lemma Reconcile_converges:
  assumes "run_state (Reconcile pq api req) s = (Returns (res, None), s')"
    and "res \<noteq> no_requeue" and "rbg_settled (cluster s) req"
  shows "in_sync pq (cluster s') req \<and> res = \<lparr>res_RequeueAfter = 10 * Second\<rparr> \<and>
     (\<exists>p. cl_pdis (cluster s') req = Some p \<and> status_reflects (cl_rbgs (cluster s') req) p)"
  using assms
proof (rule Reconcile_synced)
  fix p q q' cfg d g t1 t2
  assume a: "Time_IsZero (om_DeletionTimestamp (pd_ObjectMeta q))" "finalizer \<in> set (pd_Finalizers q)"
    "merged_of (cluster s) q = Some cfg" "Build pq q cfg = Returns (Inr d)"
    "applied_to (cl_rbgs (cluster s) req) d g" "cl_profiles (cluster s') = cl_profiles (cluster s)"
    "cl_pdis (cluster s') req = Some q'" "cl_rbgs (cluster s') req = Some g"
    "same_object_meta (pd_ObjectMeta q) (pd_ObjectMeta q')" "pd_Spec q' = pd_Spec q"
    "pd_Status q' = pd_Status (aggregateStatus t1 t2 (Some g) q)"
    "res = \<lparr>res_RequeueAfter = 10 * Second\<rparr>"
  have "desired_roles pq (cluster s) q = Some (rgs_Roles (rbg_Spec g))"
    using a(3,4) applied_to_roles [OF a(5)] by (simp add: desired_roles_def)
  moreover have "pd_Namespace q = pd_Namespace q'" using a(9) by (auto simp: same_object_meta_def)
  ultimately have "desired_roles pq (cluster s') q' = Some (rgs_Roles (rbg_Spec g))"
    using desired_roles_cong [OF a(10) [symmetric] _ a(6) [symmetric]] by blast
  moreover have "finalizer \<in> set (pd_Finalizers q')" "Time_IsZero (om_DeletionTimestamp (pd_ObjectMeta q'))"
    using a(1,2,9) by (auto simp: same_object_meta_def)
  moreover have "status_reflects (Some g) q'"
    by (rule aggregateStatus_reflects [OF a(11,9)])
  ultimately show ?thesis using a(7,8,12) by (simp add: in_sync_def)
qed

lemma Reconcile_keeps_spec:
  assumes "run_state (Reconcile pq api req) s = (Returns (res, None), s')"
    and "res \<noteq> no_requeue" and "rbg_settled (cluster s) req"
  shows "\<exists>p q. cl_pdis (cluster s) req = Some p \<and> cl_pdis (cluster s') req = Some q \<and>
     pd_Spec q = (if finalizer \<in> set (pd_Finalizers p) then pd_Spec p else admit (pd_Spec p)) \<and>
     pd_Finalizers q = AddFinalizer (pd_Finalizers p) finalizer"
  by (rule Reconcile_synced [OF assms]) (auto simp: same_object_meta_def)

lemma Reconcile_group:
  assumes "run_state (Reconcile pq api req) s = (Returns (res, None), s')"
    and "res \<noteq> no_requeue" and "rbg_settled (cluster s) req"
  obtains q cfg d g where "merged_of (cluster s) q = Some cfg" and "Build pq q cfg = Returns (Inr d)"
    and "pdis_key q = req" and "cl_rbgs (cluster s') req = Some g"
    and "applied_to (cl_rbgs (cluster s) req) d g"
  by (rule Reconcile_synced [OF assms]) (rule that; assumption)

lemma Reconcile_stable:
  assumes "run_state (Reconcile pq api req) s = (Returns (res, None), s')"
    and "in_sync pq (cluster s) req" and "res \<noteq> no_requeue" and "rbg_settled (cluster s) req"
  shows "in_sync pq (cluster s') req \<and>
     map_option pd_Spec (cl_pdis (cluster s') req) = map_option pd_Spec (cl_pdis (cluster s) req) \<and>
     map_option rbg_Spec (cl_rbgs (cluster s') req) = map_option rbg_Spec (cl_rbgs (cluster s) req) \<and>
     map_option rbg_Status (cl_rbgs (cluster s') req) = map_option rbg_Status (cl_rbgs (cluster s) req)"
proof -
  from assms(2) obtain p h where p: "cl_pdis (cluster s) req = Some p" "finalizer \<in> set (pd_Finalizers p)"
      and h: "cl_rbgs (cluster s) req = Some h"
      and roles: "desired_roles pq (cluster s) p = Some (rgs_Roles (rbg_Spec h))"
    unfolding in_sync_def by blast
  from assms(1,3,4) obtain q' cfg d g where m: "merged_of (cluster s) p = Some cfg" "Build pq p cfg = Returns (Inr d)"
      and ap: "applied_to (cl_rbgs (cluster s) req) d g" and s': "cl_pdis (cluster s') req = Some q'"
        "cl_rbgs (cluster s') req = Some g" "pd_Spec q' = pd_Spec p"
    by (rule Reconcile_synced) (use p in auto)
  from m roles have "rgs_Roles (rbg_Spec d) = rgs_Roles (rbg_Spec h)"
    by (simp add: desired_roles_def)
  with ap h have "rbg_Spec g = rbg_Spec h" "rbg_Status g = rbg_Status h"
    by (simp_all add: applied_to_def)
  with s' p h Reconcile_converges [OF assms(1,3,4)] show ?thesis by simp
qed

lemma Reconcile_deleting:
  assumes "run_state (Reconcile pq api req) s = (Returns (res, None), s')"
    and "cl_pdis (cluster s) req = Some p" and "\<not> Time_IsZero (om_DeletionTimestamp (pd_ObjectMeta p))"
  shows "res = no_requeue \<and> cl_rbgs (cluster s') = cl_rbgs (cluster s) \<and>
     (case cl_pdis (cluster s') req of
        None \<Rightarrow> finalizer \<in> set (pd_Finalizers p) \<and> (\<forall>f \<in> set (pd_Finalizers p). f = finalizer)
      | Some q \<Rightarrow> pd_Finalizers q = filter (\<lambda>f. f \<noteq> finalizer) (pd_Finalizers p) \<and>
                  (finalizer \<in> set (pd_Finalizers p) \<longrightarrow> pd_Finalizers q \<noteq> []) \<and>
                  pd_Status q = pd_Status p)"
  using assms(1)
proof (cases rule: Reconcile_cases)
  case (unread e)
  with get_pdis_missing [OF unread(1)] assms(2) show ?thesis
    by (auto simp: IgnoreNotFound_def split: if_splits)
next
  case (deleting p' s1 r)
  have p': "p' = p" "pdis_key p = req" "cluster s1 = cluster s"
    using get_pdis_found [OF deleting(1)] get_pdis_frame [OF deleting(1)] assms(2) by auto
  with deleting(3,4) have "run_state (handleDeletion api p) s1 = ((res, None), s')" by simp
  from handleDeletion_ok [OF this _ assms(3)] p' assms(2) show ?thesis by simp
next
  case (live p' s1 q s2)
  with get_pdis_found [OF live(1)] assms(2,3) show ?thesis by simp
qed simp

lemma Reconcile_failed_profile:
  assumes "run_state (Reconcile pq api req) s = (Returns (res, None), s')"
    and "cl_pdis (cluster s) req = Some p" and "Time_IsZero (om_DeletionTimestamp (pd_ObjectMeta p))"
    and "admit (pd_Spec p) = pd_Spec p" and "merged_of (cluster s) p = None"
  shows "res = no_requeue \<and> cl_rbgs (cluster s') = cl_rbgs (cluster s) \<and>
     (\<exists>q e. cl_pdis (cluster s') req = Some q \<and> pd_Spec q = pd_Spec p \<and>
        pd_Status q = pd_Status (failedStatus ''ProfileResolveFailed''
          (''get profile '' @ go_quote (sp_EngineProfileRef (pd_Spec p)) @ '': '' @ Error e) p))"
  using assms(1-3)
proof (cases rule: Reconcile_live)
  case (live s1 q s2)
  note fin = ensureFinalizer_ok [OF live(1) _ assms(3), unfolded live(2,3), OF assms(2)]
  have spec: "pd_Spec q = pd_Spec p" using fin(7) assms(4) by simp
  have "meta_key (pd_ObjectMeta q) = meta_key (pd_ObjectMeta p)" using fin(3) live(3) by simp
  then have "pd_Namespace q = pd_Namespace p" by (simp add: meta_key_def)
  then have none: "merged_of (cluster s2) q = None"
    using merged_of_cong [OF spec, of "cluster s2" "cluster s"] assms(5) fin(1) by simp
  obtain r s3 where r: "run_state (Resolve api q) s2 = (r, s3)" by fastforce
  with none obtain e where e: "r = Inl e" using Resolve_reads(2) [OF r] by (cases r) auto
  from r e none obtain e0 where msg: "e = WrapError (''get profile '' @
      go_quote (sp_EngineProfileRef (pd_Spec p)) @ '': '') e0"
    by (cases rule: Resolve_cases) (auto simp: spec)
  have "cl_pdis (cluster s2) (pdis_key q) = Some q" "\<not> gone_after_update (pd_ObjectMeta q)"
    using fin(1,3,4) by (simp_all add: gone_after_update_def)
  from reconcileLive_failed [OF live(4) r [unfolded e] this] msg fin(1,3,6) spec show ?thesis
    by (auto simp: failedStatus_def intro!: exI [of _ e0])
qed simp_all

text \<open>The phase Terminating is never written.\<close>

lemma Reconcile_never_terminating:
  assumes "run_state (Reconcile pq api req) s = (Returns (res, None), s')" and "rbg_settled (cluster s) req"
    and "cl_pdis (cluster s) req = Some p" and "cl_pdis (cluster s') req = Some p'"
    and "st_Phase (pd_Status p) \<noteq> PhaseTerminating"
  shows "st_Phase (pd_Status p') \<noteq> PhaseTerminating"
proof (cases "Time_IsZero (om_DeletionTimestamp (pd_ObjectMeta p))")
  case False
  from Reconcile_deleting [OF assms(1,3) this] assms(4,5) show ?thesis by simp
next
  case z: True
  show ?thesis
  proof (cases "res = no_requeue")
    case False
    from assms(1) False assms(2) show ?thesis
      by (rule Reconcile_synced) (use assms(4) in \<open>auto simp: computePhase_def\<close>)
  next
    case True
    from assms(1,3) z show ?thesis
    proof (cases rule: Reconcile_live)
      case (live s1 q s2)
      note fin = ensureFinalizer_ok [OF live(1) _ z, unfolded live(2,3), OF assms(3)]
      have q2: "cl_pdis (cluster s2) (pdis_key q) = Some q" "\<not> gone_after_update (pd_ObjectMeta q)"
        using fin(1,3,4) by (simp_all add: gone_after_update_def)
      from live(4) show ?thesis
      proof (cases rule: reconcileLive_cases)
        case (failed e s3 r)
        from reconcileLive_failed [OF live(4) failed(1) q2] assms(4) fin(3) show ?thesis by auto
      next
        case (applied cfg s3 d r)
        from applied(3,4) obtain s4 where "run_state (applyRBG api q d) s3 = (None, s4)"
            and sy: "run_state (syncStatus api q) s4 = ((res, None), s')"
          by (cases rule: applyAndSync_cases) auto
        then show ?thesis using True
          by (auto simp: syncStatus_def writeStatus_def no_requeue_def Second_def
              split: prod.splits sum.splits if_splits)
      qed simp
    qed (use assms in auto)
  qed
qed

text \<open>A panic leaves every group alone and blames a quantity of the specification.\<close>

lemma Reconcile_panic:
  assumes "run_state (Reconcile pq api req) s = (Panic m, s')"
  shows "cl_rbgs (cluster s') = cl_rbgs (cluster s) \<and>
     (\<exists>q. cl_pdis (cluster s') req = Some q \<and> Time_IsZero (om_DeletionTimestamp (pd_ObjectMeta q)) \<and>
        (\<exists>t \<in> set (spec_quantities (pd_Spec q)). \<not> parses pq t))"
  using assms
proof (cases rule: Reconcile_cases)
  case (live p s1 q s2)
  have p: "pdis_key p = req" "cl_pdis (cluster s1) (pdis_key p) = Some p" "cluster s1 = cluster s"
    using get_pdis_found [OF live(1)] get_pdis_frame [OF live(1)] by auto
  note fin = ensureFinalizer_ok [OF live(3) p(2) live(2)]
  from live(4) show ?thesis
  proof (cases rule: reconcileLive_cases)
    case (panic cfg m')
    have "\<not> returns (Build pq q cfg)" using panic(2) by simp
    then have "\<exists>t \<in> set (spec_quantities (pd_Spec q)). \<not> parses pq t"
      by (simp add: returns_Build)
    with fin(1,4) p Resolve_reads(1) [OF panic(1)] show ?thesis by auto
  qed simp_all
qed simp_all

end

subsection \<open>Progress on a server that answers\<close>

text \<open>
  The stored objects of a key allow a reconciliation to go through: a live service whose
  specification survives admission, whose profile is there and whose quantities parse.
\<close>

definition reconcilable :: "quantity_parser \<Rightarrow> (PDInferenceServiceSpec \<Rightarrow> PDInferenceServiceSpec) \<Rightarrow>
    cluster \<Rightarrow> NamespacedName \<Rightarrow> PDInferenceServiceSpec \<Rightarrow> bool" where
  "reconcilable pq adm c k spec \<longleftrightarrow> (\<exists>p. cl_pdis c k = Some p \<and> pd_Spec p = spec \<and>
     Time_IsZero (om_DeletionTimestamp (pd_ObjectMeta p)) \<and> adm spec = spec \<and> rbg_settled c k \<and>
     merged_of c p \<noteq> None \<and> (\<forall>t \<in> set (spec_quantities spec). parses pq t))"

text \<open>The state after a number of reconciliations of one key.\<close>

primrec reconciles :: "quantity_parser \<Rightarrow> 's client \<Rightarrow> NamespacedName \<Rightarrow> nat \<Rightarrow> 's \<Rightarrow> 's" where
  "reconciles pq cl req 0 s = s"
| "reconciles pq cl req (Suc n) s = snd (run_state (Reconcile pq cl req) (reconciles pq cl req n s))"

context kube_reliable
begin

lemma Resolve_total:
  assumes "ok s" and "merged_of (cluster s) p = Some cfg"
  shows "\<exists>s'. run_state (Resolve api p) s = (Inr cfg, s') \<and> ok s' \<and> cluster s' = cluster s"
proof (cases "sp_EngineProfileRef (pd_Spec p) = ''''")
  case True
  with assms show ?thesis by (simp add: Resolve_without_profile merged_of_def)
next
  case False
  with assms(2) obtain f where
      f: "cl_profiles (cluster s) (mk_key (pd_Namespace p) (sp_EngineProfileRef (pd_Spec p))) = Some f"
      and cfg: "cfg = overrideInline (pd_Spec p) (applyProfile f zero_MergedConfig)"
    by (auto simp: merged_of_def split: option.splits)
  from get_profile_stored [OF assms(1) f] obtain s' where
      g: "run_state (Get_Profile api (mk_key (pd_Namespace p) (sp_EngineProfileRef (pd_Spec p)))) s = (Inr f, s')"
      and o: "ok s'" by blast
  from Resolve_with_profile [OF False g] get_profile_frame [OF g] o cfg show ?thesis by blast
qed

lemma Resolve_missing:
  assumes "ok s" and "merged_of (cluster s) p = None"
  shows "\<exists>e s'. run_state (Resolve api p) s = (Inl e, s') \<and> ok s' \<and> cluster s' = cluster s"
proof -
  let ?k = "mk_key (pd_Namespace p) (sp_EngineProfileRef (pd_Spec p))"
  from assms(2) have r: "sp_EngineProfileRef (pd_Spec p) \<noteq> ''''" "cl_profiles (cluster s) ?k = None"
    by (auto simp: merged_of_def split: if_splits option.splits)
  from get_profile_absent [OF assms(1) r(2)] obtain e s' where
      g: "run_state (Get_Profile api ?k) s = (Inl e, s')" and o: "ok s'" by blast
  from Resolve_profile_error [OF r(1) g] get_profile_frame [OF g] o show ?thesis by blast
qed

lemma ensureFinalizer_total:
  assumes "ok s" and "cl_pdis (cluster s) (pdis_key p) = Some p"
  shows "\<exists>q s'. run_state (ensureFinalizer api p) s = (Inr q, s') \<and> ok s'"
proof (cases "finalizer \<in> set (pd_Finalizers p)")
  case False
  let ?q = "with_finalizers p (AddFinalizer (pd_Finalizers p) finalizer)"
  from False show ?thesis
    using update_pdis_accepted [OF assms(1), of ?q p] assms(2)
    by (simp add: ensureFinalizer_def with_finalizers_def meta_key_def)
qed (use assms(1) in \<open>simp add: ensureFinalizer_def\<close>)

lemma applyRBG_total:
  assumes "ok s" and "rbg_key d = pdis_key p" and "rbg_Name d \<noteq> ''''"
    and "om_ResourceVersion (rbg_ObjectMeta d) = ''''"
  shows "\<exists>s'. run_state (applyRBG api p d) s = (None, s') \<and> ok s'"
proof (cases "cl_rbgs (cluster s) (pdis_key p)")
  case None
  from get_rbg_absent [OF assms(1) None] obtain e s1 where
      g: "run_state (Get_RBG api (pdis_key p)) s = (Inl e, s1)" "IsNotFound e" "ok s1" by blast
  from None get_rbg_frame [OF g(1)] assms(2) have "cl_rbgs (cluster s1) (rbg_key d) = None" by simp
  from create_rbg_accepted [OF g(3) this assms(3,4)] g show ?thesis
    by (auto simp: applyRBG_def meta_key_def)
next
  case (Some h)
  let ?h = "with_roles h (rgs_Roles (rbg_Spec d))"
  from get_rbg_stored [OF assms(1) Some] obtain s1 where
      g: "run_state (Get_RBG api (pdis_key p)) s = (Inr h, s1)" "ok s1" by blast
  from get_rbg_found [OF g(1)] get_rbg_frame [OF g(1)]
  have "cl_rbgs (cluster s1) (rbg_key ?h) = Some h" by simp
  from update_rbg_accepted [OF g(2) this] g show ?thesis
    by (auto simp: applyRBG_def meta_key_def)
qed

lemma writeStatus_total:
  assumes "ok s" and "cl_pdis (cluster s) (pdis_key p) = Some old"
    and "pd_ObjectMeta p = pd_ObjectMeta old"
  shows "\<exists>s'. run_state (writeStatus api rbg p) s = ((\<lparr>res_RequeueAfter = 10 * Second\<rparr>, None), s') \<and> ok s'"
proof -
  from now_total [OF assms(1)] obtain t1 s1 where n1: "run_state (Now api) s = (t1, s1)" "ok s1" by blast
  from now_total [OF n1(2)] obtain t2 s2 where n2: "run_state (Now api) s1 = (t2, s2)" "ok s2" by blast
  have "cl_pdis (cluster s2) (pdis_key (aggregateStatus t1 t2 rbg p)) = Some old"
    using assms(2) now_frame [OF n1(1)] now_frame [OF n2(1)] by simp
  from status_update_accepted [OF n2(2) this] assms(3) n1 n2 show ?thesis
    by (auto simp: writeStatus_def)
qed

lemma syncStatus_total:
  assumes "ok s" and "cl_pdis (cluster s) (pdis_key p) = Some old"
    and "pd_ObjectMeta p = pd_ObjectMeta old"
  shows "\<exists>s'. run_state (syncStatus api p) s = ((\<lparr>res_RequeueAfter = 10 * Second\<rparr>, None), s') \<and> ok s'"
proof (cases "cl_rbgs (cluster s) (pdis_key p)")
  case None
  from get_rbg_absent [OF assms(1) None] obtain e s1 where
      g: "run_state (Get_RBG api (pdis_key p)) s = (Inl e, s1)" "IsNotFound e" "ok s1" by blast
  from writeStatus_total [OF g(3) _ assms(3)] get_rbg_frame [OF g(1)] assms(2) g(1,2) show ?thesis
    by (simp add: syncStatus_def meta_key_def)
next
  case (Some h)
  from get_rbg_stored [OF assms(1) Some] obtain s1 where
      g: "run_state (Get_RBG api (pdis_key p)) s = (Inr h, s1)" "ok s1" by blast
  from writeStatus_total [OF g(2) _ assms(3)] get_rbg_frame [OF g(1)] assms(2) g(1) show ?thesis
    by (simp add: syncStatus_def meta_key_def)
qed

text \<open>The read and the finalizer step of a live object, with what they leave behind.\<close>

lemma Reconcile_enters:
  assumes "ok s" and "cl_pdis (cluster s) req = Some p"
    and "Time_IsZero (om_DeletionTimestamp (pd_ObjectMeta p))" and "admit (pd_Spec p) = pd_Spec p"
  obtains q s2 where "run_state (Reconcile pq api req) s = run_state (reconcileLive pq api q) s2"
    and "ok s2" and "pd_Spec q = pd_Spec p" and "pdis_key q = req"
    and "cl_pdis (cluster s2) (pdis_key q) = Some q" and "pd_Name q \<noteq> ''''"
    and "cl_rbgs (cluster s2) = cl_rbgs (cluster s)"
    and "merged_of (cluster s2) q = merged_of (cluster s) p"
proof -
  from get_pdis_stored [OF assms(1,2)] obtain s1 where
      g: "run_state (Get_PDIS api req) s = (Inr p, s1)" "ok s1" by blast
  have p: "pdis_key p = req" and c1: "cluster s1 = cluster s"
    using get_pdis_found [OF g(1)] get_pdis_frame [OF g(1)] by simp_all
  then have p1: "cl_pdis (cluster s1) (pdis_key p) = Some p" using assms(2) by simp
  from ensureFinalizer_total [OF g(2) p1] obtain q s2 where
      f: "run_state (ensureFinalizer api p) s1 = (Inr q, s2)" "ok s2" by blast
  note fin = ensureFinalizer_ok [OF f(1) p1 assms(3)]
  have spec: "pd_Spec q = pd_Spec p" using fin(7) assms(4) by simp
  have "pd_Namespace q = pd_Namespace p" using fin(3) by (simp add: meta_key_def)
  then have "merged_of (cluster s2) q = merged_of (cluster s) p"
    using merged_of_cong [OF spec, of "cluster s2" "cluster s"] fin(1) c1 by simp
  moreover have "cl_pdis (cluster s2) (pdis_key q) = Some q" using fin(1,3) by simp
  ultimately show thesis
    using that [OF _ f(2) spec] stored_named [OF f(2), of "pdis_key q" q] g(1) f(1) assms(3) fin(1,3) p c1
    by (simp add: Reconcile_def)
qed

lemma Reconcile_progress:
  assumes "ok s" and "cl_pdis (cluster s) req = Some p"
    and "Time_IsZero (om_DeletionTimestamp (pd_ObjectMeta p))" and "admit (pd_Spec p) = pd_Spec p"
    and "rbg_settled (cluster s) req"
    and "merged_of (cluster s) p \<noteq> None" and "\<forall>t \<in> set (spec_quantities (pd_Spec p)). parses pq t"
  shows "\<exists>s'. run_state (Reconcile pq api req) s = (Returns (\<lparr>res_RequeueAfter = 10 * Second\<rparr>, None), s') \<and>
     ok s' \<and> in_sync pq (cluster s') req"
proof -
  from assms(1-4) obtain q s2 where
      r: "run_state (Reconcile pq api req) s = run_state (reconcileLive pq api q) s2"
      and q: "ok s2" "pd_Spec q = pd_Spec p" "pdis_key q = req"
        "cl_pdis (cluster s2) (pdis_key q) = Some q" "pd_Name q \<noteq> ''''"
        "cl_rbgs (cluster s2) = cl_rbgs (cluster s)" "merged_of (cluster s2) q = merged_of (cluster s) p"
    by (rule Reconcile_enters)
  from assms(6) q(7) obtain cfg where "merged_of (cluster s2) q = Some cfg" by auto
  from Resolve_total [OF q(1) this] obtain s3 where
      s3: "run_state (Resolve api q) s2 = (Inr cfg, s3)" "ok s3" "cluster s3 = cluster s2" by blast
  have "returns (Build pq q cfg)" using assms(7) q(2) by (simp add: returns_Build)
  then obtain d where d: "Build pq q cfg = Returns (Inr d)"
    by (cases rule: Build_cases [of pq q cfg]) auto
  then have "rbg_Name d \<noteq> ''''" "om_ResourceVersion (rbg_ObjectMeta d) = ''''"
    using q(5) by (auto simp: Build_returns_iff empty_ObjectMeta_def)
  from applyRBG_total [OF s3(2) Build_key [OF d] this] obtain s4 where
      s4: "run_state (applyRBG api q d) s3 = (None, s4)" "ok s4" by blast
  have "rbg_settled (cluster s3) (pdis_key q)"
    using assms(5) q(3,6) s3(3) by (simp add: rbg_settled_def)
  from applyRBG_ok [OF s4(1) Build_key [OF d] this] q(4) s3(3)
  have "cl_pdis (cluster s4) (pdis_key q) = Some q" by auto
  from syncStatus_total [OF s4(2) this] obtain s' where
      s': "run_state (syncStatus api q) s4 = ((\<lparr>res_RequeueAfter = 10 * Second\<rparr>, None), s')" "ok s'" by blast
  have "run_state (Reconcile pq api req) s = (Returns (\<lparr>res_RequeueAfter = 10 * Second\<rparr>, None), s')"
    using r s3 d s4 s' by (simp add: reconcileLive_run run_returning applyAndSync_def)
  with Reconcile_converges [OF this _ assms(5)] s'(2) show ?thesis
    by (auto simp: no_requeue_def Second_def)
qed

lemma Reconcile_reconcilable:
  assumes "ok s" and "reconcilable pq admit (cluster s) req spec"
  shows "\<exists>s'. run_state (Reconcile pq api req) s = (Returns (\<lparr>res_RequeueAfter = 10 * Second\<rparr>, None), s') \<and>
     ok s' \<and> in_sync pq (cluster s') req \<and> reconcilable pq admit (cluster s') req spec"
proof -
  from assms(2) obtain p where p: "cl_pdis (cluster s) req = Some p" "pd_Spec p = spec"
      "Time_IsZero (om_DeletionTimestamp (pd_ObjectMeta p))" "admit spec = spec"
      "rbg_settled (cluster s) req" "merged_of (cluster s) p \<noteq> None"
      "\<forall>t \<in> set (spec_quantities spec). parses pq t"
    unfolding reconcilable_def by blast
  from Reconcile_progress [OF assms(1) p(1,3) _ p(5,6)] p(2,4,7) obtain s' where
      r: "run_state (Reconcile pq api req) s = (Returns (\<lparr>res_RequeueAfter = 10 * Second\<rparr>, None), s')"
      and s': "ok s'" "in_sync pq (cluster s') req" by auto
  have ne: "\<lparr>res_RequeueAfter = 10 * Second\<rparr> \<noteq> no_requeue" by (simp add: no_requeue_def Second_def)
  from r ne p(5) have "reconcilable pq admit (cluster s') req spec"
  proof (rule Reconcile_synced)
    fix p' q q' cfg d g t1 t2
    assume a: "cl_pdis (cluster s) req = Some p'" "finalizer \<in> set (pd_Finalizers p') \<Longrightarrow> q = p'"
      "Time_IsZero (om_DeletionTimestamp (pd_ObjectMeta q))" "merged_of (cluster s) q = Some cfg"
      "applied_to (cl_rbgs (cluster s) req) d g" "cl_profiles (cluster s') = cl_profiles (cluster s)"
      "cl_pdis (cluster s') req = Some q'" "cl_rbgs (cluster s') req = Some g"
      "same_object_meta (pd_ObjectMeta q) (pd_ObjectMeta q')" "pd_Spec q' = pd_Spec q"
    note sp = Reconcile_keeps_spec [OF r ne p(5)]
    have "pd_Spec q' = spec" using sp a(1,7) p by (simp split: if_splits)
    moreover have "rbg_settled (cluster s') req"
      using applied_to_settled [OF a(5)] p(5) a(8) by (auto simp: rbg_settled_def)
    moreover have "pd_Namespace q' = pd_Namespace q" using a(9) by (auto simp: same_object_meta_def)
    then have "merged_of (cluster s') q' \<noteq> None"
      using merged_of_cong [OF a(10) _ a(6)] a(4) by simp
    moreover have "Time_IsZero (om_DeletionTimestamp (pd_ObjectMeta q'))"
      using a(3,9) by (auto simp: same_object_meta_def)
    ultimately show ?thesis using a(7) p(4,7) by (auto simp: reconcilable_def)
  qed
  with r s' show ?thesis by blast
qed

lemma reconciles_stay:
  assumes "ok s" and "reconcilable pq admit (cluster s) req spec"
  shows "ok (reconciles pq api req n s) \<and> reconcilable pq admit (cluster (reconciles pq api req n s)) req spec \<and>
     (0 < n \<longrightarrow> in_sync pq (cluster (reconciles pq api req n s)) req)"
proof (induction n)
  case (Suc n)
  then show ?case
    using Reconcile_reconcilable [of "reconciles pq api req n s" pq req spec] by auto
qed (use assms in simp)

lemma reconciles_group:
  assumes "ok s" and "reconcilable pq admit (cluster s) req spec"
  shows "map_option rbg_Spec (cl_rbgs (cluster (reconciles pq api req (Suc n) s)) req) =
         map_option rbg_Spec (cl_rbgs (cluster (reconciles pq api req (Suc 0) s)) req)"
proof (induction n)
  case (Suc n)
  let ?t = "reconciles pq api req (Suc n) s"
  note st = reconciles_stay [OF assms, of "Suc n"]
  then obtain s' where r: "run_state (Reconcile pq api req) ?t =
      (Returns (\<lparr>res_RequeueAfter = 10 * Second\<rparr>, None), s')"
    using Reconcile_reconcilable [of ?t pq req spec] by auto
  have "rbg_settled (cluster ?t) req" "in_sync pq (cluster ?t) req"
    using st by (auto simp: reconcilable_def)
  with Reconcile_stable [OF r] have "map_option rbg_Spec (cl_rbgs (cluster s') req) =
      map_option rbg_Spec (cl_rbgs (cluster ?t) req)"
    by (simp add: no_requeue_def Second_def)
  with r Suc show ?case by simp
qed simp

lemma Reconcile_always_panics:
  assumes "ok s" and "cl_pdis (cluster s) req = Some p"
    and "Time_IsZero (om_DeletionTimestamp (pd_ObjectMeta p))" and "admit (pd_Spec p) = pd_Spec p"
    and "merged_of (cluster s) p \<noteq> None" and "\<exists>t \<in> set (spec_quantities (pd_Spec p)). \<not> parses pq t"
  shows "\<exists>m s'. run_state (Reconcile pq api req) s = (Panic m, s') \<and> ok s'"
proof -
  from assms(1-4) obtain q s2 where
      r: "run_state (Reconcile pq api req) s = run_state (reconcileLive pq api q) s2"
      and q: "ok s2" "pd_Spec q = pd_Spec p" "merged_of (cluster s2) q = merged_of (cluster s) p"
    by (rule Reconcile_enters)
  from assms(5) q(3) obtain cfg where "merged_of (cluster s2) q = Some cfg" by auto
  from Resolve_total [OF q(1) this] obtain s3 where
      s3: "run_state (Resolve api q) s2 = (Inr cfg, s3)" "ok s3" by blast
  have "\<not> returns (Build pq q cfg)" using assms(6) q(2) by (auto simp: returns_Build)
  with s3 r show ?thesis
    by (cases rule: Build_cases [of pq q cfg]) (auto simp: reconcileLive_run)
qed

lemma Reconcile_finishes_deletion:
  assumes "ok s" and "cl_pdis (cluster s) req = Some p"
    and "\<not> Time_IsZero (om_DeletionTimestamp (pd_ObjectMeta p))"
  shows "\<exists>s'. run_state (Reconcile pq api req) s = (Returns (no_requeue, None), s') \<and> ok s'"
proof -
  from get_pdis_stored [OF assms(1,2)] obtain s1 where
      g: "run_state (Get_PDIS api req) s = (Inr p, s1)" "ok s1" by blast
  have "cl_pdis (cluster s1) (pdis_key p) = Some p"
    using get_pdis_found [OF g(1)] get_pdis_frame [OF g(1)] by simp
  then have "\<exists>s'. run_state (handleDeletion api p) s1 = ((no_requeue, None), s') \<and> ok s'"
    using update_pdis_accepted [OF g(2),
        of "with_finalizers p (RemoveFinalizer (pd_Finalizers p) finalizer)" p] g(2)
    by (auto simp: handleDeletion_def with_finalizers_def meta_key_def)
  with g(1) assms(3) show ?thesis by (auto simp: Reconcile_def run_returning)
qed

lemma Reconcile_reports_failure:
  assumes "ok s" and "cl_pdis (cluster s) req = Some p"
    and "Time_IsZero (om_DeletionTimestamp (pd_ObjectMeta p))" and "admit (pd_Spec p) = pd_Spec p"
    and "merged_of (cluster s) p = None"
  shows "\<exists>s'. run_state (Reconcile pq api req) s = (Returns (no_requeue, None), s') \<and> ok s'"
proof -
  from assms(1-4) obtain q s2 where
      r: "run_state (Reconcile pq api req) s = run_state (reconcileLive pq api q) s2"
      and q: "ok s2" "cl_pdis (cluster s2) (pdis_key q) = Some q"
        "merged_of (cluster s2) q = merged_of (cluster s) p"
    by (rule Reconcile_enters)
  from Resolve_missing [OF q(1), of q] q(3) assms(5) obtain e s3 where
      s3: "run_state (Resolve api q) s2 = (Inl e, s3)" "ok s3" "cluster s3 = cluster s2" by auto
  have "cl_pdis (cluster s3) (pdis_key (failedStatus ''ProfileResolveFailed'' (Error e) q)) = Some q"
    using q(2) s3(3) by simp
  from status_update_accepted [OF s3(2) this] obtain p' s' where
      "run_state (Status_Update_PDIS api (failedStatus ''ProfileResolveFailed'' (Error e) q)) s3 = (Inr p', s')" "ok s'"
    by auto
  with r s3(1) show ?thesis
    by (auto simp: reconcileLive_run run_returning setFailedStatus_def)
qed

end

end
