(* ===== verification/Rest_Api.thy ===== *)
theory Rest_Api
  imports Kube_Client
begin

section \<open>The REST server (\<^verbatim>\<open>internal/apiserver\<close>)\<close>

text \<open>
  The handlers of \<^verbatim>\<open>handler/pdinferenceservice.go\<close> and
  \<^verbatim>\<open>handler/pdengineprofile.go\<close> and the routes of \<^verbatim>\<open>server.go\<close>. A handler runs over
  two clients, the writing one and the uncached reader. A request carries its method, the
  segments of its cleaned and unescaped path and its body; a response is a status code and the
  value the handler encodes. \<^verbatim>\<open>json.Decoder.Decode\<close> into the three request types is the
  parameter \<open>decoders\<close>: an error text or a value.
\<close>

record 's Handler =
  h_client :: "'s client"
  h_reader :: "'s client"

definition New :: "'s client \<Rightarrow> 's client \<Rightarrow> 's Handler" where
  "New cl reader = \<lparr>h_client = cl, h_reader = reader\<rparr>"

lemma New_fields [simp]: "h_client (New cl reader) = cl" "h_reader (New cl reader) = reader"
  by (simp_all add: New_def)

record updateRequest =
  ur_Model :: string
  ur_Prefill :: "int32 option option"
  ur_Decode :: "int32 option option"

record decoders =
  dec_pdis :: "string \<Rightarrow> string + PDInferenceService"
  dec_profile :: "string \<Rightarrow> string + PDEngineProfile"
  dec_update :: "string \<Rightarrow> string + updateRequest"

datatype Body =
    NoBody
  | TextBody string
  | JsonPDIS PDInferenceService
  | JsonProfile PDEngineProfile
  | JsonPDISItems "PDInferenceService list"
  | JsonProfileItems "PDEngineProfile list"

record Response =
  rp_Code :: nat
  rp_Body :: Body

definition StatusOK :: nat where "StatusOK = 200"
definition StatusCreated :: nat where "StatusCreated = 201"
definition StatusBadRequest :: nat where "StatusBadRequest = 400"
definition StatusNotFound :: nat where "StatusNotFound = 404"
definition StatusMethodNotAllowed :: nat where "StatusMethodNotAllowed = 405"
definition StatusInternalServerError :: nat where "StatusInternalServerError = 500"

lemmas Status_codes = StatusOK_def StatusCreated_def StatusBadRequest_def StatusNotFound_def
  StatusMethodNotAllowed_def StatusInternalServerError_def

definition http_Error :: "string \<Rightarrow> nat \<Rightarrow> Response" where
  "http_Error msg code = \<lparr>rp_Code = code, rp_Body = TextBody (msg @ [char_of (10::nat)])\<rparr>"

definition write_json :: "nat \<Rightarrow> Body \<Rightarrow> Response" where
  "write_json code b = \<lparr>rp_Code = code, rp_Body = b\<rparr>"

lemma response_code [simp]: "rp_Code (http_Error m c) = c" "rp_Code (write_json c b) = c"
  by (simp_all add: http_Error_def write_json_def)

definition default_ns :: string where
  "default_ns = ''default''"

subsection \<open>Services\<close>

definition defaultNamespace :: "ObjectMeta \<Rightarrow> ObjectMeta" where
  "defaultNamespace m = (if om_Namespace m = '''' then m\<lparr>om_Namespace := default_ns\<rparr> else m)"

definition Create :: "decoders \<Rightarrow> 's Handler \<Rightarrow> string \<Rightarrow> ('s, Response) state" where
  "Create dec h body = (case dec_pdis dec body of
     Inl err \<Rightarrow> State_Monad.return (http_Error err StatusBadRequest)
   | Inr pdis \<Rightarrow> do {
       r \<leftarrow> Create_PDIS (h_client h) (pdis\<lparr>pd_ObjectMeta := defaultNamespace (pd_ObjectMeta pdis)\<rparr>);
       (case r of
          Inl err \<Rightarrow> State_Monad.return (http_Error (Error err) StatusInternalServerError)
        | Inr created \<Rightarrow> State_Monad.return (write_json StatusCreated (JsonPDIS created)))
     })"

definition ListServices :: "'s Handler \<Rightarrow> ('s, Response) state" where
  "ListServices h = do {
     r \<leftarrow> List_PDIS (h_reader h) default_ns;
     (case r of
        Inl err \<Rightarrow> State_Monad.return (http_Error (Error err) StatusInternalServerError)
      | Inr l \<Rightarrow> State_Monad.return (write_json StatusOK (JsonPDISItems (pdl_Items l))))
   }"

text \<open>The answer to a failed read of a named object.\<close>

definition read_error :: "go_error \<Rightarrow> Response" where
  "read_error err = (if IsNotFound err then http_Error ''not found'' StatusNotFound
     else http_Error (Error err) StatusInternalServerError)"

definition Get :: "'s Handler \<Rightarrow> string \<Rightarrow> ('s, Response) state" where
  "Get h name = do {
     r \<leftarrow> Get_PDIS (h_reader h) (mk_key default_ns name);
     (case r of
        Inl err \<Rightarrow> State_Monad.return (read_error err)
      | Inr pdis \<Rightarrow> State_Monad.return (write_json StatusOK (JsonPDIS pdis)))
   }"

text \<open>The two assignments of \<^verbatim>\<open>Update\<close>.\<close>

definition setReplicas :: "updateRequest \<Rightarrow> PDInferenceServiceSpec \<Rightarrow> PDInferenceServiceSpec" where
  "setReplicas req spec =
     (let spec = (case ur_Prefill req of Some (Some n) \<Rightarrow>
                    spec\<lparr>sp_Prefill := (sp_Prefill spec)\<lparr>irs_Replicas := n\<rparr>\<rparr> | _ \<Rightarrow> spec);
          spec = (case ur_Decode req of Some (Some n) \<Rightarrow>
                    spec\<lparr>sp_Decode := (sp_Decode spec)\<lparr>irs_Replicas := n\<rparr>\<rparr> | _ \<Rightarrow> spec)
      in spec)"

definition Update :: "decoders \<Rightarrow> 's Handler \<Rightarrow> string \<Rightarrow> string \<Rightarrow> ('s, Response) state" where
  "Update dec h name body = (case dec_update dec body of
     Inl err \<Rightarrow> State_Monad.return (http_Error err StatusBadRequest)
   | Inr req \<Rightarrow>
       if ur_Model req \<noteq> '''' then State_Monad.return (http_Error ''model is immutable'' StatusBadRequest)
       else do {
         r \<leftarrow> Get_PDIS (h_reader h) (mk_key default_ns name);
         (case r of
            Inl err \<Rightarrow> State_Monad.return (read_error err)
          | Inr pdis \<Rightarrow> do {
              u \<leftarrow> Update_PDIS (h_client h) (pdis\<lparr>pd_Spec := setReplicas req (pd_Spec pdis)\<rparr>);
              (case u of
                 Inl err \<Rightarrow> State_Monad.return (http_Error (Error err) StatusInternalServerError)
               | Inr updated \<Rightarrow> State_Monad.return (write_json StatusOK (JsonPDIS updated)))
            })
       })"

text \<open>A deletion of something that is not there answers 200 too.\<close>

definition delete_error :: "go_error \<Rightarrow> Response" where
  "delete_error err = (if IsNotFound err then write_json StatusOK NoBody
     else http_Error (Error err) StatusInternalServerError)"

definition delete_answer :: "go_error option \<Rightarrow> Response" where
  "delete_answer r = (case r of Some err \<Rightarrow> delete_error err | None \<Rightarrow> write_json StatusOK NoBody)"

definition Delete :: "'s Handler \<Rightarrow> string \<Rightarrow> ('s, Response) state" where
  "Delete h name = do {
     r \<leftarrow> Get_PDIS (h_reader h) (mk_key default_ns name);
     (case r of
        Inl err \<Rightarrow> State_Monad.return (delete_error err)
      | Inr pdis \<Rightarrow> do {
          d \<leftarrow> Delete_PDIS (h_client h) pdis;
          State_Monad.return (delete_answer d)
        })
   }"

subsection \<open>Profiles\<close>

definition ListProfiles :: "'s Handler \<Rightarrow> ('s, Response) state" where
  "ListProfiles h = do {
     r \<leftarrow> List_Profile (h_reader h) default_ns;
     (case r of
        Inl err \<Rightarrow> State_Monad.return (http_Error (Error err) StatusInternalServerError)
      | Inr l \<Rightarrow> State_Monad.return (write_json StatusOK (JsonProfileItems (epl_Items l))))
   }"

definition CreateProfile :: "decoders \<Rightarrow> 's Handler \<Rightarrow> string \<Rightarrow> ('s, Response) state" where
  "CreateProfile dec h body = (case dec_profile dec body of
     Inl err \<Rightarrow> State_Monad.return (http_Error err StatusBadRequest)
   | Inr profile \<Rightarrow> do {
       r \<leftarrow> Create_Profile (h_client h) (profile\<lparr>ep_ObjectMeta := defaultNamespace (ep_ObjectMeta profile)\<rparr>);
       (case r of
          Inl err \<Rightarrow> State_Monad.return (http_Error (Error err) StatusInternalServerError)
        | Inr created \<Rightarrow> State_Monad.return (write_json StatusCreated (JsonProfile created)))
     })"

definition GetProfile :: "'s Handler \<Rightarrow> string \<Rightarrow> ('s, Response) state" where
  "GetProfile h name = do {
     r \<leftarrow> Get_Profile (h_reader h) (mk_key default_ns name);
     (case r of
        Inl err \<Rightarrow> State_Monad.return (read_error err)
      | Inr profile \<Rightarrow> State_Monad.return (write_json StatusOK (JsonProfile profile)))
   }"

definition UpdateProfile :: "decoders \<Rightarrow> 's Handler \<Rightarrow> string \<Rightarrow> string \<Rightarrow> ('s, Response) state" where
  "UpdateProfile dec h name body = (case dec_profile dec body of
     Inl err \<Rightarrow> State_Monad.return (http_Error err StatusBadRequest)
   | Inr req \<Rightarrow> do {
       r \<leftarrow> Get_Profile (h_reader h) (mk_key default_ns name);
       (case r of
          Inl err \<Rightarrow> State_Monad.return (read_error err)
        | Inr profile \<Rightarrow> do {
            u \<leftarrow> Update_Profile (h_client h) (profile\<lparr>ep_Spec := ep_Spec req\<rparr>);
            (case u of
               Inl err \<Rightarrow> State_Monad.return (http_Error (Error err) StatusInternalServerError)
             | Inr updated \<Rightarrow> State_Monad.return (write_json StatusOK (JsonProfile updated)))
          })
     })"

definition DeleteProfile :: "'s Handler \<Rightarrow> string \<Rightarrow> ('s, Response) state" where
  "DeleteProfile h name = do {
     r \<leftarrow> Get_Profile (h_reader h) (mk_key default_ns name);
     (case r of
        Inl err \<Rightarrow> State_Monad.return (delete_error err)
      | Inr profile \<Rightarrow> do {
          d \<leftarrow> Delete_Profile (h_client h) profile;
          State_Monad.return (delete_answer d)
        })
   }"

subsection \<open>Routing\<close>

text \<open>
  \<^verbatim>\<open>http.ServeMux\<close> with the patterns of \<^verbatim>\<open>server.go\<close>. A pattern is a method and
  path segments; a wildcard segment binds one non-empty segment, and a GET pattern also serves
  HEAD. A path that only patterns of other methods match is answered 405, any other 404.
\<close>

datatype Seg = Lit string | Wild

datatype Route = RList | RCreate | RGet | RUpdate | RDelete
  | RListProfiles | RCreateProfile | RGetProfile | RUpdateProfile | RDeleteProfile | RHealthz

definition services_path :: "Seg list" where
  "services_path = [Lit ''api'', Lit ''v1'', Lit ''pd-inference-services'']"

definition profiles_path :: "Seg list" where
  "profiles_path = [Lit ''api'', Lit ''v1'', Lit ''pd-engine-profiles'']"

definition patterns :: "(string \<times> Seg list \<times> Route) list" where
  "patterns = [
     (''GET'', services_path, RList),
     (''POST'', services_path, RCreate),
     (''GET'', services_path @ [Wild], RGet),
     (''PUT'', services_path @ [Wild], RUpdate),
     (''DELETE'', services_path @ [Wild], RDelete),
     (''GET'', profiles_path, RListProfiles),
     (''POST'', profiles_path, RCreateProfile),
     (''GET'', profiles_path @ [Wild], RGetProfile),
     (''PUT'', profiles_path @ [Wild], RUpdateProfile),
     (''DELETE'', profiles_path @ [Wild], RDeleteProfile),
     (''GET'', [Lit ''healthz''], RHealthz)]"

record Request =
  rq_Method :: string
  rq_Path :: "string list"
  rq_Body :: string

fun seg_matches :: "Seg \<Rightarrow> string \<Rightarrow> bool" where
  "seg_matches (Lit l) s = (s = l)"
| "seg_matches Wild s = (s \<noteq> '''')"

definition path_matches :: "Seg list \<Rightarrow> string list \<Rightarrow> bool" where
  "path_matches pat path = list_all2 seg_matches pat path"

definition method_matches :: "string \<Rightarrow> string \<Rightarrow> bool" where
  "method_matches pat m = (m = pat \<or> (pat = ''GET'' \<and> m = ''HEAD''))"

definition find_route :: "string \<Rightarrow> string list \<Rightarrow> Route option" where
  "find_route m path = map_option (\<lambda>(_, _, r). r)
     (find (\<lambda>(pm, pat, _). method_matches pm m \<and> path_matches pat path) patterns)"

definition path_known :: "string list \<Rightarrow> bool" where
  "path_known path = list_ex (\<lambda>(_, pat, _). path_matches pat path) patterns"

text \<open>\<^verbatim>\<open>r.PathValue\<close>: every wildcard of the patterns is the last segment.\<close>

definition PathValue :: "string list \<Rightarrow> string" where
  "PathValue path = (if path = [] then '''' else last path)"

definition dispatch :: "decoders \<Rightarrow> 's Handler \<Rightarrow> Request \<Rightarrow> Route \<Rightarrow> ('s, Response) state" where
  "dispatch dec h rq r = (let name = PathValue (rq_Path rq) in
     case r of
       RList \<Rightarrow> ListServices h
     | RCreate \<Rightarrow> Create dec h (rq_Body rq)
     | RGet \<Rightarrow> Get h name
     | RUpdate \<Rightarrow> Update dec h name (rq_Body rq)
     | RDelete \<Rightarrow> Delete h name
     | RListProfiles \<Rightarrow> ListProfiles h
     | RCreateProfile \<Rightarrow> CreateProfile dec h (rq_Body rq)
     | RGetProfile \<Rightarrow> GetProfile h name
     | RUpdateProfile \<Rightarrow> UpdateProfile dec h name (rq_Body rq)
     | RDeleteProfile \<Rightarrow> DeleteProfile h name
     | RHealthz \<Rightarrow> State_Monad.return (write_json StatusOK NoBody))"

definition ServeHTTP :: "decoders \<Rightarrow> 's Handler \<Rightarrow> Request \<Rightarrow> ('s, Response) state" where
  "ServeHTTP dec h rq = (case find_route (rq_Method rq) (rq_Path rq) of
     Some r \<Rightarrow> dispatch dec h rq r
   | None \<Rightarrow> State_Monad.return
       (if path_known (rq_Path rq) then http_Error ''Method Not Allowed'' StatusMethodNotAllowed
        else http_Error ''404 page not found'' StatusNotFound))"

subsection \<open>Facts about the pieces\<close>

lemma defaultNamespace_fields [simp]:
  "om_Name (defaultNamespace m) = om_Name m"
  "om_Namespace (defaultNamespace m) = (if om_Namespace m = '''' then default_ns else om_Namespace m)"
  "om_DeletionTimestamp (defaultNamespace m) = om_DeletionTimestamp m"
  "om_Finalizers (defaultNamespace m) = om_Finalizers m"
  by (simp_all add: defaultNamespace_def)

text \<open>Everything of a specification but the two replica counts.\<close>

definition clear_replicas :: "PDInferenceServiceSpec \<Rightarrow> PDInferenceServiceSpec" where
  "clear_replicas spec = spec\<lparr>sp_Prefill := (sp_Prefill spec)\<lparr>irs_Replicas := 0\<rparr>,
     sp_Decode := (sp_Decode spec)\<lparr>irs_Replicas := 0\<rparr>\<rparr>"

definition requested :: "int32 option option \<Rightarrow> int32 \<Rightarrow> int32" where
  "requested r old = (case r of Some (Some n) \<Rightarrow> n | _ \<Rightarrow> old)"

lemma setReplicas_effect:
  "clear_replicas (setReplicas req spec) = clear_replicas spec"
  "irs_Replicas (sp_Prefill (setReplicas req spec)) = requested (ur_Prefill req) (irs_Replicas (sp_Prefill spec))"
  "irs_Replicas (sp_Decode (setReplicas req spec)) = requested (ur_Decode req) (irs_Replicas (sp_Decode spec))"
  by (simp_all add: setReplicas_def clear_replicas_def requested_def Let_def split: option.split)

text \<open>The routes, by the shape of the path.\<close>

lemma patterns_safe:
  "find_route m path = Some r \<Longrightarrow> m = ''GET'' \<or> m = ''HEAD'' \<Longrightarrow>
   r \<in> {RList, RGet, RListProfiles, RGetProfile, RHealthz}"
  by (auto simp: find_route_def patterns_def method_matches_def split: if_splits)

lemma patterns_create:
  "find_route m path = Some r \<Longrightarrow> m \<noteq> ''POST'' \<Longrightarrow> r \<notin> {RCreate, RCreateProfile}"
  by (auto simp: find_route_def patterns_def method_matches_def split: if_splits)

lemma find_route_known: "find_route m path = Some r \<Longrightarrow> path_known path"
  by (auto simp: find_route_def path_known_def find_Some_iff list_ex_iff)
     (metis (mono_tags, lifting) case_prod_conv nth_mem)

lemma collection_paths:
  "path_matches services_path path \<longleftrightarrow> path = [''api'', ''v1'', ''pd-inference-services'']"
  "path_matches profiles_path path \<longleftrightarrow> path = [''api'', ''v1'', ''pd-engine-profiles'']"
  "path_matches [Lit ''healthz''] path \<longleftrightarrow> path = [''healthz'']"
  by (auto simp: path_matches_def services_path_def profiles_path_def list_all2_Cons1)

lemma item_paths:
  "path_matches (services_path @ [Wild]) path \<longleftrightarrow>
     (\<exists>name. name \<noteq> '''' \<and> path = [''api'', ''v1'', ''pd-inference-services'', name])"
  "path_matches (profiles_path @ [Wild]) path \<longleftrightarrow>
     (\<exists>name. name \<noteq> '''' \<and> path = [''api'', ''v1'', ''pd-engine-profiles'', name])"
  by (auto simp: path_matches_def services_path_def profiles_path_def list_all2_Cons1)

lemma path_known_iff:
  "path_known path \<longleftrightarrow>
     (\<exists>coll \<in> {''pd-inference-services'', ''pd-engine-profiles''}.
        path = [''api'', ''v1'', coll] \<or> (\<exists>name. name \<noteq> '''' \<and> path = [''api'', ''v1'', coll, name])) \<or>
     path = [''healthz'']"
proof -
  have "path_known path \<longleftrightarrow> path_matches services_path path \<or> path_matches (services_path @ [Wild]) path \<or>
      path_matches profiles_path path \<or> path_matches (profiles_path @ [Wild]) path \<or>
      path_matches [Lit ''healthz''] path"
    unfolding path_known_def patterns_def by simp
  then show ?thesis unfolding collection_paths item_paths by blast
qed

subsection \<open>What the handlers guarantee\<close>

context kube_rest
begin

lemma Create_201:
  assumes "run_state (Create dec (New api rd) body) s = (rp, s')" and "rp_Code rp = StatusCreated"
  obtains p p' where "dec_pdis dec body = Inr p" and "rp_Body rp = JsonPDIS p'"
    and "cl_pdis (cluster s) (meta_key (defaultNamespace (pd_ObjectMeta p))) = None"
    and "cluster s' = (cluster s)\<lparr>cl_pdis := (cl_pdis (cluster s))
           (meta_key (defaultNamespace (pd_ObjectMeta p)) \<mapsto> p')\<rparr>"
    and "same_identity (defaultNamespace (pd_ObjectMeta p)) (pd_ObjectMeta p')"
    and "om_DeletionTimestamp (pd_ObjectMeta p') = None" and "pd_Spec p' = admit (pd_Spec p)"
proof -
  from assms obtain p where d: "dec_pdis dec body = Inr p"
    by (cases "dec_pdis dec body") (auto simp: Create_def Status_codes)
  let ?p = "p\<lparr>pd_ObjectMeta := defaultNamespace (pd_ObjectMeta p)\<rparr>"
  from assms d obtain p' where c: "run_state (Create_PDIS api ?p) s = (Inr p', s')"
      and rp: "rp = write_json StatusCreated (JsonPDIS p')"
    by (auto simp: Create_def Status_codes split: prod.splits sum.splits)
  from create_pdis_ok [OF c] rp d show thesis
    by (intro that [of p p']) (auto simp: write_json_def)
qed

text \<open>The clients may differ; a state of the server answers both alike.\<close>

lemma Get_answer:
  assumes "ok s"
  shows "\<exists>s'. run_state (Get (New cl api) name) s =
      ((case cl_pdis (cluster s) (mk_key default_ns name) of
          Some p \<Rightarrow> write_json StatusOK (JsonPDIS p)
        | None \<Rightarrow> http_Error ''not found'' StatusNotFound), s') \<and> ok s' \<and> cluster s' = cluster s"
proof (cases "cl_pdis (cluster s) (mk_key default_ns name)")
  case None
  from get_pdis_absent [OF assms None] obtain e s' where
      g: "run_state (Get_PDIS api (mk_key default_ns name)) s = (Inl e, s')" "IsNotFound e" "ok s'" by blast
  with None get_pdis_frame [OF g(1)] show ?thesis by (simp add: Get_def read_error_def)
next
  case (Some p)
  from get_pdis_stored [OF assms Some] obtain s' where
      g: "run_state (Get_PDIS api (mk_key default_ns name)) s = (Inr p, s')" "ok s'" by blast
  with Some get_pdis_frame [OF g(1)] show ?thesis by (simp add: Get_def)
qed

lemma Update_200:
  assumes "run_state (Update dec (New api api) name body) s = (rp, s')" and "rp_Code rp = StatusOK"
    and "\<And>p. cl_pdis (cluster s) (mk_key default_ns name) = Some p \<Longrightarrow> \<not> gone_after_update (pd_ObjectMeta p)"
  obtains req old new where "dec_update dec body = Inr req" and "ur_Model req = ''''"
    and "cl_pdis (cluster s) (mk_key default_ns name) = Some old" and "rp_Body rp = JsonPDIS new"
    and "cluster s' = (cluster s)\<lparr>cl_pdis := (cl_pdis (cluster s))(mk_key default_ns name \<mapsto> new)\<rparr>"
    and "same_object_meta (pd_ObjectMeta old) (pd_ObjectMeta new)" and "pd_Status new = pd_Status old"
    and "pd_Spec new = admit (setReplicas req (pd_Spec old))"
proof -
  let ?k = "mk_key default_ns name"
  from assms(1,2) obtain req where d: "dec_update dec body = Inr req" "ur_Model req = ''''"
    by (cases "dec_update dec body") (auto simp: Update_def Status_codes split: if_splits)
  obtain g s1 where g: "run_state (Get_PDIS api ?k) s = (g, s1)" by fastforce
  with assms(1,2) d obtain old where old: "g = Inr old"
    by (cases g) (auto simp: Update_def read_error_def Status_codes split: if_splits)
  let ?p = "old\<lparr>pd_Spec := setReplicas req (pd_Spec old)\<rparr>"
  from assms(1,2) d g old obtain new where u: "run_state (Update_PDIS api ?p) s1 = (Inr new, s')"
      and rp: "rp = write_json StatusOK (JsonPDIS new)"
    by (auto simp: Update_def Status_codes split: prod.splits sum.splits)
  have c: "cl_pdis (cluster s) ?k = Some old" "pdis_key old = ?k" "cluster s1 = cluster s"
    using get_pdis_found [of ?k s old s1] get_pdis_frame [OF g] g old by simp_all
  from assms(3) [OF c(1)] update_pdis_ok [OF u] c rp d show thesis
    by (intro that [of req old new]) (auto simp: write_json_def)
qed

lemma Delete_answer:
  assumes "ok s"
  shows "\<exists>s'. run_state (Delete (New api api) name) s = (write_json StatusOK NoBody, s') \<and> ok s' \<and>
     only_pdis (mk_key default_ns name) (cluster s) (cluster s') \<and>
     (case cl_pdis (cluster s) (mk_key default_ns name) of
        None \<Rightarrow> cl_pdis (cluster s') (mk_key default_ns name) = None
      | Some old \<Rightarrow> pdis_after_delete old (cl_pdis (cluster s') (mk_key default_ns name)))"
proof (cases "cl_pdis (cluster s) (mk_key default_ns name)")
  case None
  from get_pdis_absent [OF assms None] obtain e s' where
      g: "run_state (Get_PDIS api (mk_key default_ns name)) s = (Inl e, s')" "IsNotFound e" "ok s'" by blast
  with None get_pdis_frame [OF g(1)] show ?thesis by (simp add: Delete_def delete_error_def only_pdis_def)
next
  case (Some p)
  from get_pdis_stored [OF assms Some] obtain s1 where
      g: "run_state (Get_PDIS api (mk_key default_ns name)) s = (Inr p, s1)" "ok s1" by blast
  have c: "pdis_key p = mk_key default_ns name" "cluster s1 = cluster s"
    using get_pdis_found [OF g(1)] get_pdis_frame [OF g(1)] by simp_all
  then have "cl_pdis (cluster s1) (pdis_key p) = Some p" using Some by simp
  from delete_pdis_accepted [OF g(2) this] obtain s' where
      d: "run_state (Delete_PDIS api p) s1 = (None, s')" by blast
  have "ok s'" using rest_keeps_ok(3) [OF g(2), of p] d by simp
  with delete_pdis_ok [OF d] delete_pdis_frame [OF d] c g(1) d Some show ?thesis
    by (auto simp: Delete_def delete_answer_def)
qed

lemma dispatch_reads:
  assumes "r \<in> {RList, RGet, RListProfiles, RGetProfile, RHealthz}"
    and "run_state (dispatch dec (New cl api) rq r) s = (rp, s')"
  shows "cluster s' = cluster s"
  using assms
  by (auto simp: dispatch_def ListServices_def Get_def ListProfiles_def GetProfile_def
      dest: list_pdis_frame list_profile_frame get_pdis_frame get_profile_frame
      split: prod.splits sum.splits)

lemma ServeHTTP_safe:
  assumes "run_state (ServeHTTP dec (New cl api) rq) s = (rp, s')"
    and "rq_Method rq = ''GET'' \<or> rq_Method rq = ''HEAD''"
  shows "cluster s' = cluster s"
proof (cases "find_route (rq_Method rq) (rq_Path rq)")
  case (Some r)
  from patterns_safe [OF Some assms(2)] assms(1) Some show ?thesis
    by (intro dispatch_reads [of r dec cl rq s rp]) (simp_all add: ServeHTTP_def)
qed (use assms(1) in \<open>simp add: ServeHTTP_def\<close>)

lemma CreateProfile_201:
  assumes "run_state (CreateProfile dec (New api rd) body) s = (rp, s')" and "rp_Code rp = StatusCreated"
  obtains f f' where "dec_profile dec body = Inr f" and "rp_Body rp = JsonProfile f'"
    and "cl_profiles (cluster s') (meta_key (defaultNamespace (ep_ObjectMeta f))) = Some f'"
    and "same_identity (defaultNamespace (ep_ObjectMeta f)) (ep_ObjectMeta f')" and "ep_Spec f' = ep_Spec f"
proof -
  from assms obtain f where d: "dec_profile dec body = Inr f"
    by (cases "dec_profile dec body") (auto simp: CreateProfile_def Status_codes)
  let ?f = "f\<lparr>ep_ObjectMeta := defaultNamespace (ep_ObjectMeta f)\<rparr>"
  from assms d obtain f' where c: "run_state (Create_Profile api ?f) s = (Inr f', s')"
      and rp: "rp = write_json StatusCreated (JsonProfile f')"
    by (auto simp: CreateProfile_def Status_codes split: prod.splits sum.splits)
  from create_profile_ok [OF c] rp d show thesis
    by (intro that [of f f']) (auto simp: write_json_def)
qed

end

end
