(* ===== verification/Fake_Client.thy ===== *)
theory Fake_Client
  imports Kube_Client "HOL-Library.Char_ord" "HOL-Library.List_Lexorder" "HOL-Library.Product_Lexorder"
begin

section \<open>An in-memory API server (\<^verbatim>\<open>sigs.k8s.io/controller-runtime/pkg/client/fake\<close>)\<close>

text \<open>
  The client the repository's own tests run the program against: the vendored fake client over
  client-go's object tracker, with the status subresource enabled. One generic tracker serves
  the three kinds; a kind supplies the accessors the Go code gets from \<^verbatim>\<open>meta.Accessor\<close>.
  The tracker's map from namespaced names to objects is the list of its values, each found
  under the key in its own metadata. Managed fields, dry runs and watches are left out, and
  the type metadata, which every read resets, is dropped when an object is stored. The
  theory interprets the client interfaces on it: the assumptions of the other theories are
  consistent, and their conclusions hold for the client the tests use.
\<close>

record 'o kind =
  kd_resource :: string
  kd_meta :: "'o \<Rightarrow> ObjectMeta"
  kd_set_meta :: "ObjectMeta \<Rightarrow> 'o \<Rightarrow> 'o"
  kd_copy_status :: "'o \<Rightarrow> 'o \<Rightarrow> 'o"
  kd_clear_type :: "'o \<Rightarrow> 'o"

definition kd_key :: "'o kind \<Rightarrow> 'o \<Rightarrow> NamespacedName" where
  "kd_key K x = meta_key (kd_meta K x)"

subsection \<open>Resource versions\<close>

text \<open>\<^verbatim>\<open>strconv.ParseUint(s, 10, 64)\<close>: digits only, at least one, below \<open>2 ^ 64\<close>.\<close>

definition digit_val :: "char \<Rightarrow> nat option" where
  "digit_val c = (let n = of_char c :: nat in if 48 \<le> n \<and> n \<le> 57 then Some (n - 48) else None)"

fun parse_digits :: "nat \<Rightarrow> string \<Rightarrow> nat option" where
  "parse_digits acc [] = Some acc"
| "parse_digits acc (c # cs) = (case digit_val c of
     None \<Rightarrow> None
   | Some d \<Rightarrow> (let n = 10 * acc + d in if n < 2 ^ 64 then parse_digits n cs else None))"

definition ParseUint :: "string \<Rightarrow> nat option" where
  "ParseUint s = (if s = '''' then None else parse_digits 0 s)"

definition next_version :: "string \<Rightarrow> string option" where
  "next_version rv = map_option (\<lambda>n. utoa ((n + 1) mod 2 ^ 64)) (ParseUint (if rv = '''' then ''0'' else rv))"

subsection \<open>The object tracker\<close>

definition tracker_lookup :: "'o kind \<Rightarrow> 'o list \<Rightarrow> NamespacedName \<Rightarrow> 'o option" where
  "tracker_lookup K st k = find (\<lambda>x. kd_key K x = k) st"

definition tracker_Get :: "'o kind \<Rightarrow> NamespacedName \<Rightarrow> 'o list \<Rightarrow> go_error + 'o" where
  "tracker_Get K k st = (case tracker_lookup K st k of
     None \<Rightarrow> Inl (NewNotFound (kd_resource K) (nn_Name k))
   | Some x \<Rightarrow> Inr x)"

definition tracker_put :: "'o kind \<Rightarrow> 'o \<Rightarrow> 'o list \<Rightarrow> 'o list" where
  "tracker_put K x st = map (\<lambda>y. if kd_key K y = kd_key K x then x else y) st"

definition tracker_Delete :: "'o kind \<Rightarrow> NamespacedName \<Rightarrow> 'o list \<Rightarrow> go_error option \<times> 'o list" where
  "tracker_Delete K k st = (case tracker_lookup K st k of
     None \<Rightarrow> (Some (NewNotFound (kd_resource K) (nn_Name k)), st)
   | Some _ \<Rightarrow> (None, filter (\<lambda>x. kd_key K x \<noteq> k) st))"

definition name_required :: "string \<Rightarrow> go_error" where
  "name_required resource = StatusError StatusReasonInvalid 422
     (resource @ '' '' @ go_quote '''' @ '' is invalid: metadata.name: Required value: name is required'')"

definition with_version :: "string \<Rightarrow> ObjectMeta \<Rightarrow> ObjectMeta" where
  "with_version rv m = m\<lparr>om_ResourceVersion := rv\<rparr>"

definition tracker_Create :: "'o kind \<Rightarrow> 'o \<Rightarrow> 'o list \<Rightarrow> (go_error + 'o) \<times> 'o list" where
  "tracker_Create K obj st =
     (let m = (kd_meta K obj)\<lparr>om_DeletionTimestamp := None\<rparr> in
      if om_Name m = '''' then (Inl (name_required (kd_resource K)), st)
      else if om_ResourceVersion m \<noteq> '''' then
        (Inl (NewBadRequest ''resourceVersion can not be set for Create requests''), st)
      else (case tracker_lookup K st (meta_key m) of
              Some _ \<Rightarrow> (Inl (NewAlreadyExists (kd_resource K) (om_Name m)), st)
            | None \<Rightarrow> (let new = kd_clear_type K (kd_set_meta K (with_version ''1'' m) obj)
                       in (Inr new, st @ [new]))))"

text \<open>\<^verbatim>\<open>deletionTimestampEqual\<close>: both absent, or less than a second apart.\<close>

definition deletionTimestampEqual :: "Time option \<Rightarrow> Time option \<Rightarrow> bool" where
  "deletionTimestampEqual new old = (case (new, old) of
     (None, None) \<Rightarrow> True
   | (Some t, Some u) \<Rightarrow> \<bar>time_since t u\<bar> < Second
   | _ \<Rightarrow> False)"

text \<open>
  \<^verbatim>\<open>updateObject\<close> up to the store: the object a status update or a plain update produces,
  before its resource version is raised.
\<close>

definition merge_status :: "'o kind \<Rightarrow> bool \<Rightarrow> 'o \<Rightarrow> 'o \<Rightarrow> 'o" where
  "merge_status K isStatus old obj =
     (if isStatus
      then kd_set_meta K (with_version (om_ResourceVersion (kd_meta K obj)) (kd_meta K old))
             (kd_copy_status K obj old)
      else kd_copy_status K old obj)"

definition tracker_update :: "'o kind \<Rightarrow> bool \<Rightarrow> bool \<Rightarrow> 'o \<Rightarrow> 'o list \<Rightarrow> (go_error + 'o) \<times> 'o list" where
  "tracker_update K isStatus deleting obj st =
     (let name = om_Name (kd_meta K obj) in
      if name = '''' then (Inl (name_required (kd_resource K)), st)
      else (case tracker_lookup K st (kd_key K obj) of
        None \<Rightarrow> (Inl (NewNotFound (kd_resource K) name), st)
      | Some old \<Rightarrow>
          (let obj = merge_status K isStatus old obj; m = kd_meta K obj; om = kd_meta K old in
           if om_ResourceVersion m \<noteq> om_ResourceVersion om then
             (Inl (NewConflict (kd_resource K) name ''object was modified''), st)
           else (case next_version (om_ResourceVersion om) of
             None \<Rightarrow> (Inl (ErrorString (''can not convert resourceVersion '' @
                       go_quote (om_ResourceVersion om) @ '' to int'')), st)
           | Some rv \<Rightarrow>
               (let new = kd_clear_type K (kd_set_meta K (with_version rv m) obj) in
                if \<not> deleting \<and> \<not> deletionTimestampEqual (om_DeletionTimestamp m) (om_DeletionTimestamp om)
                then (Inl (ErrorString (''error: Unable to edit '' @ name @
                        '': metadata.deletionTimestamp field is immutable'')), st)
                else if \<not> Time_IsZero (om_DeletionTimestamp m) \<and> length (om_Finalizers m) = 0
                then (case tracker_Delete K (kd_key K obj) st of
                        (None, st') \<Rightarrow> (Inr new, st') | (Some e, st') \<Rightarrow> (Inl e, st'))
                else (Inr new, tracker_put K new st))))))"

definition deleteObjectLocked :: "'o kind \<Rightarrow> Time \<Rightarrow> 'o \<Rightarrow> 'o list \<Rightarrow> go_error option \<times> 'o list" where
  "deleteObjectLocked K now obj st = (case tracker_lookup K st (kd_key K obj) of
     Some old \<Rightarrow>
       if length (om_Finalizers (kd_meta K old)) > 0
       then (case tracker_update K False True
                    (kd_set_meta K ((kd_meta K old)\<lparr>om_DeletionTimestamp := Some now\<rparr>) old) st of
               (Inl e, st') \<Rightarrow> (Some e, st') | (Inr _, st') \<Rightarrow> (None, st'))
       else tracker_Delete K (kd_key K obj) st
   | None \<Rightarrow> tracker_Delete K (kd_key K obj) st)"

text \<open>\<^verbatim>\<open>filterByNamespace\<close>: the objects of a namespace, or all, sorted by namespace and name.\<close>

definition tracker_List :: "'o kind \<Rightarrow> string \<Rightarrow> 'o list \<Rightarrow> 'o list" where
  "tracker_List K ns st =
     sort_key (\<lambda>x. (om_Namespace (kd_meta K x), om_Name (kd_meta K x)))
       (filter (\<lambda>x. ns = '''' \<or> om_Namespace (kd_meta K x) = ns) st)"

subsection \<open>The client\<close>

record fake_state =
  fk_pdis :: "PDInferenceService list"
  fk_profiles :: "PDEngineProfile list"
  fk_rbgs :: "RoleBasedGroup list"
  fk_now :: nat

definition PDISKind :: "PDInferenceService kind" where
  "PDISKind = \<lparr>kd_resource = ''pdinferenceservices.pdai.pdai.io'', kd_meta = pd_ObjectMeta,
     kd_set_meta = (\<lambda>m p. p\<lparr>pd_ObjectMeta := m\<rparr>),
     kd_copy_status = (\<lambda>a b. b\<lparr>pd_Status := pd_Status a\<rparr>),
     kd_clear_type = (\<lambda>p. p\<lparr>pd_TypeMeta := \<lparr>tm_Kind = '''', tm_APIVersion = ''''\<rparr>\<rparr>)\<rparr>"

definition ProfileKind :: "PDEngineProfile kind" where
  "ProfileKind = \<lparr>kd_resource = ''pdengineprofiles.pdai.pdai.io'', kd_meta = ep_ObjectMeta,
     kd_set_meta = (\<lambda>m p. p\<lparr>ep_ObjectMeta := m\<rparr>), kd_copy_status = (\<lambda>a b. b),
     kd_clear_type = (\<lambda>p. p\<lparr>ep_TypeMeta := \<lparr>tm_Kind = '''', tm_APIVersion = ''''\<rparr>\<rparr>)\<rparr>"

definition RBGKind :: "RoleBasedGroup kind" where
  "RBGKind = \<lparr>kd_resource = ''rolebasedgroups.workloads.x-k8s.io'', kd_meta = rbg_ObjectMeta,
     kd_set_meta = (\<lambda>m g. g\<lparr>rbg_ObjectMeta := m\<rparr>),
     kd_copy_status = (\<lambda>a b. b\<lparr>rbg_Status := rbg_Status a\<rparr>), kd_clear_type = (\<lambda>g. g)\<rparr>"

definition on_pdis :: "(PDInferenceService list \<Rightarrow> 'r \<times> PDInferenceService list) \<Rightarrow> (fake_state, 'r) state" where
  "on_pdis f = State (\<lambda>s. case f (fk_pdis s) of (r, st) \<Rightarrow> (r, s\<lparr>fk_pdis := st\<rparr>))"

definition on_profiles :: "(PDEngineProfile list \<Rightarrow> 'r \<times> PDEngineProfile list) \<Rightarrow> (fake_state, 'r) state" where
  "on_profiles f = State (\<lambda>s. case f (fk_profiles s) of (r, st) \<Rightarrow> (r, s\<lparr>fk_profiles := st\<rparr>))"

definition on_rbgs :: "(RoleBasedGroup list \<Rightarrow> 'r \<times> RoleBasedGroup list) \<Rightarrow> (fake_state, 'r) state" where
  "on_rbgs f = State (\<lambda>s. case f (fk_rbgs s) of (r, st) \<Rightarrow> (r, s\<lparr>fk_rbgs := st\<rparr>))"

text \<open>A clock that moves on with every look at it and never shows the zero time.\<close>

definition fake_Now :: "(fake_state, Time) state" where
  "fake_Now = State (\<lambda>s. (int (fk_now s) + 1, s\<lparr>fk_now := fk_now s + 1\<rparr>))"

definition fakeClient :: "fake_state client" where
  "fakeClient = \<lparr>
     Get_PDIS = (\<lambda>k. on_pdis (\<lambda>st. (tracker_Get PDISKind k st, st))),
     Get_Profile = (\<lambda>k. on_profiles (\<lambda>st. (tracker_Get ProfileKind k st, st))),
     Get_RBG = (\<lambda>k. on_rbgs (\<lambda>st. (tracker_Get RBGKind k st, st))),
     List_PDIS = (\<lambda>ns. on_pdis (\<lambda>st. (Inr \<lparr>pdl_Items = tracker_List PDISKind ns st\<rparr>, st))),
     List_Profile = (\<lambda>ns. on_profiles (\<lambda>st. (Inr \<lparr>epl_Items = tracker_List ProfileKind ns st\<rparr>, st))),
     Create_PDIS = (\<lambda>p. on_pdis (tracker_Create PDISKind p)),
     Create_Profile = (\<lambda>p. on_profiles (tracker_Create ProfileKind p)),
     Create_RBG = (\<lambda>g. on_rbgs (tracker_Create RBGKind g)),
     Update_PDIS = (\<lambda>p. on_pdis (tracker_update PDISKind False False p)),
     Update_Profile = (\<lambda>p. on_profiles (tracker_update ProfileKind False False p)),
     Update_RBG = (\<lambda>g. on_rbgs (tracker_update RBGKind False False g)),
     Status_Update_PDIS = (\<lambda>p. on_pdis (tracker_update PDISKind True False p)),
     Delete_PDIS = (\<lambda>p. do { now \<leftarrow> fake_Now; on_pdis (deleteObjectLocked PDISKind now p) }),
     Delete_Profile = (\<lambda>p. do { now \<leftarrow> fake_Now; on_profiles (deleteObjectLocked ProfileKind now p) }),
     Now = fake_Now\<rparr>"

definition fake_cluster :: "fake_state \<Rightarrow> cluster" where
  "fake_cluster s = \<lparr>cl_pdis = tracker_lookup PDISKind (fk_pdis s), cl_profiles = tracker_lookup ProfileKind (fk_profiles s),
     cl_rbgs = tracker_lookup RBGKind (fk_rbgs s)\<rparr>"

subsection \<open>Resource versions stay readable\<close>

lemma digit_val_digit_char: "d < 10 \<Longrightarrow> digit_val (digit_char d) = Some d"
  by (simp add: digit_val_def digit_char_def Let_def)

lemma parse_digits_append:
  "parse_digits acc (xs @ ys) = (case parse_digits acc xs of None \<Rightarrow> None | Some n \<Rightarrow> parse_digits n ys)"
  by (induction acc xs rule: parse_digits.induct) (simp_all add: Let_def split: option.split)

lemma parse_digits_utoa: "n < 2 ^ 64 \<Longrightarrow> parse_digits 0 (utoa n) = Some n"
proof (induction n rule: utoa.induct)
  case (1 n)
  show ?case
  proof (cases "n < 10")
    case True
    with 1(2) show ?thesis by (simp add: utoa.simps [of n] digit_val_digit_char)
  next
    case False
    then have "parse_digits 0 (utoa (n div 10)) = Some (n div 10)"
      using 1 by simp
    with False 1(2) show ?thesis
      by (simp add: utoa.simps [of n] parse_digits_append digit_val_digit_char)
  qed
qed

lemma ParseUint_utoa: "n < 2 ^ 64 \<Longrightarrow> ParseUint (utoa n) = Some n"
  by (simp add: ParseUint_def parse_digits_utoa)

lemma next_version_again: "next_version rv = Some rv' \<Longrightarrow> next_version rv' \<noteq> None"
  by (auto simp: next_version_def ParseUint_utoa)

lemma next_version_1: "next_version ''1'' \<noteq> None"
  by (simp add: next_version_def ParseUint_def digit_val_def)

subsection \<open>The tracker as a map\<close>

lemma gone_with_version:
  "gone_after_update (with_version rv m) \<longleftrightarrow>
     \<not> Time_IsZero (om_DeletionTimestamp m) \<and> om_Finalizers m = []"
  by (simp add: gone_after_update_def with_version_def)

text \<open>What an accepted update stores, and what it does to the tracker.\<close>

definition updated :: "'o kind \<Rightarrow> bool \<Rightarrow> 'o \<Rightarrow> string \<Rightarrow> 'o \<Rightarrow> 'o" where
  "updated K isStatus old rv obj =
     (let x = merge_status K isStatus old obj
      in kd_clear_type K (kd_set_meta K (with_version rv (kd_meta K x)) x))"

text \<open>
  Every stored object has a name and a resource version that can be raised, and no two share
  a key.
\<close>

definition stored_ok :: "'o kind \<Rightarrow> 'o list \<Rightarrow> bool" where
  "stored_ok K st \<longleftrightarrow> distinct (map (kd_key K) st) \<and>
     (\<forall>x \<in> set st. om_Name (kd_meta K x) \<noteq> '''' \<and>
        next_version (om_ResourceVersion (kd_meta K x)) \<noteq> None)"

text \<open>The accessors of a kind are independent of each other.\<close>

locale object_kind =
  fixes K :: "'o kind"
  assumes meta_set [simp]: "kd_meta K (kd_set_meta K m x) = m"
    and meta_copy [simp]: "kd_meta K (kd_copy_status K a x) = kd_meta K x"
    and meta_clear [simp]: "kd_meta K (kd_clear_type K x) = kd_meta K x"
begin

lemma lookup_key: "tracker_lookup K st k = Some x \<Longrightarrow> kd_key K x = k \<and> x \<in> set st"
  by (auto simp: tracker_lookup_def find_Some_iff)

lemma lookup_append:
  "tracker_lookup K st (kd_key K x) = None \<Longrightarrow>
   tracker_lookup K (st @ [x]) = (tracker_lookup K st)(kd_key K x \<mapsto> x)"
  by (induction st) (auto simp: tracker_lookup_def fun_eq_iff split: if_splits)

lemma lookup_put:
  assumes "tracker_lookup K st (kd_key K x) \<noteq> None"
  shows "tracker_lookup K (tracker_put K x st) = (tracker_lookup K st)(kd_key K x \<mapsto> x)"
proof -
  have "tracker_lookup K (tracker_put K x st) k =
      (if k = kd_key K x then map_option (\<lambda>_. x) (tracker_lookup K st k) else tracker_lookup K st k)" for k
    by (induction st) (auto simp: tracker_lookup_def tracker_put_def)
  with assms show ?thesis by (auto simp: fun_eq_iff)
qed

lemma lookup_filter:
  "tracker_lookup K (filter (\<lambda>x. kd_key K x \<noteq> k) st) = (tracker_lookup K st)(k := None)"
  by (induction st) (auto simp: tracker_lookup_def fun_eq_iff)

lemma merge_status_meta:
  "kd_meta K (merge_status K isStatus old obj) =
     (if isStatus then with_version (om_ResourceVersion (kd_meta K obj)) (kd_meta K old) else kd_meta K obj)"
  by (simp add: merge_status_def)

lemma merge_status_key:
  "kd_key K old = kd_key K obj \<Longrightarrow> kd_key K (merge_status K isStatus old obj) = kd_key K obj"
  by (simp add: kd_key_def merge_status_meta with_version_def meta_key_def)

lemma Create_done:
  assumes "tracker_Create K obj st = (Inr new, st')"
  shows "tracker_lookup K st (kd_key K obj) = None"
    and "tracker_lookup K st' = (tracker_lookup K st)(kd_key K obj \<mapsto> new)"
    and "new = kd_clear_type K (kd_set_meta K ((kd_meta K obj)
           \<lparr>om_DeletionTimestamp := None, om_ResourceVersion := ''1''\<rparr>) obj)"
    and "set st' = insert new (set st)" and "om_Name (kd_meta K obj) \<noteq> ''''"
    and "map (kd_key K) st' = map (kd_key K) st @ [kd_key K obj]"
proof -
  let ?new = "kd_clear_type K (kd_set_meta K ((kd_meta K obj)
           \<lparr>om_DeletionTimestamp := None, om_ResourceVersion := ''1''\<rparr>) obj)"
  have k: "kd_key K ?new = kd_key K obj"
    by (simp add: kd_key_def meta_key_def)
  have "tracker_lookup K st (kd_key K obj) = None \<and> new = ?new \<and> st' = st @ [?new] \<and>
      om_Name (kd_meta K obj) \<noteq> ''''"
    using assms
    by (auto simp: tracker_Create_def Let_def with_version_def kd_key_def meta_key_def
        split: if_splits option.splits)
  then show "tracker_lookup K st (kd_key K obj) = None"
    and "tracker_lookup K st' = (tracker_lookup K st)(kd_key K obj \<mapsto> new)"
    and "new = ?new" and "set st' = insert new (set st)" and "om_Name (kd_meta K obj) \<noteq> ''''"
    and "map (kd_key K) st' = map (kd_key K) st @ [kd_key K obj]"
    using lookup_append [of st ?new] k by auto
qed

lemma Create_error: "tracker_Create K obj st = (Inl e, st') \<Longrightarrow> st' = st"
  by (auto simp: tracker_Create_def Let_def split: if_splits option.splits)

lemma Create_accepts:
  assumes "tracker_lookup K st (kd_key K obj) = None" and "om_Name (kd_meta K obj) \<noteq> ''''"
    and "om_ResourceVersion (kd_meta K obj) = ''''"
  shows "\<exists>new st'. tracker_Create K obj st = (Inr new, st')"
  using assms by (simp add: tracker_Create_def Let_def kd_key_def meta_key_def)

lemma updated_meta:
  "kd_meta K (updated K isStatus old rv obj) =
     with_version rv (if isStatus then kd_meta K old else kd_meta K obj)"
  by (simp add: updated_def Let_def merge_status_meta with_version_def)

lemma update_done:
  assumes "tracker_update K isStatus deleting obj st = (Inr new, st')"
  obtains old rv where "tracker_lookup K st (kd_key K obj) = Some old"
    and "om_ResourceVersion (kd_meta K obj) = om_ResourceVersion (kd_meta K old)"
    and "next_version (om_ResourceVersion (kd_meta K old)) = Some rv"
    and "new = updated K isStatus old rv obj" and "om_Name (kd_meta K obj) \<noteq> ''''"
    and "set st' \<subseteq> insert new (set st)"
    and "distinct (map (kd_key K) st) \<Longrightarrow> distinct (map (kd_key K) st')"
    and "tracker_lookup K st' = (if gone_after_update (kd_meta K new)
           then (tracker_lookup K st)(kd_key K obj := None)
           else (tracker_lookup K st)(kd_key K obj \<mapsto> new))"
proof -
  from assms obtain old where old: "tracker_lookup K st (kd_key K obj) = Some old"
    by (auto simp: tracker_update_def Let_def split: if_splits option.splits)
  let ?m = "merge_status K isStatus old obj"
  have k: "kd_key K ?m = kd_key K obj"
    using lookup_key [OF old] by (simp add: merge_status_key)
  have mv: "om_ResourceVersion (kd_meta K ?m) = om_ResourceVersion (kd_meta K obj)"
    by (simp add: merge_status_meta with_version_def)
  have uk: "kd_key K (updated K isStatus old rv obj) = kd_key K obj" for rv
    using lookup_key [OF old] by (simp add: kd_key_def updated_meta with_version_def meta_key_def)
  from assms old obtain rv where rv: "next_version (om_ResourceVersion (kd_meta K old)) = Some rv"
      and v: "om_ResourceVersion (kd_meta K obj) = om_ResourceVersion (kd_meta K old)"
      and n: "new = updated K isStatus old rv obj" and nm: "om_Name (kd_meta K obj) \<noteq> ''''"
      and st: "st' = (if gone_after_update (kd_meta K new)
        then filter (\<lambda>x. kd_key K x \<noteq> kd_key K obj) st else tracker_put K new st)"
    by (auto simp: tracker_update_def Let_def k mv gone_with_version updated_def tracker_Delete_def
        split: if_splits option.splits)
  have "set st' \<subseteq> insert new (set st)"
    by (auto simp: st tracker_put_def)
  moreover have "map (kd_key K) (tracker_put K new st) = map (kd_key K) st"
    by (simp add: tracker_put_def)
  then have "distinct (map (kd_key K) st) \<Longrightarrow> distinct (map (kd_key K) st')"
    by (simp add: st distinct_map_filter)
  moreover have "tracker_lookup K st' = (if gone_after_update (kd_meta K new)
      then (tracker_lookup K st)(kd_key K obj := None) else (tracker_lookup K st)(kd_key K obj \<mapsto> new))"
    using lookup_put [of st new] uk [of rv] old n by (simp add: st lookup_filter)
  ultimately show thesis using that [OF old v rv n nm] by blast
qed

lemma update_error: "tracker_update K isStatus deleting obj st = (Inl e, st') \<Longrightarrow> st' = st"
  by (auto simp: tracker_update_def tracker_Delete_def Let_def
      split: if_splits option.splits)

lemma update_accepts:
  assumes "tracker_lookup K st (kd_key K obj) = Some old" and "om_Name (kd_meta K obj) \<noteq> ''''"
    and "om_ResourceVersion (kd_meta K obj) = om_ResourceVersion (kd_meta K old)"
    and "next_version (om_ResourceVersion (kd_meta K old)) \<noteq> None"
    and "om_DeletionTimestamp (kd_meta K obj) = om_DeletionTimestamp (kd_meta K old)"
  shows "\<exists>new st'. tracker_update K isStatus deleting obj st = (Inr new, st')"
proof -
  have k: "kd_key K (merge_status K isStatus old obj) = kd_key K obj"
    using lookup_key [OF assms(1)] by (simp add: merge_status_key)
  have "deletionTimestampEqual t t" for t
    by (simp add: deletionTimestampEqual_def time_since_def Second_def split: option.split)
  with k assms show ?thesis
    by (auto simp: tracker_update_def tracker_Delete_def Let_def merge_status_meta with_version_def
        split: option.split)
qed

lemma tracker_frame:
  assumes "k \<noteq> kd_key K obj"
  shows "tracker_lookup K (snd (tracker_update K isStatus deleting obj st)) k = tracker_lookup K st k"
    and "tracker_lookup K (snd (tracker_Create K obj st)) k = tracker_lookup K st k"
proof -
  obtain r st' where u: "tracker_update K isStatus deleting obj st = (r, st')" by fastforce
  show "tracker_lookup K (snd (tracker_update K isStatus deleting obj st)) k = tracker_lookup K st k"
  proof (cases r)
    case (Inr new)
    with u assms show ?thesis by (auto elim!: update_done)
  qed (use u update_error in fastforce)
  obtain r st' where c: "tracker_Create K obj st = (r, st')" by fastforce
  show "tracker_lookup K (snd (tracker_Create K obj st)) k = tracker_lookup K st k"
  proof (cases r)
    case (Inr new)
    with c assms Create_done(2) [of obj st new st'] show ?thesis by simp
  qed (use c Create_error in fastforce)
qed

lemma Create_stored_ok:
  assumes "stored_ok K st" and "tracker_Create K obj st = (r, st')"
  shows "stored_ok K st'"
proof (cases r)
  case (Inr new)
  note d = Create_done [OF assms(2) [unfolded Inr]]
  from d(3,5) have "om_Name (kd_meta K new) \<noteq> ''''" "om_ResourceVersion (kd_meta K new) = ''1''"
    by simp_all
  moreover have "kd_key K obj \<notin> set (map (kd_key K) st)"
    using d(1) by (auto simp: tracker_lookup_def find_None_iff)
  ultimately show ?thesis using assms(1) d(4,6) next_version_1 by (auto simp: stored_ok_def)
qed (use assms Create_error in fastforce)

lemma update_stored_ok:
  assumes "stored_ok K st" and "tracker_update K isStatus deleting obj st = (r, st')"
  shows "stored_ok K st'"
proof (cases r)
  case (Inr new)
  from assms(2) [unfolded Inr] show ?thesis
  proof (cases rule: update_done)
    case (1 old rv)
    have "om_Name (kd_meta K old) \<noteq> ''''"
      using lookup_key [OF 1(1)] assms(1) by (simp add: stored_ok_def)
    with 1(3,4,5) have "om_Name (kd_meta K new) \<noteq> '''' \<and>
        next_version (om_ResourceVersion (kd_meta K new)) \<noteq> None"
      using next_version_again by (simp add: updated_meta with_version_def)
    with assms(1) 1(6,7) show ?thesis unfolding stored_ok_def by blast
  qed
qed (use assms update_error in fastforce)

lemma stored_okD:
  "stored_ok K st \<Longrightarrow> tracker_lookup K st k = Some x \<Longrightarrow>
   om_Name (kd_meta K x) \<noteq> '''' \<and> next_version (om_ResourceVersion (kd_meta K x)) \<noteq> None"
  using lookup_key by (force simp: stored_ok_def)

text \<open>Deletion: removal without finalizers, a deletion stamp with them.\<close>

lemma Delete_done:
  assumes "deleteObjectLocked K now obj st = (None, st')" and "now \<noteq> 0"
  obtains (removed) old where "tracker_lookup K st (kd_key K obj) = Some old"
      "om_Finalizers (kd_meta K old) = []" "st' = filter (\<lambda>x. kd_key K x \<noteq> kd_key K obj) st"
  | (marked) old q rv where "tracker_lookup K st (kd_key K obj) = Some old"
      "om_Finalizers (kd_meta K old) \<noteq> []" "tracker_lookup K st' (kd_key K obj) = Some q"
      "q = updated K False old rv (kd_set_meta K ((kd_meta K old)\<lparr>om_DeletionTimestamp := Some now\<rparr>) old)"
      "stamped (kd_meta K old) (kd_meta K q)"
proof -
  from assms(1) obtain old where old: "tracker_lookup K st (kd_key K obj) = Some old"
    by (auto simp: deleteObjectLocked_def tracker_Delete_def split: option.splits)
  let ?m = "(kd_meta K old)\<lparr>om_DeletionTimestamp := Some now\<rparr>"
  let ?o = "kd_set_meta K ?m old"
  have k: "kd_key K ?o = kd_key K obj"
    using lookup_key [OF old] by (simp add: kd_key_def meta_key_def)
  show thesis
  proof (cases "om_Finalizers (kd_meta K old) = []")
    case True
    with assms(1) old show thesis
      by (intro removed) (auto simp: deleteObjectLocked_def tracker_Delete_def)
  next
    case False
    with assms(1) old obtain q where "tracker_update K False True ?o st = (Inr q, st')"
      by (auto simp: deleteObjectLocked_def split: prod.splits sum.splits)
    then show thesis
    proof (cases rule: update_done)
      case (1 old' rv)
      have "old' = old" using 1(1) old k by simp
      with 1(4) have q: "q = updated K False old rv ?o" by simp
      then have m: "kd_meta K q = ?m\<lparr>om_ResourceVersion := rv\<rparr>"
        by (simp add: updated_meta with_version_def)
      with False have "\<not> gone_after_update (kd_meta K q)" by (simp add: gone_after_update_def)
      with 1(8) k have "tracker_lookup K st' (kd_key K obj) = Some q" by simp
      moreover have "stamped (kd_meta K old) (kd_meta K q)"
        unfolding stamped_def m using assms(2) by (intro exI [of _ rv] exI [of _ now]) simp
      ultimately show thesis using False old q by (intro marked)
    qed
  qed
qed

lemma Delete_frame:
  assumes "k \<noteq> kd_key K obj"
  shows "tracker_lookup K (snd (deleteObjectLocked K now obj st)) k = tracker_lookup K st k"
proof (cases "tracker_lookup K st (kd_key K obj)")
  case (Some old)
  let ?o = "kd_set_meta K ((kd_meta K old)\<lparr>om_DeletionTimestamp := Some now\<rparr>) old"
  have "kd_key K ?o = kd_key K obj"
    using lookup_key [OF Some] by (simp add: kd_key_def meta_key_def)
  with assms tracker_frame(1) [of k ?o False True st] Some show ?thesis
    by (auto simp: deleteObjectLocked_def tracker_Delete_def lookup_filter split: prod.split sum.split)
qed (simp add: deleteObjectLocked_def tracker_Delete_def)

lemma Delete_error: "deleteObjectLocked K now obj st = (Some e, st') \<Longrightarrow> st' = st"
  by (auto simp: deleteObjectLocked_def tracker_Delete_def Let_def dest: update_error
      split: if_splits option.splits prod.splits sum.splits)

lemma Delete_stored_ok:
  assumes "stored_ok K st"
  shows "stored_ok K (snd (deleteObjectLocked K now obj st))"
proof -
  have "stored_ok K (snd (tracker_Delete K k st))" for k
    using assms by (auto simp: tracker_Delete_def stored_ok_def distinct_map_filter split: option.split)
  moreover have "stored_ok K (snd (tracker_update K False True x st))" for x
    using update_stored_ok [OF assms, of False True x] by (cases "tracker_update K False True x st") simp
  ultimately show ?thesis
    by (simp add: deleteObjectLocked_def split: option.split prod.split sum.split)
       (metis snd_conv)
qed

lemma Delete_accepts:
  assumes "stored_ok K st" and "tracker_lookup K st (kd_key K obj) = Some old"
  shows "\<exists>st'. deleteObjectLocked K now obj st = (None, st')"
proof (cases "om_Finalizers (kd_meta K old) = []")
  case False
  let ?m = "(kd_meta K old)\<lparr>om_DeletionTimestamp := Some now\<rparr>"
  let ?o = "kd_set_meta K ?m old"
  have k: "kd_key K ?o = kd_key K obj"
    using lookup_key [OF assms(2)] by (simp add: kd_key_def meta_key_def)
  have "\<exists>new st'. tracker_update K False True ?o st = (Inr new, st')"
    using stored_okD [OF assms] False assms(2) k
    by (auto simp: tracker_update_def Let_def merge_status_meta with_version_def)
  with assms(2) False show ?thesis by (auto simp: deleteObjectLocked_def)
qed (use assms in \<open>simp add: deleteObjectLocked_def tracker_Delete_def\<close>)

lemma lookup_iff:
  assumes "stored_ok K st"
  shows "tracker_lookup K st (kd_key K x) = Some x \<longleftrightarrow> x \<in> set st"
proof -
  have "distinct (map (kd_key K) st)" using assms by (simp add: stored_ok_def)
  then show ?thesis
    by (induction st) (auto simp: tracker_lookup_def image_iff)
qed

lemma List_contents:
  assumes "stored_ok K st"
  shows "x \<in> set (tracker_List K ns st) \<longleftrightarrow>
      tracker_lookup K st (kd_key K x) = Some x \<and> (ns = '''' \<or> om_Namespace (kd_meta K x) = ns)"
    and "distinct (map (kd_key K) (tracker_List K ns st))"
proof -
  show "x \<in> set (tracker_List K ns st) \<longleftrightarrow>
      tracker_lookup K st (kd_key K x) = Some x \<and> (ns = '''' \<or> om_Namespace (kd_meta K x) = ns)"
    using lookup_iff [OF assms] by (auto simp: tracker_List_def)
  let ?f = "filter (\<lambda>x. ns = '''' \<or> om_Namespace (kd_meta K x) = ns) st"
  have "mset (map (kd_key K) (tracker_List K ns st)) = mset (map (kd_key K) ?f)"
    by (simp add: tracker_List_def)
  moreover have "distinct (map (kd_key K) ?f)"
    using assms by (simp add: stored_ok_def distinct_map_filter)
  ultimately show "distinct (map (kd_key K) (tracker_List K ns st))"
    by (rule mset_eq_imp_distinct_iff [THEN iffD2])
qed

end

interpretation pdis_kind: object_kind PDISKind
  by unfold_locales (simp_all add: PDISKind_def)

interpretation profile_kind: object_kind ProfileKind
  by unfold_locales (simp_all add: ProfileKind_def)

interpretation rbg_kind: object_kind RBGKind
  by unfold_locales (simp_all add: RBGKind_def)

subsection \<open>The client satisfies the interfaces\<close>

lemma run_on [run_simps, simp]:
  "run_state (on_pdis f) s = (fst (f (fk_pdis s)), s\<lparr>fk_pdis := snd (f (fk_pdis s))\<rparr>)"
  "run_state (on_profiles h) s = (fst (h (fk_profiles s)), s\<lparr>fk_profiles := snd (h (fk_profiles s))\<rparr>)"
  "run_state (on_rbgs g) s = (fst (g (fk_rbgs s)), s\<lparr>fk_rbgs := snd (g (fk_rbgs s))\<rparr>)"
  "run_state fake_Now s = (int (fk_now s) + 1, s\<lparr>fk_now := fk_now s + 1\<rparr>)"
  by (simp_all add: on_pdis_def on_profiles_def on_rbgs_def fake_Now_def case_prod_beta)

lemma kind_keys [simp]:
  "kd_key PDISKind p = pdis_key p" "kd_key ProfileKind f = profile_key f" "kd_key RBGKind g = rbg_key g"
  by (simp_all add: kd_key_def PDISKind_def ProfileKind_def RBGKind_def)

lemma kind_metas [simp]:
  "kd_meta PDISKind = pd_ObjectMeta" "kd_meta ProfileKind = ep_ObjectMeta" "kd_meta RBGKind = rbg_ObjectMeta"
  by (simp_all add: PDISKind_def ProfileKind_def RBGKind_def)

lemma kind_ops:
  "kd_set_meta PDISKind m p = p\<lparr>pd_ObjectMeta := m\<rparr>"
  "kd_copy_status PDISKind q p = p\<lparr>pd_Status := pd_Status q\<rparr>"
  "kd_clear_type PDISKind p = p\<lparr>pd_TypeMeta := \<lparr>tm_Kind = '''', tm_APIVersion = ''''\<rparr>\<rparr>"
  "kd_set_meta RBGKind m g = g\<lparr>rbg_ObjectMeta := m\<rparr>"
  "kd_copy_status RBGKind h g = g\<lparr>rbg_Status := rbg_Status h\<rparr>"
  "kd_clear_type RBGKind g = g"
  "kd_set_meta ProfileKind m f = f\<lparr>ep_ObjectMeta := m\<rparr>"
  "kd_copy_status ProfileKind e f = f"
  "kd_clear_type ProfileKind f = f\<lparr>ep_TypeMeta := \<lparr>tm_Kind = '''', tm_APIVersion = ''''\<rparr>\<rparr>"
  by (simp_all add: PDISKind_def RBGKind_def ProfileKind_def)

lemma tracker_Get_Inr: "tracker_Get K k st = Inr x \<longleftrightarrow> tracker_lookup K st k = Some x"
  by (auto simp: tracker_Get_def split: option.splits)

lemma tracker_Get_Inl: "tracker_Get K k st = Inl e \<Longrightarrow> tracker_lookup K st k = None \<and> IsNotFound e"
  by (auto simp: tracker_Get_def split: option.splits)

lemma fake_reads [simp]:
  "Get_PDIS fakeClient k = on_pdis (\<lambda>st. (tracker_Get PDISKind k st, st))"
  "Get_Profile fakeClient k = on_profiles (\<lambda>st. (tracker_Get ProfileKind k st, st))"
  "Get_RBG fakeClient k = on_rbgs (\<lambda>st. (tracker_Get RBGKind k st, st))"
  "Now fakeClient = fake_Now"
  by (simp_all add: fakeClient_def)

lemma fake_writes [simp]:
  "Create_RBG fakeClient g = on_rbgs (tracker_Create RBGKind g)"
  "Update_RBG fakeClient g = on_rbgs (tracker_update RBGKind False False g)"
  "Update_PDIS fakeClient p = on_pdis (tracker_update PDISKind False False p)"
  "Status_Update_PDIS fakeClient p = on_pdis (tracker_update PDISKind True False p)"
  by (simp_all add: fakeClient_def)

lemma fake_cluster_fields [simp]:
  "cl_pdis (fake_cluster s) = tracker_lookup PDISKind (fk_pdis s)"
  "cl_profiles (fake_cluster s) = tracker_lookup ProfileKind (fk_profiles s)"
  "cl_rbgs (fake_cluster s) = tracker_lookup RBGKind (fk_rbgs s)"
  by (simp_all add: fake_cluster_def)

lemma fake_cluster_upd:
  "fake_cluster (s\<lparr>fk_pdis := ps\<rparr>) = (fake_cluster s)\<lparr>cl_pdis := tracker_lookup PDISKind ps\<rparr>"
  "fake_cluster (s\<lparr>fk_rbgs := gs\<rparr>) = (fake_cluster s)\<lparr>cl_rbgs := tracker_lookup RBGKind gs\<rparr>"
  "fake_cluster (s\<lparr>fk_now := t\<rparr>) = fake_cluster s"
  by (simp_all add: fake_cluster_def)

interpretation fake_read: kube_reader fakeClient fake_cluster
  by unfold_locales
     (auto simp: tracker_Get_Inr dest: tracker_Get_Inl pdis_kind.lookup_key profile_kind.lookup_key
        rbg_kind.lookup_key simp: fake_cluster_def)

text \<open>The laws of the writes, one by one.\<close>

lemma fake_create_rbg_ok:
  assumes "run_state (Create_RBG fakeClient g) s = (Inr g', s')"
  shows "cl_rbgs (fake_cluster s) (rbg_key g) = None \<and>
         fake_cluster s' = (fake_cluster s)\<lparr>cl_rbgs := (cl_rbgs (fake_cluster s))(rbg_key g \<mapsto> g')\<rparr> \<and>
         same_identity (rbg_ObjectMeta g) (rbg_ObjectMeta g') \<and>
         om_DeletionTimestamp (rbg_ObjectMeta g') = None \<and> rbg_Spec g' = rbg_Spec g"
proof -
  from assms obtain st where c: "tracker_Create RBGKind g (fk_rbgs s) = (Inr g', st)"
      and s': "s' = s\<lparr>fk_rbgs := st\<rparr>"
    by (cases "tracker_Create RBGKind g (fk_rbgs s)") auto
  from rbg_kind.Create_done [OF c] s' show ?thesis
    by (simp add: fake_cluster_upd kind_ops same_identity_def)
qed

lemma fake_update_rbg_ok:
  assumes "run_state (Update_RBG fakeClient g) s = (Inr g', s')"
    and "\<not> gone_after_update (rbg_ObjectMeta g)"
  shows "(\<exists>old. cl_rbgs (fake_cluster s) (rbg_key g) = Some old \<and>
            om_ResourceVersion (rbg_ObjectMeta old) = om_ResourceVersion (rbg_ObjectMeta g) \<and>
            rbg_Status g' = rbg_Status old) \<and>
         fake_cluster s' = (fake_cluster s)\<lparr>cl_rbgs := (cl_rbgs (fake_cluster s))(rbg_key g \<mapsto> g')\<rparr> \<and>
         same_object_meta (rbg_ObjectMeta g) (rbg_ObjectMeta g') \<and> rbg_Spec g' = rbg_Spec g"
proof -
  from assms(1) obtain st where u: "tracker_update RBGKind False False g (fk_rbgs s) = (Inr g', st)"
      and s': "s' = s\<lparr>fk_rbgs := st\<rparr>"
    by (cases "tracker_update RBGKind False False g (fk_rbgs s)") auto
  from u show ?thesis
  proof (cases rule: rbg_kind.update_done)
    case (1 old rv)
    have "rbg_ObjectMeta g' = with_version rv (rbg_ObjectMeta g)"
      using rbg_kind.updated_meta [of False old rv g] 1(4) by simp
    with 1 s' assms(2) show ?thesis
      by (auto simp: fake_cluster_upd same_object_meta_def with_version_def gone_after_update_def
          updated_def merge_status_def kind_ops Let_def)
  qed
qed

text \<open>An accepted update of a service, plain or of the status.\<close>

lemma fake_pdis_update:
  assumes "run_state (on_pdis (tracker_update PDISKind isStatus False p)) s = (Inr p', s')"
  obtains old where "cl_pdis (fake_cluster s) (pdis_key p) = Some old"
    and "om_ResourceVersion (pd_ObjectMeta old) = om_ResourceVersion (pd_ObjectMeta p)"
    and "same_object_meta (pd_ObjectMeta (if isStatus then old else p)) (pd_ObjectMeta p')"
    and "pd_Spec p' = pd_Spec (if isStatus then old else p)"
    and "pd_Status p' = pd_Status (if isStatus then p else old)"
    and "fake_cluster s' = (fake_cluster s)\<lparr>cl_pdis := (cl_pdis (fake_cluster s))(pdis_key p :=
           (if gone_after_update (pd_ObjectMeta (if isStatus then old else p)) then None else Some p'))\<rparr>"
proof -
  from assms obtain st where u: "tracker_update PDISKind isStatus False p (fk_pdis s) = (Inr p', st)"
      and s': "s' = s\<lparr>fk_pdis := st\<rparr>"
    by (cases "tracker_update PDISKind isStatus False p (fk_pdis s)") auto
  from u show thesis
  proof (cases rule: pdis_kind.update_done)
    case (1 old rv)
    have m: "pd_ObjectMeta p' = with_version rv (pd_ObjectMeta (if isStatus then old else p))"
      using pdis_kind.updated_meta [of isStatus old rv p] 1(4) by simp
    then have g: "gone_after_update (pd_ObjectMeta p') =
        gone_after_update (pd_ObjectMeta (if isStatus then old else p))"
      by (simp add: gone_after_update_def with_version_def)
    have "pd_Spec p' = pd_Spec (if isStatus then old else p)"
        "pd_Status p' = pd_Status (if isStatus then p else old)"
      by (simp_all add: 1(4) updated_def merge_status_def kind_ops Let_def)
    with 1 m g s' show thesis
      by (intro that [of old])
         (auto simp: fake_cluster_upd same_object_meta_def with_version_def)
  qed
qed

interpretation fake_write: kube_writer fakeClient fake_cluster "\<lambda>spec. spec"
proof (unfold_locales, goal_cases)
  case (1 g s r s')
  then show ?case
    using rbg_kind.tracker_frame(2) [of _ g "fk_rbgs s"]
    by (auto simp: only_rbg_def fake_cluster_upd)
next
  case (2 g s r s')
  then show ?case
    using rbg_kind.tracker_frame(1) [of _ g False False "fk_rbgs s"]
    by (auto simp: only_rbg_def fake_cluster_upd)
next
  case (3 p s r s')
  then show ?case
    using pdis_kind.tracker_frame(1) [of _ p False False "fk_pdis s"]
    by (auto simp: only_pdis_def fake_cluster_upd)
next
  case (4 p s r s')
  then show ?case
    using pdis_kind.tracker_frame(1) [of _ p True False "fk_pdis s"]
    by (auto simp: only_pdis_def fake_cluster_upd)
next
  case (5 g s g' s')
  then show ?case by (rule fake_create_rbg_ok)
next
  case (6 g s g' s')
  then show ?case by (rule fake_update_rbg_ok)
next
  case (7 p s p' s')
  from 7(1) have "run_state (on_pdis (tracker_update PDISKind False False p)) s = (Inr p', s')"
    by (simp only: fake_writes)
  then show ?case using 7(2) by (cases rule: fake_pdis_update) auto
next
  case (8 p s p' s')
  from 8(1) have "run_state (on_pdis (tracker_update PDISKind False False p)) s = (Inr p', s')"
    by (simp only: fake_writes)
  then show ?case using 8(2) by (cases rule: fake_pdis_update) auto
next
  case (9 p s p' s' old)
  from 9(1) have "run_state (on_pdis (tracker_update PDISKind True False p)) s = (Inr p', s')"
    by (simp only: fake_writes)
  then show ?case using 9(2,3) by (cases rule: fake_pdis_update) auto
qed

text \<open>Updates and resource versions: a refused update changes nothing.\<close>

interpretation fake_versioned: kube_versioned fakeClient fake_cluster "\<lambda>spec. spec"
proof (unfold_locales, goal_cases)
  case (1 p s r s' q)
  show ?case
  proof (cases r)
    case (Inl e)
    with 1(1) have "s' = s" using pdis_kind.update_error [of False False p "fk_pdis s"] by (auto simp: prod_eq_iff)
    with 1(2) show ?thesis by simp
  next
    case (Inr p')
    with 1(1) have "run_state (on_pdis (tracker_update PDISKind False False p)) s = (Inr p', s')" by simp
    then show ?thesis using 1(2) by (cases rule: fake_pdis_update) (auto split: if_splits)
  qed
next
  case (2 p s r s' q)
  show ?case
  proof (cases r)
    case (Inl e)
    with 2(1) have "s' = s" using pdis_kind.update_error [of True False p "fk_pdis s"] by (auto simp: prod_eq_iff)
    with 2(2) show ?thesis by simp
  next
    case (Inr p')
    with 2(1) have "run_state (on_pdis (tracker_update PDISKind True False p)) s = (Inr p', s')" by simp
    then show ?thesis using 2(2) by (cases rule: fake_pdis_update) (auto split: if_splits)
  qed
next
  case (3 g s r s' h)
  show ?case
  proof (cases r)
    case (Inl e)
    with 3(1) have "s' = s" using rbg_kind.update_error [of False False g "fk_rbgs s"] by (auto simp: prod_eq_iff)
    with 3(2) show ?thesis by simp
  next
    case (Inr g')
    with 3(1) obtain st where u: "tracker_update RBGKind False False g (fk_rbgs s) = (Inr g', st)"
        and s': "s' = s\<lparr>fk_rbgs := st\<rparr>"
      by (cases "tracker_update RBGKind False False g (fk_rbgs s)") auto
    from u show ?thesis
      by (cases rule: rbg_kind.update_done)
         (use 3(2) s' in \<open>auto simp: updated_def merge_status_def kind_ops Let_def split: if_splits\<close>)
  qed
next
  case (4 g s r s' h)
  then show ?case
    using rbg_kind.Create_done(1) [of g "fk_rbgs s"] rbg_kind.Create_error [of g "fk_rbgs s"]
    by (cases r; cases "tracker_Create RBGKind g (fk_rbgs s)") auto
qed

definition fake_ok :: "fake_state \<Rightarrow> bool" where
  "fake_ok s \<longleftrightarrow> stored_ok PDISKind (fk_pdis s) \<and> stored_ok ProfileKind (fk_profiles s) \<and>
     stored_ok RBGKind (fk_rbgs s)"

lemma fake_ok_upd:
  "fake_ok s \<Longrightarrow> stored_ok PDISKind ps \<Longrightarrow> fake_ok (s\<lparr>fk_pdis := ps\<rparr>)"
  "fake_ok s \<Longrightarrow> stored_ok RBGKind gs \<Longrightarrow> fake_ok (s\<lparr>fk_rbgs := gs\<rparr>)"
  by (simp_all add: fake_ok_def)

lemma fake_update_pdis_total:
  assumes "fake_ok s" and "cl_pdis (fake_cluster s) (pdis_key p) = Some old"
    and "om_ResourceVersion (pd_ObjectMeta p) = om_ResourceVersion (pd_ObjectMeta old)"
    and "om_DeletionTimestamp (pd_ObjectMeta p) = om_DeletionTimestamp (pd_ObjectMeta old)"
  shows "\<exists>p' s'. run_state (on_pdis (tracker_update PDISKind isStatus False p)) s = (Inr p', s') \<and> fake_ok s'"
proof -
  have l: "tracker_lookup PDISKind (fk_pdis s) (kd_key PDISKind p) = Some old"
    using assms(2) by simp
  have st: "stored_ok PDISKind (fk_pdis s)" using assms(1) by (simp add: fake_ok_def)
  have "pdis_key old = pdis_key p"
    using pdis_kind.lookup_key [OF l] by simp
  then have "pd_Name p = pd_Name old" by (simp add: meta_key_def)
  with pdis_kind.stored_okD [OF st l] assms(3,4) obtain new st' where
      u: "tracker_update PDISKind isStatus False p (fk_pdis s) = (Inr new, st')"
    using pdis_kind.update_accepts [OF l, of isStatus False] by auto
  with pdis_kind.update_stored_ok [OF st u] assms(1) show ?thesis
    by (simp add: fake_ok_upd)
qed

lemma fake_rbg_total:
  assumes "fake_ok s"
  shows "cl_rbgs (fake_cluster s) (rbg_key g) = None \<Longrightarrow> rbg_Name g \<noteq> '''' \<Longrightarrow>
      om_ResourceVersion (rbg_ObjectMeta g) = '''' \<Longrightarrow>
      \<exists>g' s'. run_state (Create_RBG fakeClient g) s = (Inr g', s') \<and> fake_ok s'"
    and "cl_rbgs (fake_cluster s) (rbg_key g) = Some h \<Longrightarrow> rbg_ObjectMeta g = rbg_ObjectMeta h \<Longrightarrow>
      \<exists>g' s'. run_state (Update_RBG fakeClient g) s = (Inr g', s') \<and> fake_ok s'"
proof -
  have st: "stored_ok RBGKind (fk_rbgs s)" using assms by (simp add: fake_ok_def)
  show "\<exists>g' s'. run_state (Create_RBG fakeClient g) s = (Inr g', s') \<and> fake_ok s'"
    if a: "cl_rbgs (fake_cluster s) (rbg_key g) = None" "rbg_Name g \<noteq> ''''"
      "om_ResourceVersion (rbg_ObjectMeta g) = ''''"
  proof -
    from a obtain new st' where c: "tracker_Create RBGKind g (fk_rbgs s) = (Inr new, st')"
      using rbg_kind.Create_accepts [of "fk_rbgs s" g] by auto
    with rbg_kind.Create_stored_ok [OF st c] assms show ?thesis by (simp add: fake_ok_upd)
  qed
  show "\<exists>g' s'. run_state (Update_RBG fakeClient g) s = (Inr g', s') \<and> fake_ok s'"
    if a: "cl_rbgs (fake_cluster s) (rbg_key g) = Some h" "rbg_ObjectMeta g = rbg_ObjectMeta h"
  proof -
    have l: "tracker_lookup RBGKind (fk_rbgs s) (kd_key RBGKind g) = Some h" using a(1) by simp
    from a(2) rbg_kind.stored_okD [OF st l] obtain new st' where
        u: "tracker_update RBGKind False False g (fk_rbgs s) = (Inr new, st')"
      using rbg_kind.update_accepts [OF l, of False False] by auto
    with rbg_kind.update_stored_ok [OF st u] assms show ?thesis by (simp add: fake_ok_upd)
  qed
qed

interpretation fake_server: kube_reliable fakeClient fake_cluster "\<lambda>spec. spec" fake_ok
proof (unfold_locales, goal_cases)
  case (7 s k p)
  then have "stored_ok PDISKind (fk_pdis s)" "tracker_lookup PDISKind (fk_pdis s) k = Some p"
    by (simp_all add: fake_ok_def)
  then show ?case using pdis_kind.stored_okD by fastforce
next
  case (8 s g)
  then show ?case by (rule fake_rbg_total(1))
next
  case (9 s g h)
  then show ?case by (rule fake_rbg_total(2))
next
  case (10 s p old)
  from 10(3) have "om_ResourceVersion (pd_ObjectMeta p) = om_ResourceVersion (pd_ObjectMeta old)"
      "om_DeletionTimestamp (pd_ObjectMeta p) = om_DeletionTimestamp (pd_ObjectMeta old)"
    by (metis ObjectMeta.select_convs(4) ObjectMeta.surjective ObjectMeta.update_convs(10),
        metis ObjectMeta.select_convs(6) ObjectMeta.surjective ObjectMeta.update_convs(10))
  from fake_update_pdis_total [OF 10(1,2) this] show ?case by (simp only: fake_writes)
next
  case (11 s p old)
  then show ?case using fake_update_pdis_total [OF 11(1,2)] by (simp only: fake_writes)
qed (auto simp: tracker_Get_def fake_ok_def)

lemmas fake_client_laws = fake_read.kube_reader_axioms fake_write.kube_writer_axioms
  fake_server.kube_reliable_axioms

subsection \<open>The client satisfies the interface of the REST server\<close>

lemma fake_rest_calls [simp]:
  "List_PDIS fakeClient ns = on_pdis (\<lambda>st. (Inr \<lparr>pdl_Items = tracker_List PDISKind ns st\<rparr>, st))"
  "List_Profile fakeClient ns = on_profiles (\<lambda>st. (Inr \<lparr>epl_Items = tracker_List ProfileKind ns st\<rparr>, st))"
  "Create_PDIS fakeClient p = on_pdis (tracker_Create PDISKind p)"
  "Create_Profile fakeClient f = on_profiles (tracker_Create ProfileKind f)"
  "Update_Profile fakeClient f = on_profiles (tracker_update ProfileKind False False f)"
  "Delete_PDIS fakeClient p = do { now \<leftarrow> fake_Now; on_pdis (deleteObjectLocked PDISKind now p) }"
  "Delete_Profile fakeClient f = do { now \<leftarrow> fake_Now; on_profiles (deleteObjectLocked ProfileKind now f) }"
  by (simp_all add: fakeClient_def)

lemma fake_cluster_profiles:
  "fake_cluster (s\<lparr>fk_profiles := fs\<rparr>) = (fake_cluster s)\<lparr>cl_profiles := tracker_lookup ProfileKind fs\<rparr>"
  by (simp add: fake_cluster_def)

lemma fake_create_pdis_ok:
  assumes "run_state (Create_PDIS fakeClient p) s = (Inr p', s')"
  shows "cl_pdis (fake_cluster s) (pdis_key p) = None \<and>
         fake_cluster s' = (fake_cluster s)\<lparr>cl_pdis := (cl_pdis (fake_cluster s))(pdis_key p \<mapsto> p')\<rparr> \<and>
         same_identity (pd_ObjectMeta p) (pd_ObjectMeta p') \<and>
         om_DeletionTimestamp (pd_ObjectMeta p') = None \<and> pd_Spec p' = pd_Spec p"
proof -
  from assms obtain st where c: "tracker_Create PDISKind p (fk_pdis s) = (Inr p', st)"
      and s': "s' = s\<lparr>fk_pdis := st\<rparr>"
    by (cases "tracker_Create PDISKind p (fk_pdis s)") auto
  from pdis_kind.Create_done [OF c] s' show ?thesis
    by (simp add: fake_cluster_upd kind_ops same_identity_def)
qed

lemma fake_create_profile_ok:
  assumes "run_state (Create_Profile fakeClient f) s = (Inr f', s')"
  shows "cl_profiles (fake_cluster s) (profile_key f) = None \<and>
         cl_profiles (fake_cluster s') (profile_key f) = Some f' \<and>
         same_identity (ep_ObjectMeta f) (ep_ObjectMeta f') \<and> ep_Spec f' = ep_Spec f"
proof -
  from assms obtain st where c: "tracker_Create ProfileKind f (fk_profiles s) = (Inr f', st)"
      and s': "s' = s\<lparr>fk_profiles := st\<rparr>"
    by (cases "tracker_Create ProfileKind f (fk_profiles s)") auto
  from profile_kind.Create_done [OF c] s' show ?thesis
    by (simp add: kind_ops same_identity_def)
qed

lemma fake_update_profile_ok:
  assumes "run_state (Update_Profile fakeClient f) s = (Inr f', s')"
    and "\<not> gone_after_update (ep_ObjectMeta f)"
  shows "cl_profiles (fake_cluster s') (profile_key f) = Some f' \<and>
         same_object_meta (ep_ObjectMeta f) (ep_ObjectMeta f') \<and> ep_Spec f' = ep_Spec f"
proof -
  from assms(1) obtain st where u: "tracker_update ProfileKind False False f (fk_profiles s) = (Inr f', st)"
      and s': "s' = s\<lparr>fk_profiles := st\<rparr>"
    by (cases "tracker_update ProfileKind False False f (fk_profiles s)") auto
  from u show ?thesis
  proof (cases rule: profile_kind.update_done)
    case (1 old rv)
    have "ep_ObjectMeta f' = with_version rv (ep_ObjectMeta f)"
      using profile_kind.updated_meta [of False old rv f] 1(4) by simp
    with 1 s' assms(2) show ?thesis
      by (auto simp: same_object_meta_def with_version_def gone_after_update_def
          updated_def merge_status_def kind_ops Let_def)
  qed
qed

lemma fake_delete_ok:
  shows "run_state (Delete_PDIS fakeClient p) s = (None, s') \<Longrightarrow>
      \<exists>old. cl_pdis (fake_cluster s) (pdis_key p) = Some old \<and>
        pdis_after_delete old (cl_pdis (fake_cluster s') (pdis_key p))"
    and "run_state (Delete_Profile fakeClient f) s = (None, s') \<Longrightarrow>
      \<exists>old. cl_profiles (fake_cluster s) (profile_key f) = Some old \<and>
        profile_after_delete old (cl_profiles (fake_cluster s') (profile_key f))"
proof -
  let ?t = "int (fk_now s) + 1"
  have t: "?t \<noteq> 0" by simp
  show "\<exists>old. cl_pdis (fake_cluster s) (pdis_key p) = Some old \<and>
      pdis_after_delete old (cl_pdis (fake_cluster s') (pdis_key p))"
    if "run_state (Delete_PDIS fakeClient p) s = (None, s')"
  proof -
    from that have d: "deleteObjectLocked PDISKind ?t p (fk_pdis s) = (None, fk_pdis s')"
      by (auto simp: prod_eq_iff)
    from d t show ?thesis
      by (cases rule: pdis_kind.Delete_done)
         (auto simp: pdis_after_delete_def pdis_kind.lookup_filter [where k = "pdis_key p", simplified]
            updated_def merge_status_def kind_ops Let_def)
  qed
  show "\<exists>old. cl_profiles (fake_cluster s) (profile_key f) = Some old \<and>
      profile_after_delete old (cl_profiles (fake_cluster s') (profile_key f))"
    if "run_state (Delete_Profile fakeClient f) s = (None, s')"
  proof -
    from that have d: "deleteObjectLocked ProfileKind ?t f (fk_profiles s) = (None, fk_profiles s')"
      by (auto simp: prod_eq_iff)
    from d t show ?thesis
      by (cases rule: profile_kind.Delete_done)
         (auto simp: profile_after_delete_def profile_kind.lookup_filter [where k = "profile_key f", simplified]
            updated_def merge_status_def kind_ops Let_def)
  qed
qed

lemma fake_rest_frames:
  "run_state (Create_PDIS fakeClient p) s = (r, s') \<Longrightarrow> only_pdis (pdis_key p) (fake_cluster s) (fake_cluster s')"
  "run_state (Delete_PDIS fakeClient p) s = (e, s') \<Longrightarrow> only_pdis (pdis_key p) (fake_cluster s) (fake_cluster s')"
  using pdis_kind.tracker_frame(2) [of _ p "fk_pdis s"]
    pdis_kind.Delete_frame [of _ p "int (fk_now s) + 1" "fk_pdis s"]
  by (auto simp: only_pdis_def fake_cluster_upd)

lemma fake_profile_frames:
  "run_state (Create_Profile fakeClient f) s = (r, s') \<Longrightarrow> only_profile (profile_key f) (fake_cluster s) (fake_cluster s')"
  "run_state (Update_Profile fakeClient f) s = (r, s') \<Longrightarrow> only_profile (profile_key f) (fake_cluster s) (fake_cluster s')"
  "run_state (Delete_Profile fakeClient f) s = (e, s') \<Longrightarrow> only_profile (profile_key f) (fake_cluster s) (fake_cluster s')"
  using profile_kind.tracker_frame [of _ f] profile_kind.Delete_frame [of _ f "int (fk_now s) + 1" "fk_profiles s"]
  by (auto simp: only_profile_def fake_cluster_upd fake_cluster_profiles)

lemma fake_lists:
  assumes "fake_ok s"
  shows "distinct (map pdis_key (tracker_List PDISKind ns (fk_pdis s))) \<and>
      (\<forall>p. p \<in> set (tracker_List PDISKind ns (fk_pdis s)) \<longleftrightarrow>
         tracker_lookup PDISKind (fk_pdis s) (pdis_key p) = Some p \<and> (ns = '''' \<or> pd_Namespace p = ns))"
    and "distinct (map profile_key (tracker_List ProfileKind ns (fk_profiles s))) \<and>
      (\<forall>f. f \<in> set (tracker_List ProfileKind ns (fk_profiles s)) \<longleftrightarrow>
         tracker_lookup ProfileKind (fk_profiles s) (profile_key f) = Some f \<and> (ns = '''' \<or> ep_Namespace f = ns))"
proof -
  have k: "kd_key PDISKind = (\<lambda>p. pdis_key p)" "kd_key ProfileKind = (\<lambda>f. profile_key f)"
    by (simp_all add: fun_eq_iff)
  have "stored_ok PDISKind (fk_pdis s)" "stored_ok ProfileKind (fk_profiles s)"
    using assms by (simp_all add: fake_ok_def)
  then show "distinct (map pdis_key (tracker_List PDISKind ns (fk_pdis s))) \<and>
      (\<forall>p. p \<in> set (tracker_List PDISKind ns (fk_pdis s)) \<longleftrightarrow>
         tracker_lookup PDISKind (fk_pdis s) (pdis_key p) = Some p \<and> (ns = '''' \<or> pd_Namespace p = ns))"
    and "distinct (map profile_key (tracker_List ProfileKind ns (fk_profiles s))) \<and>
      (\<forall>f. f \<in> set (tracker_List ProfileKind ns (fk_profiles s)) \<longleftrightarrow>
         tracker_lookup ProfileKind (fk_profiles s) (profile_key f) = Some f \<and> (ns = '''' \<or> ep_Namespace f = ns))"
    using pdis_kind.List_contents(1) [of "fk_pdis s" _ ns] pdis_kind.List_contents(2) [of "fk_pdis s" ns]
      profile_kind.List_contents(1) [of "fk_profiles s" _ ns]
      profile_kind.List_contents(2) [of "fk_profiles s" ns]
    unfolding k kind_metas by blast+
qed

lemma fake_keeps_ok:
  assumes "fake_ok s"
  shows "fake_ok (snd (run_state (Create_PDIS fakeClient p) s))"
    and "fake_ok (snd (run_state (Update_PDIS fakeClient p) s))"
    and "fake_ok (snd (run_state (Delete_PDIS fakeClient p) s))"
    and "fake_ok (snd (run_state (Create_Profile fakeClient f) s))"
    and "fake_ok (snd (run_state (Update_Profile fakeClient f) s))"
    and "fake_ok (snd (run_state (Delete_Profile fakeClient f) s))"
  using assms pdis_kind.Create_stored_ok [OF _ prod.collapse [symmetric]]
    pdis_kind.update_stored_ok [OF _ prod.collapse [symmetric]] pdis_kind.Delete_stored_ok
    profile_kind.Create_stored_ok [OF _ prod.collapse [symmetric]]
    profile_kind.update_stored_ok [OF _ prod.collapse [symmetric]] profile_kind.Delete_stored_ok
  by (simp_all add: fake_ok_def)

interpretation fake_rest: kube_rest fakeClient fake_cluster "\<lambda>spec. spec" fake_ok
proof (unfold_locales, goal_cases)
  case (3 s ns)
  with fake_lists(1) [OF 3, of ns] show ?case by simp
next
  case (4 s ns)
  with fake_lists(2) [OF 4, of ns] show ?case by simp
next
  case (5 s k)
  then show ?case by (simp add: tracker_Get_def)
next
  case (6 p s r s')
  then show ?case by (rule fake_rest_frames(1))
next
  case (7 p s p' s')
  then show ?case by (rule fake_create_pdis_ok)
next
  case (8 p s e s')
  then show ?case by (rule fake_rest_frames(2))
next
  case (9 p s s')
  then show ?case by (rule fake_delete_ok(1))
next
  case (10 s p old)
  then have "stored_ok PDISKind (fk_pdis s)" by (simp add: fake_ok_def)
  from pdis_kind.Delete_accepts [OF this, of p old "int (fk_now s) + 1"] 10(2) show ?case by auto
next
  case (11 f s r s')
  then show ?case by (rule fake_profile_frames(1))
next
  case (12 f s f' s')
  then show ?case by (rule fake_create_profile_ok)
next
  case (13 f s r s')
  then show ?case by (rule fake_profile_frames(2))
next
  case (14 f s f' s')
  then show ?case by (rule fake_update_profile_ok)
next
  case (15 f s e s')
  then show ?case by (rule fake_profile_frames(3))
next
  case (16 f s s')
  then show ?case by (rule fake_delete_ok(2))
qed ((rule fake_keeps_ok; assumption) | (auto simp: fake_cluster_def; fail))+

lemmas fake_client_rest = fake_rest.kube_rest_axioms

end
