(* ===== verification/Go_Heap.thy ===== *)
theory Go_Heap
  imports Go_Prelude
begin

section \<open>Go memory: pointers, slices and maps\<close>

text \<open>
  The records of the other theories have value semantics. The generated deep-copy functions
  are about the memory below them, so this theory models it: a value holds pointers, slice
  headers and map references into a memory of cells, and a type says how to read a value.

  \<^item> \<open>contents\<close> reads a value through the memory as a tree, \<open>None\<close> when the memory does not
    have the shape of the type; \<open>footprint\<close> is the set of cells visited on the way.
  \<^item> The statement forms of generated copies are the combinators \<open>copy_ptr\<close>, \<open>copy_slice\<close>,
    \<open>copy_map\<close> and \<open>copy_fields\<close>.
  \<^item> The locale \<open>deep_copier\<close> is the contract of a copy function for a type: it only
    allocates, the result reads like the original, and lies in new cells. Each combinator keeps
    the contract.

  A nil slice and an empty one are different values here. Capacity is left out: only
  \<^verbatim>\<open>append\<close> reads it. Times are scalars, as their type documents them to be immutable.
\<close>

type_synonym addr = nat

datatype val =
    Text string
  | Number int
  | Flag bool
  | Ptr "addr option"
  | Slice "(addr \<times> nat \<times> nat) option"
  | MapRef "addr option"
  | Struct "(string \<times> val) list"

text \<open>A cell: what \<^verbatim>\<open>new\<close> allocates, the array behind a slice, or a map of strings.\<close>

datatype cell = Obj val | Arr "val list" | Tbl "(string, string) gomap"

record memory =
  mem_cells :: "addr \<rightharpoonup> cell"
  mem_next :: addr

definition mem_ok :: "memory \<Rightarrow> bool" where
  "mem_ok h \<longleftrightarrow> (\<forall>a \<ge> mem_next h. mem_cells h a = None)"

definition extends :: "memory \<Rightarrow> memory \<Rightarrow> bool" where
  "extends h h' \<longleftrightarrow> mem_next h \<le> mem_next h' \<and> (\<forall>a < mem_next h. mem_cells h' a = mem_cells h a)"

lemma extends_refl [simp]: "extends h h"
  by (simp add: extends_def)

lemma extends_trans: "extends h h1 \<Longrightarrow> extends h1 h2 \<Longrightarrow> extends h h2"
  by (auto simp: extends_def)

lemma extends_next: "extends h h' \<Longrightarrow> mem_next h \<le> mem_next h'"
  by (simp add: extends_def)

subsection \<open>Types and what a value reads as\<close>

text \<open>
  \<open>TShared\<close> reads a value without following it: the value itself, pointer or not, is its
  contents. No Go type is \<open>TShared\<close>; it serves to say that a copy keeps a pointer.
\<close>

datatype ty =
    TScalar
  | TShared
  | TPtr ty
  | TSlice ty
  | TMap
  | TStruct "(string \<times> ty) list"

datatype tree =
    Leaf val
  | NilTree
  | Pointee tree
  | Elems "tree list"
  | Entries "string \<rightharpoonup> string"
  | Fields "(string \<times> tree) list"

definition is_scalar :: "val \<Rightarrow> bool" where
  "is_scalar v = (case v of Text _ \<Rightarrow> True | Number _ \<Rightarrow> True | Flag _ \<Rightarrow> True | _ \<Rightarrow> False)"

definition window :: "nat \<Rightarrow> nat \<Rightarrow> 'a list \<Rightarrow> 'a list" where
  "window off len ws = take len (drop off ws)"

definition read_field :: "(memory \<Rightarrow> val \<Rightarrow> tree option) \<Rightarrow> memory \<Rightarrow> (string \<times> val) list \<Rightarrow> string \<Rightarrow>
    (string \<times> tree) option" where
  "read_field r h vs n = (case map_of vs n of None \<Rightarrow> None | Some w \<Rightarrow> map_option (Pair n) (r h w))"

primrec contents :: "ty \<Rightarrow> memory \<Rightarrow> val \<Rightarrow> tree option" where
  "contents TScalar = (\<lambda>h v. if is_scalar v then Some (Leaf v) else None)"
| "contents TShared = (\<lambda>h v. Some (Leaf v))"
| "contents (TPtr t) = (\<lambda>h v. case v of
     Ptr None \<Rightarrow> Some NilTree
   | Ptr (Some a) \<Rightarrow> (case mem_cells h a of
       Some (Obj w) \<Rightarrow> map_option Pointee (contents t h w)
     | _ \<Rightarrow> None)
   | _ \<Rightarrow> None)"
| "contents (TSlice t) = (\<lambda>h v. case v of
     Slice None \<Rightarrow> Some NilTree
   | Slice (Some (a, off, len)) \<Rightarrow> (case mem_cells h a of
       Some (Arr ws) \<Rightarrow> if off + len \<le> length ws
         then map_option Elems (those (map (contents t h) (window off len ws))) else None
     | _ \<Rightarrow> None)
   | _ \<Rightarrow> None)"
| "contents TMap = (\<lambda>h v. case v of
     MapRef None \<Rightarrow> Some NilTree
   | MapRef (Some a) \<Rightarrow> (case mem_cells h a of
       Some (Tbl m) \<Rightarrow> if gomap_ok m then Some (Entries (map_of m)) else None
     | _ \<Rightarrow> None)
   | _ \<Rightarrow> None)"
| "contents (TStruct fs) = (\<lambda>h v. case v of
     Struct vs \<Rightarrow> if map fst vs = map fst fs
       then map_option Fields (those (map (\<lambda>(n, r). read_field r h vs n) (map (map_prod id contents) fs)))
       else None
   | _ \<Rightarrow> None)"

primrec footprint :: "ty \<Rightarrow> memory \<Rightarrow> val \<Rightarrow> addr set" where
  "footprint TScalar = (\<lambda>h v. {})"
| "footprint TShared = (\<lambda>h v. {})"
| "footprint (TPtr t) = (\<lambda>h v. case v of
     Ptr (Some a) \<Rightarrow> insert a (case mem_cells h a of Some (Obj w) \<Rightarrow> footprint t h w | _ \<Rightarrow> {})
   | _ \<Rightarrow> {})"
| "footprint (TSlice t) = (\<lambda>h v. case v of
     Slice (Some (a, off, len)) \<Rightarrow> insert a (case mem_cells h a of
       Some (Arr ws) \<Rightarrow> \<Union> (footprint t h ` set (window off len ws)) | _ \<Rightarrow> {})
   | _ \<Rightarrow> {})"
| "footprint TMap = (\<lambda>h v. case v of MapRef (Some a) \<Rightarrow> {a} | _ \<Rightarrow> {})"
| "footprint (TStruct fs) = (\<lambda>h v. case v of
     Struct vs \<Rightarrow> \<Union> ((\<lambda>(n, r). case map_of vs n of None \<Rightarrow> {} | Some w \<Rightarrow> r h w) `
       set (map (map_prod id footprint) fs))
   | _ \<Rightarrow> {})"

text \<open>Types whose values hold no reference, so that an assignment copies them.\<close>

primrec flat :: "ty \<Rightarrow> bool" where
  "flat TScalar = True"
| "flat TShared = True"
| "flat (TPtr t) = False"
| "flat (TSlice t) = False"
| "flat TMap = False"
| "flat (TStruct fs) = list_all (\<lambda>(n, b). b) (map (map_prod id flat) fs)"

subsection \<open>Reading structs\<close>

lemma list_all2_member: "list_all2 P xs ys \<Longrightarrow> x \<in> set xs \<Longrightarrow> \<exists>y \<in> set ys. P x y"
  by (induction rule: list_all2_induct) auto

lemma list_all2_member2: "list_all2 P xs ys \<Longrightarrow> y \<in> set ys \<Longrightarrow> \<exists>x \<in> set xs. P x y"
  by (induction rule: list_all2_induct) auto

lemma those_Some_map: "those (map f xs) = Some ys \<longleftrightarrow> list_all2 (\<lambda>x y. f x = Some y) xs ys"
  by (induction xs arbitrary: ys) (force simp: list_all2_Cons1 split: option.splits)+

lemma those_map_cong: "(\<And>x. x \<in> set xs \<Longrightarrow> f x = g x) \<Longrightarrow> those (map f xs) = those (map g xs)"
  by (simp cong: map_cong)

lemma those_map_None: "those (map f xs) \<noteq> None \<Longrightarrow> x \<in> set xs \<Longrightarrow> f x \<noteq> None"
  by (induction xs) (auto split: option.splits)

lemma contents_struct_cases:
  assumes "contents (TStruct fs) h v = Some x"
  obtains vs where "v = Struct vs" and "map fst vs = map fst fs"
    and "\<And>n t. (n, t) \<in> set fs \<Longrightarrow> \<exists>w y. map_of vs n = Some w \<and> contents t h w = Some y"
proof -
  from assms obtain vs where v: "v = Struct vs" and n: "map fst vs = map fst fs"
    and t: "those (map (\<lambda>(n, r). read_field r h vs n) (map (map_prod id contents) fs)) \<noteq> None"
    by (auto split: val.splits if_splits)
  have "\<exists>w y. map_of vs n = Some w \<and> contents t h w = Some y" if "(n, t) \<in> set fs" for n t
  proof -
    from that have "(n, contents t) \<in> set (map (map_prod id contents) fs)" by force
    from those_map_None [OF t this] show ?thesis
      by (auto simp: read_field_def split: option.splits)
  qed
  with v n that show thesis by blast
qed

lemma contents_struct_cong:
  assumes "map fst vs' = map fst vs"
    and "\<And>n t. (n, t) \<in> set fs \<Longrightarrow> read_field (contents t) h' vs' n = read_field (contents t) h vs n"
  shows "contents (TStruct fs) h' (Struct vs') = contents (TStruct fs) h (Struct vs)"
proof -
  have "those (map (\<lambda>(n, r). read_field r h' vs' n) (map (map_prod id contents) fs)) =
      those (map (\<lambda>(n, r). read_field r h vs n) (map (map_prod id contents) fs))"
    by (rule those_map_cong) (auto simp: assms(2))
  with assms(1) show ?thesis by simp
qed

lemma footprint_struct:
  "footprint (TStruct fs) h (Struct vs) =
     (\<Union>(n, t) \<in> set fs. case map_of vs n of None \<Rightarrow> {} | Some w \<Rightarrow> footprint t h w)"
  by (auto split: option.splits)

lemma footprint_struct_subset:
  "footprint (TStruct fs) h (Struct vs) \<subseteq> A \<longleftrightarrow>
     (\<forall>(n, t) \<in> set fs. \<forall>w. map_of vs n = Some w \<longrightarrow> footprint t h w \<subseteq> A)"
  unfolding footprint_struct by (fastforce split: option.splits)

lemma footprint_field: "(n, t) \<in> set fs \<Longrightarrow> map_of vs n = Some w \<Longrightarrow>
    footprint t h w \<subseteq> footprint (TStruct fs) h (Struct vs)"
  using footprint_struct_subset by blast

lemma flat_struct: "flat (TStruct fs) \<longleftrightarrow> (\<forall>(n, t) \<in> set fs. flat t)"
  by (induction fs) auto

lemma contents_slice_cases:
  assumes "contents (TSlice t) h v = Some x"
  obtains "v = Slice None" and "x = NilTree"
  | a off len ws xs where "v = Slice (Some (a, off, len))" and "mem_cells h a = Some (Arr ws)"
    and "off + len \<le> length ws" and "x = Elems xs"
    and "list_all2 (\<lambda>w y. contents t h w = Some y) (window off len ws) xs"
  using assms
  by (auto simp: those_Some_map split: val.splits option.splits cell.splits if_splits prod.splits)

lemma contents_ptr_cases:
  assumes "contents (TPtr t) h v = Some x"
  obtains "v = Ptr None" and "x = NilTree"
  | a w y where "v = Ptr (Some a)" and "mem_cells h a = Some (Obj w)" and "contents t h w = Some y"
    and "x = Pointee y"
  using assms by (auto split: val.splits option.splits cell.splits)

lemma contents_map_cases:
  assumes "contents TMap h v = Some x"
  obtains "v = MapRef None" and "x = NilTree"
  | a m where "v = MapRef (Some a)" and "mem_cells h a = Some (Tbl m)" and "gomap_ok m"
    and "x = Entries (map_of m)"
  using assms by (auto split: val.splits option.splits cell.splits if_splits)

subsection \<open>Reading depends on the footprint only\<close>

lemma contents_frame:
  assumes "contents t h v = Some x" and "\<And>a. a \<in> footprint t h v \<Longrightarrow> mem_cells h' a = mem_cells h a"
  shows "contents t h' v = Some x \<and> footprint t h' v = footprint t h v"
  using assms
proof (induction t arbitrary: v x)
  case (TPtr t)
  from TPtr.prems(1) show ?case
  proof (cases rule: contents_ptr_cases)
    case (2 a w y)
    with TPtr.prems(2) have a: "mem_cells h' a = Some (Obj w)" by simp
    have "contents t h' w = Some y \<and> footprint t h' w = footprint t h w"
      using TPtr.prems(2) 2 by (intro TPtr.IH) simp_all
    with 2 a show ?thesis by simp
  qed simp
next
  case (TSlice t)
  from TSlice.prems(1) show ?case
  proof (cases rule: contents_slice_cases)
    case (2 a off len ws xs)
    with TSlice.prems(2) have a: "mem_cells h' a = Some (Arr ws)" by simp
    have eq: "contents t h' w = Some y \<and> footprint t h' w = footprint t h w"
      if "w \<in> set (window off len ws)" "contents t h w = Some y" for w y
      using TSlice.prems(2) 2 that by (intro TSlice.IH) auto
    with 2(5) have l: "list_all2 (\<lambda>w y. contents t h' w = Some y) (window off len ws) xs"
      by (auto simp: list_all2_conv_all_nth)
    have f: "footprint t h' w = footprint t h w" if "w \<in> set (window off len ws)" for w
      using eq [OF that] list_all2_member [OF 2(5) that] by blast
    from 2 a l f show ?thesis by (simp add: those_Some_map [THEN iffD2])
  qed simp
next
  case TMap
  from TMap.prems(1) show ?case
    by (cases rule: contents_map_cases) (use TMap.prems(2) in auto)
next
  case (TStruct fs)
  from TStruct.prems(1) obtain vs where v: "v = Struct vs" and n: "map fst vs = map fst fs"
    and fields: "\<And>n t. (n, t) \<in> set fs \<Longrightarrow> \<exists>w y. map_of vs n = Some w \<and> contents t h w = Some y"
    by (rule contents_struct_cases) blast
  have eq: "contents t h' w = contents t h w \<and> footprint t h' w = footprint t h w"
    if "(n, t) \<in> set fs" "map_of vs n = Some w" for n t w
  proof -
    from fields [OF that(1)] that(2) obtain y where "contents t h w = Some y" by auto
    moreover have "mem_cells h' a = mem_cells h a" if "a \<in> footprint t h w" for a
      using TStruct.prems(2) footprint_field [OF \<open>(n, t) \<in> set fs\<close> \<open>map_of vs n = Some w\<close>, of h] that v
      by blast
    ultimately show ?thesis
      using TStruct.IH [of "(n, t)" t w] that(1) by auto
  qed
  have "contents (TStruct fs) h' (Struct vs) = contents (TStruct fs) h (Struct vs)"
    by (rule contents_struct_cong) (auto simp: read_field_def eq split: option.splits)
  moreover have "footprint (TStruct fs) h' (Struct vs) = footprint (TStruct fs) h (Struct vs)"
    unfolding footprint_struct by (rule SUP_cong) (auto simp: eq split: option.splits)
  ultimately show ?case using TStruct.prems(1) v by simp
qed simp_all

lemma contents_dom: "contents t h v = Some x \<Longrightarrow> footprint t h v \<subseteq> dom (mem_cells h)"
proof (induction t arbitrary: v x)
  case (TPtr t)
  from TPtr.prems show ?case
    by (cases rule: contents_ptr_cases) (use TPtr.IH in auto)
next
  case (TSlice t)
  from TSlice.prems show ?case
  proof (cases rule: contents_slice_cases)
    case (2 a off len ws xs)
    have "footprint t h w \<subseteq> dom (mem_cells h)" if "w \<in> set (window off len ws)" for w
      using list_all2_member [OF 2(5) that] TSlice.IH by blast
    with 2 show ?thesis by auto
  qed simp
next
  case TMap
  from TMap.prems show ?case by (cases rule: contents_map_cases) auto
next
  case (TStruct fs)
  from TStruct.prems obtain vs where v: "v = Struct vs"
    and fields: "\<And>n t. (n, t) \<in> set fs \<Longrightarrow> \<exists>w y. map_of vs n = Some w \<and> contents t h w = Some y"
    by (rule contents_struct_cases) blast
  show ?case
    unfolding v footprint_struct_subset using fields TStruct.IH by fastforce
qed simp_all

lemma footprint_below: "mem_ok h \<Longrightarrow> contents t h v = Some x \<Longrightarrow> footprint t h v \<subseteq> {..<mem_next h}"
  using contents_dom [of t h v x] unfolding mem_ok_def by (auto simp: not_le [symmetric])

lemma contents_extends:
  assumes "mem_ok h" and "contents t h v = Some x" and "extends h h'"
  shows "contents t h' v = Some x" and "footprint t h' v = footprint t h v"
proof -
  have "mem_cells h' a = mem_cells h a" if "a \<in> footprint t h v" for a
    using footprint_below [OF assms(1,2)] assms(3) that by (auto simp: extends_def)
  from contents_frame [OF assms(2) this]
  show "contents t h' v = Some x" and "footprint t h' v = footprint t h v" by simp_all
qed

lemma flat_footprint: "flat t \<Longrightarrow> footprint t h v = {}"
proof (induction t arbitrary: v)
  case (TStruct fs)
  then have "\<And>n t w. (n, t) \<in> set fs \<Longrightarrow> footprint t h w = {}"
    unfolding flat_struct by force
  then show ?case by (auto split: val.split option.splits)
qed simp_all

subsection \<open>The statements of generated copies\<close>

type_synonym copier = "val \<Rightarrow> (memory, val) state"

definition fresh :: "(memory, addr) state" where
  "fresh = do {
     h \<leftarrow> State_Monad.get;
     State_Monad.set (h\<lparr>mem_next := Suc (mem_next h)\<rparr>);
     State_Monad.return (mem_next h)
   }"

definition store :: "addr \<Rightarrow> cell \<Rightarrow> (memory, unit) state" where
  "store a c = do {
     h \<leftarrow> State_Monad.get;
     State_Monad.set (h\<lparr>mem_cells := (mem_cells h)(a \<mapsto> c)\<rparr>)
   }"

text \<open>\<^verbatim>\<open>**out = **in\<close>, \<^verbatim>\<open>copy(*out, *in)\<close> and plain assignments: the value itself.\<close>

definition assign :: copier where
  "assign v = State_Monad.return v"

text \<open>\<^verbatim>\<open>if in.F != nil { *out = new(T); (*in).DeepCopyInto(*out) }\<close>\<close>

definition copy_ptr :: "copier \<Rightarrow> copier" where
  "copy_ptr into v = (case v of
     Ptr (Some a) \<Rightarrow> do {
       h \<leftarrow> State_Monad.get;
       (case mem_cells h a of
          Some (Obj w) \<Rightarrow> do {
            b \<leftarrow> fresh;
            w' \<leftarrow> into w;
            store b (Obj w');
            State_Monad.return (Ptr (Some b))
          }
        | _ \<Rightarrow> State_Monad.return v)
     }
   | _ \<Rightarrow> State_Monad.return v)"

primrec copy_elems :: "copier \<Rightarrow> val list \<Rightarrow> (memory, val list) state" where
  "copy_elems into [] = State_Monad.return []"
| "copy_elems into (w # ws) = do {
     w' \<leftarrow> into w;
     ws' \<leftarrow> copy_elems into ws;
     State_Monad.return (w' # ws')
   }"

text \<open>\<^verbatim>\<open>if in.F != nil { *out = make([]T, len(*in)); for i := range *in { ... } }\<close>\<close>

definition copy_slice :: "copier \<Rightarrow> copier" where
  "copy_slice into v = (case v of
     Slice (Some (a, off, len)) \<Rightarrow> do {
       h \<leftarrow> State_Monad.get;
       (case mem_cells h a of
          Some (Arr ws) \<Rightarrow> do {
            b \<leftarrow> fresh;
            ws' \<leftarrow> copy_elems into (window off len ws);
            store b (Arr ws');
            State_Monad.return (Slice (Some (b, 0, length ws')))
          }
        | _ \<Rightarrow> State_Monad.return v)
     }
   | _ \<Rightarrow> State_Monad.return v)"

text \<open>\<^verbatim>\<open>*out = make(map[string]string, len(*in)); for key, val := range *in { (*out)[key] = val }\<close>\<close>

definition copy_map :: copier where
  "copy_map v = (case v of
     MapRef (Some a) \<Rightarrow> do {
       h \<leftarrow> State_Monad.get;
       (case mem_cells h a of
          Some (Tbl m) \<Rightarrow> do {
            b \<leftarrow> fresh;
            store b (Tbl (fold (\<lambda>(k, x). gomap_set k x) m []));
            State_Monad.return (MapRef (Some b))
          }
        | _ \<Rightarrow> State_Monad.return v)
     }
   | _ \<Rightarrow> State_Monad.return v)"

definition set_field :: "string \<Rightarrow> val \<Rightarrow> (string \<times> val) list \<Rightarrow> (string \<times> val) list" where
  "set_field f w vs = map (\<lambda>(n, u). (n, if n = f then w else u)) vs"

definition on_field :: "string \<Rightarrow> copier \<Rightarrow> copier" where
  "on_field f c v = (case v of
     Struct vs \<Rightarrow> (case map_of vs f of
         Some w \<Rightarrow> do { w' \<leftarrow> c w; State_Monad.return (Struct (set_field f w' vs)) }
       | None \<Rightarrow> State_Monad.return v)
   | _ \<Rightarrow> State_Monad.return v)"

text \<open>
  A \<^verbatim>\<open>DeepCopyInto\<close>: the assignment \<^verbatim>\<open>*out = *in\<close>, then one statement per listed field. The
  destination is storage of the new object, so the function is given the value at \<^verbatim>\<open>in\<close> and
  returns the value it leaves at \<^verbatim>\<open>out\<close>.
\<close>

primrec copy_fields :: "(string \<times> copier) list \<Rightarrow> copier" where
  "copy_fields [] = (\<lambda>out. State_Monad.return out)"
| "copy_fields (fc # fcs) = (\<lambda>out. do { out' \<leftarrow> on_field (fst fc) (snd fc) out; copy_fields fcs out' })"

lemma run_fresh [run_simps]: "run_state fresh h = (mem_next h, h\<lparr>mem_next := Suc (mem_next h)\<rparr>)"
  by (simp add: fresh_def State_Monad.get_def State_Monad.set_def)

lemma run_store [run_simps]: "run_state (store a c) h = ((), h\<lparr>mem_cells := (mem_cells h)(a \<mapsto> c)\<rparr>)"
  by (simp add: store_def State_Monad.get_def State_Monad.set_def)

lemma run_assign [run_simps]: "run_state (assign v) h = (v, h)"
  by (simp add: assign_def)

lemma set_field_names [simp]: "map fst (set_field f w vs) = map fst vs"
  by (simp add: set_field_def case_prod_beta comp_def)

lemma map_of_set_field:
  "map_of (set_field f w vs) n = (if n = f then map_option (\<lambda>_. w) (map_of vs n) else map_of vs n)"
  by (induction vs) (auto simp: set_field_def)

subsection \<open>The contract of a copy\<close>

locale deep_copier =
  fixes t :: ty and into :: copier
  assumes copy: "mem_ok h \<Longrightarrow> contents t h v = Some x \<Longrightarrow> run_state (into v) h = (v', h') \<Longrightarrow>
      mem_ok h' \<and> extends h h' \<and> contents t h' v' = Some x \<and> footprint t h' v' \<subseteq> {mem_next h..<mem_next h'}"
begin

lemma copy_disjoint:
  assumes "mem_ok h" and "contents t h v = Some x" and "run_state (into v) h = (v', h')"
  shows "footprint t h' v \<inter> footprint t h' v' = {}"
proof -
  from copy [OF assms] have e: "extends h h'" and "footprint t h' v' \<subseteq> {mem_next h..<mem_next h'}" by simp_all
  moreover from footprint_below [OF assms(1,2)] contents_extends(2) [OF assms(1,2) e]
  have "footprint t h' v \<subseteq> {..<mem_next h}" by simp
  ultimately show ?thesis by fastforce
qed

text \<open>Whatever is written to the cells of one, the other reads as before.\<close>

lemma copy_isolated:
  assumes "mem_ok h" and "contents t h v = Some x" and "run_state (into v) h = (v', h')"
  shows "\<And>g. (\<And>a. a \<notin> footprint t h' v' \<Longrightarrow> mem_cells g a = mem_cells h' a) \<Longrightarrow> contents t g v = Some x"
    and "\<And>g. (\<And>a. a \<notin> footprint t h' v \<Longrightarrow> mem_cells g a = mem_cells h' a) \<Longrightarrow> contents t g v' = Some x"
proof -
  note c = copy [OF assms] and d = copy_disjoint [OF assms]
  from c have e: "extends h h'" by simp
  note old = contents_extends(1) [OF assms(1,2) e]
  show "contents t g v = Some x" if "\<And>a. a \<notin> footprint t h' v' \<Longrightarrow> mem_cells g a = mem_cells h' a" for g
    using contents_frame [OF old, of g] d that by (metis disjoint_iff)
  show "contents t g v' = Some x" if "\<And>a. a \<notin> footprint t h' v \<Longrightarrow> mem_cells g a = mem_cells h' a" for g
    using contents_frame [of t h' v' x g] c d that by (metis disjoint_iff)
qed

lemma copy_elems:
  assumes "mem_ok h" and "list_all2 (\<lambda>w y. contents t h w = Some y) ws xs"
    and "run_state (copy_elems into ws) h = (ws', h')"
  shows "mem_ok h' \<and> extends h h' \<and> list_all2 (\<lambda>w y. contents t h' w = Some y) ws' xs \<and>
    \<Union> (footprint t h' ` set ws') \<subseteq> {mem_next h..<mem_next h'}"
  using assms
proof (induction ws arbitrary: h xs ws' h')
  case (Cons w ws)
  from Cons.prems(2) obtain y ys where xs: "xs = y # ys" "contents t h w = Some y"
    "list_all2 (\<lambda>w y. contents t h w = Some y) ws ys" by (auto simp: list_all2_Cons1)
  obtain w1 h1 where r1: "run_state (into w) h = (w1, h1)" by (metis surj_pair)
  from copy [OF Cons.prems(1) xs(2) r1] have c1: "mem_ok h1" "extends h h1" "contents t h1 w1 = Some y"
    "footprint t h1 w1 \<subseteq> {mem_next h..<mem_next h1}" by simp_all
  have l1: "list_all2 (\<lambda>w y. contents t h1 w = Some y) ws ys"
    using xs(3) contents_extends(1) [OF Cons.prems(1) _ c1(2)] by (auto elim: list_all2_mono)
  obtain ws2 h2 where r2: "run_state (copy_elems into ws) h1 = (ws2, h2)" by (metis surj_pair)
  from Cons.IH [OF c1(1) l1 r2] have c2: "mem_ok h2" "extends h1 h2"
    "list_all2 (\<lambda>w y. contents t h2 w = Some y) ws2 ys"
    "\<Union> (footprint t h2 ` set ws2) \<subseteq> {mem_next h1..<mem_next h2}" by blast+
  from Cons.prems(3) r1 r2 have e: "ws' = w1 # ws2" "h' = h2" by simp_all
  note w = contents_extends [OF c1(1,3) c2(2)]
  have "mem_next h \<le> mem_next h1" "mem_next h1 \<le> mem_next h2" using c1(2) c2(2) by (simp_all add: extends_next)
  with w c1(4) c2(4) have "\<Union> (footprint t h2 ` set (w1 # ws2)) \<subseteq> {mem_next h..<mem_next h2}" by fastforce
  with w(1) c2 extends_trans [OF c1(2) c2(2)] show ?case unfolding e xs(1) by simp
qed simp

end

subsection \<open>Every statement form keeps the contract\<close>

lemma copier_flat: "flat t \<Longrightarrow> deep_copier t assign"
proof unfold_locales
  fix h v x v' h'
  assume "flat t" "mem_ok h" "contents t h v = Some x" "run_state (assign v) h = (v', h')"
  then show "mem_ok h' \<and> extends h h' \<and> contents t h' v' = Some x \<and>
      footprint t h' v' \<subseteq> {mem_next h..<mem_next h'}"
    by (auto simp: run_assign flat_footprint)
qed

text \<open>Reserve a cell, run the copies that fill it, then store.\<close>

lemma alloc_fill:
  assumes "mem_ok h" and "mem_ok h1" and "extends (h\<lparr>mem_next := Suc (mem_next h)\<rparr>) h1"
    and "h2 = h1\<lparr>mem_cells := (mem_cells h1)(mem_next h \<mapsto> c)\<rparr>"
  shows "mem_ok h2" and "extends h h2" and "mem_next h < mem_next h2" and "mem_next h2 = mem_next h1"
    and "mem_cells h2 (mem_next h) = Some c"
    and "contents t h1 w = Some x \<Longrightarrow> footprint t h1 w \<subseteq> {Suc (mem_next h)..<mem_next h1} \<Longrightarrow>
      contents t h2 w = Some x \<and> footprint t h2 w = footprint t h1 w"
proof -
  show "mem_ok h2" "extends h h2" "mem_next h < mem_next h2" "mem_next h2 = mem_next h1"
    "mem_cells h2 (mem_next h) = Some c"
    using assms by (auto simp: mem_ok_def extends_def)
  assume f: "contents t h1 w = Some x" "footprint t h1 w \<subseteq> {Suc (mem_next h)..<mem_next h1}"
  have "mem_cells h2 a = mem_cells h1 a" if "a \<in> footprint t h1 w" for a
    using f(2) that assms(4) by fastforce
  from contents_frame [OF f(1) this]
  show "contents t h2 w = Some x \<and> footprint t h2 w = footprint t h1 w" .
qed

lemma mem_ok_reserve [simp]: "mem_ok h \<Longrightarrow> mem_ok (h\<lparr>mem_next := Suc (mem_next h)\<rparr>)"
  by (simp add: mem_ok_def)

lemma contents_reserve:
  assumes "mem_ok h" and "contents t h w = Some x"
  shows "contents t (h\<lparr>mem_next := Suc (mem_next h)\<rparr>) w = Some x"
  by (rule contents_extends(1) [OF assms]) (simp add: extends_def)

lemma copier_ptr:
  assumes "deep_copier t into"
  shows "deep_copier (TPtr t) (copy_ptr into)"
proof unfold_locales
  fix h v x v' h'
  assume ok: "mem_ok h" and c: "contents (TPtr t) h v = Some x"
    and r: "run_state (copy_ptr into v) h = (v', h')"
  from c show "mem_ok h' \<and> extends h h' \<and> contents (TPtr t) h' v' = Some x \<and>
      footprint (TPtr t) h' v' \<subseteq> {mem_next h..<mem_next h'}"
  proof (cases rule: contents_ptr_cases)
    case 1
    with r ok show ?thesis by (auto simp: copy_ptr_def)
  next
    case (2 a w y)
    let ?h0 = "h\<lparr>mem_next := Suc (mem_next h)\<rparr>"
    obtain w1 h1 where r1: "run_state (into w) ?h0 = (w1, h1)" by (metis surj_pair)
    from deep_copier.copy [OF assms mem_ok_reserve [OF ok] contents_reserve [OF ok 2(3)] r1]
    have c1: "mem_ok h1" "extends ?h0 h1" "contents t h1 w1 = Some y"
      "footprint t h1 w1 \<subseteq> {Suc (mem_next h)..<mem_next h1}" by simp_all
    from r 2 r1 have e: "v' = Ptr (Some (mem_next h))"
      "h' = h1\<lparr>mem_cells := (mem_cells h1)(mem_next h \<mapsto> Obj w1)\<rparr>"
      by (auto simp: copy_ptr_def run_fresh run_store State_Monad.get_def)
    note al = alloc_fill [OF ok c1(1,2) e(2)]
    from al(6) [OF c1(3,4)] al(1-5) c1(4) 2(4) show ?thesis by (auto simp: e(1))
  qed
qed

lemma copier_slice:
  assumes "deep_copier t into"
  shows "deep_copier (TSlice t) (copy_slice into)"
proof unfold_locales
  fix h v x v' h'
  assume ok: "mem_ok h" and c: "contents (TSlice t) h v = Some x"
    and r: "run_state (copy_slice into v) h = (v', h')"
  from c show "mem_ok h' \<and> extends h h' \<and> contents (TSlice t) h' v' = Some x \<and>
      footprint (TSlice t) h' v' \<subseteq> {mem_next h..<mem_next h'}"
  proof (cases rule: contents_slice_cases)
    case 1
    with r ok show ?thesis by (auto simp: copy_slice_def)
  next
    case (2 a off len ws xs)
    let ?h0 = "h\<lparr>mem_next := Suc (mem_next h)\<rparr>" and ?ws = "window off len ws"
    obtain ws1 h1 where r1: "run_state (copy_elems into ?ws) ?h0 = (ws1, h1)" by (metis surj_pair)
    have l: "list_all2 (\<lambda>w y. contents t ?h0 w = Some y) ?ws xs"
      using 2(5) contents_reserve [OF ok] by (auto elim: list_all2_mono)
    from deep_copier.copy_elems [OF assms mem_ok_reserve [OF ok] l r1]
    have c1: "mem_ok h1" "extends ?h0 h1" "list_all2 (\<lambda>w y. contents t h1 w = Some y) ws1 xs"
      "\<Union> (footprint t h1 ` set ws1) \<subseteq> {Suc (mem_next h)..<mem_next h1}" by simp_all
    from r 2 r1 have e: "v' = Slice (Some (mem_next h, 0, length ws1))"
      "h' = h1\<lparr>mem_cells := (mem_cells h1)(mem_next h \<mapsto> Arr ws1)\<rparr>"
      by (auto simp: copy_slice_def run_fresh run_store State_Monad.get_def)
    note al = alloc_fill [OF ok c1(1,2) e(2)]
    have k: "contents t h' w = Some y \<and> footprint t h' w = footprint t h1 w"
      if "w \<in> set ws1" "contents t h1 w = Some y" for w y
      using al(6) [OF that(2)] c1(4) that(1) by blast
    with c1(3) have l': "list_all2 (\<lambda>w y. contents t h' w = Some y) ws1 xs"
      by (auto simp: list_all2_conv_all_nth)
    have "footprint t h' w \<subseteq> {Suc (mem_next h)..<mem_next h1}" if "w \<in> set ws1" for w
    proof -
      from list_all2_member [OF c1(3) that] obtain y where "contents t h1 w = Some y" by blast
      from k [OF that this] c1(4) that show ?thesis by blast
    qed
    with l' al(1-5) 2(4) show ?thesis
      by (auto simp: e(1) window_def those_Some_map) force+
  qed
qed

lemma gomap_refill:
  "gomap_ok m \<Longrightarrow> gomap_ok acc \<Longrightarrow> gomap_ok (fold (\<lambda>(k, x). gomap_set k x) m acc) \<and>
     map_of (fold (\<lambda>(k, x). gomap_set k x) m acc) = map_of acc ++ map_of m"
proof (induction m arbitrary: acc)
  case (Cons kx m)
  obtain k x where kx: "kx = (k, x)" by force
  from Cons.prems kx have "gomap_ok m" "map_of m k = None"
    by (simp_all add: gomap_ok_def map_of_eq_None_iff)
  with Cons.IH [of "gomap_set k x acc"] Cons.prems(2) show ?case
    by (auto simp: kx map_add_def fun_eq_iff split: option.splits)
qed simp

lemma copier_map: "deep_copier TMap copy_map"
proof unfold_locales
  fix h v x v' h'
  assume ok: "mem_ok h" and c: "contents TMap h v = Some x" and r: "run_state (copy_map v) h = (v', h')"
  from c show "mem_ok h' \<and> extends h h' \<and> contents TMap h' v' = Some x \<and>
      footprint TMap h' v' \<subseteq> {mem_next h..<mem_next h'}"
  proof (cases rule: contents_map_cases)
    case 1
    with r ok show ?thesis by (auto simp: copy_map_def)
  next
    case (2 a m)
    let ?h0 = "h\<lparr>mem_next := Suc (mem_next h)\<rparr>" and ?m = "fold (\<lambda>(k, x). gomap_set k x) m []"
    from r 2 have e: "v' = MapRef (Some (mem_next h))"
      "h' = ?h0\<lparr>mem_cells := (mem_cells ?h0)(mem_next h \<mapsto> Tbl ?m)\<rparr>"
      by (auto simp: copy_map_def run_fresh run_store State_Monad.get_def)
    from alloc_fill(1-5) [OF ok mem_ok_reserve [OF ok] extends_refl e(2)] gomap_refill [OF 2(3) gomap_ok_Nil] 2(4)
    show ?thesis by (auto simp: e(1))
  qed
qed

text \<open>
  A struct: every listed field is copied by a copier of its type, every other field is flat.
  The generalisation over \<open>n0\<close> carries the fields already copied.
\<close>

lemma copy_fields_step:
  assumes "mem_ok h" and "contents (TStruct fs) h (Struct vs) = Some x" and "distinct (map fst fs)"
    and "map_of fs f = Some t" and "deep_copier t c"
    and "run_state (on_field f c (Struct vs)) h = (v', h')"
  obtains vs' where "v' = Struct vs'" and "mem_ok h'" and "extends h h'"
    and "contents (TStruct fs) h' (Struct vs') = Some x"
    and "\<And>n u w. (n, u) \<in> set fs \<Longrightarrow> map_of vs' n = Some w \<Longrightarrow>
      footprint u h' w \<subseteq> {mem_next h..<mem_next h'} \<or> n \<noteq> f \<and> map_of vs n = Some w \<and> footprint u h' w = footprint u h w"
proof -
  from assms(2) have fields: "\<And>n t. (n, t) \<in> set fs \<Longrightarrow> \<exists>w y. map_of vs n = Some w \<and> contents t h w = Some y"
    by (rule contents_struct_cases) auto
  from fields [OF map_of_SomeD [OF assms(4)]] obtain w y where
    w: "map_of vs f = Some w" "contents t h w = Some y" by blast
  obtain w' where r: "run_state (c w) h = (w', h')" and v': "v' = Struct (set_field f w' vs)"
    using assms(6) w(1) by (cases "run_state (c w) h") (simp add: on_field_def)
  from deep_copier.copy [OF assms(5,1) w(2) r] have c: "mem_ok h'" "extends h h'" "contents t h' w' = Some y"
    "footprint t h' w' \<subseteq> {mem_next h..<mem_next h'}" by simp_all
  have uniq: "u = t" if "(f, u) \<in> set fs" for u
    using that assms(3,4) by simp
  have other: "contents u h' z = contents u h z \<and> footprint u h' z = footprint u h z"
    if "(n, u) \<in> set fs" "map_of vs n = Some z" for n u z
    using fields [OF that(1)] that(2) contents_extends [OF assms(1) _ c(2)] by force
  have "contents (TStruct fs) h' (Struct (set_field f w' vs)) = contents (TStruct fs) h (Struct vs)"
    using uniq other w c(3)
    by (intro contents_struct_cong) (auto simp: read_field_def map_of_set_field split: option.splits)
  with assms(2) have x: "contents (TStruct fs) h' (Struct (set_field f w' vs)) = Some x" by simp
  show thesis
  proof (rule that [OF v' c(1,2) x])
    fix n u z assume n: "(n, u) \<in> set fs" "map_of (set_field f w' vs) n = Some z"
    show "footprint u h' z \<subseteq> {mem_next h..<mem_next h'} \<or>
        n \<noteq> f \<and> map_of vs n = Some z \<and> footprint u h' z = footprint u h z"
      using n uniq c(4) w other by (cases "n = f") (auto simp: map_of_set_field)
  qed
qed

definition copiers_fit :: "(string \<times> ty) list \<Rightarrow> (string \<times> copier) list \<Rightarrow> bool" where
  "copiers_fit fs cs = list_all (\<lambda>(f, c). case map_of fs f of None \<Rightarrow> False | Some t \<Rightarrow> deep_copier t c) cs"

lemma copy_fields_run:
  assumes "mem_ok h" and "contents (TStruct fs) h (Struct vs) = Some x" and "distinct (map fst fs)"
    and "copiers_fit fs cs" and "n0 \<le> mem_next h"
    and "\<And>n u w. (n, u) \<in> set fs \<Longrightarrow> n \<notin> fst ` set cs \<Longrightarrow> map_of vs n = Some w \<Longrightarrow>
      footprint u h w \<subseteq> {n0..<mem_next h}"
    and "run_state (copy_fields cs (Struct vs)) h = (v', h')"
  shows "mem_ok h' \<and> extends h h' \<and> contents (TStruct fs) h' v' = Some x \<and>
    footprint (TStruct fs) h' v' \<subseteq> {n0..<mem_next h'}"
  using assms(1,2,4-)
proof (induction cs arbitrary: h vs)
  case Nil
  then have "v' = Struct vs" "h' = h" by simp_all
  with Nil.prems(1,2,5) show ?case
    by (auto simp del: contents.simps footprint.simps simp: footprint_struct_subset)
next
  case (Cons fc cs)
  obtain f c where fc: "fc = (f, c)" by force
  from Cons.prems(3) obtain t where t: "map_of fs f = Some t" "deep_copier t c" and fit: "copiers_fit fs cs"
    by (auto simp: copiers_fit_def fc split: option.splits)
  obtain v1 h1 where r1: "run_state (on_field f c (Struct vs)) h = (v1, h1)" by (metis surj_pair)
  from copy_fields_step [OF Cons.prems(1,2) assms(3) t r1] obtain vs1 where
    v1: "v1 = Struct vs1" and c1: "mem_ok h1" "extends h h1" "contents (TStruct fs) h1 (Struct vs1) = Some x"
    and fp: "\<And>n u w. (n, u) \<in> set fs \<Longrightarrow> map_of vs1 n = Some w \<Longrightarrow>
      footprint u h1 w \<subseteq> {mem_next h..<mem_next h1} \<or> n \<noteq> f \<and> map_of vs n = Some w \<and> footprint u h1 w = footprint u h w"
    by blast
  from extends_next [OF c1(2)] Cons.prems(4) have le: "n0 \<le> mem_next h1" by simp
  have done1: "footprint u h1 w \<subseteq> {n0..<mem_next h1}"
    if "(n, u) \<in> set fs" "n \<notin> fst ` set cs" "map_of vs1 n = Some w" for n u w
    using fp [OF that(1,3)]
  proof
    assume "footprint u h1 w \<subseteq> {mem_next h..<mem_next h1}"
    with Cons.prems(4) show ?thesis by fastforce
  next
    assume a: "n \<noteq> f \<and> map_of vs n = Some w \<and> footprint u h1 w = footprint u h w"
    with Cons.prems(5) [OF that(1)] that(2) fc have "footprint u h w \<subseteq> {n0..<mem_next h}" by simp
    with a extends_next [OF c1(2)] show ?thesis by fastforce
  qed
  from Cons.prems(6) r1 v1 fc have r2: "run_state (copy_fields cs (Struct vs1)) h1 = (v', h')" by simp
  have "mem_ok h' \<and> extends h1 h' \<and> contents (TStruct fs) h' v' = Some x \<and>
      footprint (TStruct fs) h' v' \<subseteq> {n0..<mem_next h'}"
    by (rule Cons.IH [OF c1(1,3) fit le _ r2]) (rule done1)
  with extends_trans [OF c1(2)] show ?case by blast
qed

lemma copier_struct:
  assumes "distinct (map fst fs)" and "copiers_fit fs cs"
    and "list_all (\<lambda>(n, t). n \<in> fst ` set cs \<or> flat t) fs"
  shows "deep_copier (TStruct fs) (copy_fields cs)"
proof unfold_locales
  fix h v x v' h'
  assume a: "mem_ok h" "contents (TStruct fs) h v = Some x" "run_state (copy_fields cs v) h = (v', h')"
  from a(2) obtain vs where v: "v = Struct vs" by (rule contents_struct_cases)
  have "footprint u h w \<subseteq> {mem_next h..<mem_next h}"
    if "(n, u) \<in> set fs" "n \<notin> fst ` set cs" "map_of vs n = Some w" for n u w
    using assms(3) that flat_footprint by (fastforce simp: list_all_iff)
  from copy_fields_run [OF a(1) a(2) [unfolded v] assms(1,2) le_refl this a(3) [unfolded v]]
  show "mem_ok h' \<and> extends h h' \<and> contents (TStruct fs) h' v' = Some x \<and>
      footprint (TStruct fs) h' v' \<subseteq> {mem_next h..<mem_next h'}" .
qed

subsection \<open>Fields of structs\<close>

definition get_field :: "string \<Rightarrow> val \<Rightarrow> val option" where
  "get_field f v = (case v of Struct vs \<Rightarrow> map_of vs f | _ \<Rightarrow> None)"

lemma those_map_total: "(\<And>x. x \<in> set xs \<Longrightarrow> f x \<noteq> None) \<Longrightarrow> those (map f xs) \<noteq> None"
  by (induction xs) (auto split: option.splits)

lemma struct_same_fields:
  assumes "contents (TStruct fs) h (Struct vs) = Some y" and "contents (TStruct fs) h' (Struct vs') = Some y"
    and "(n, t) \<in> set fs"
  shows "\<exists>w w' z. map_of vs n = Some w \<and> contents t h w = Some z \<and>
    map_of vs' n = Some w' \<and> contents t h' w' = Some z"
proof -
  let ?r = "\<lambda>h vs (n, r). read_field r h vs n"
  let ?fs = "map (map_prod id contents) fs"
  from assms(1,2) obtain ys where "those (map (?r h vs) ?fs) = Some ys" "those (map (?r h' vs') ?fs) = Some ys"
    by (auto split: if_splits)
  then have l: "list_all2 (\<lambda>p y. ?r h vs p = Some y) ?fs ys" "list_all2 (\<lambda>p y. ?r h' vs' p = Some y) ?fs ys"
    by (simp_all only: those_Some_map)
  from assms(3) have "(n, contents t) \<in> set ?fs" by force
  then obtain i where "i < length ?fs" "?fs ! i = (n, contents t)" by (auto simp: in_set_conv_nth)
  with l have "read_field (contents t) h vs n = Some (ys ! i)" "read_field (contents t) h' vs' n = Some (ys ! i)"
    by (auto dest!: list_all2_nthD [where p = i])
  then show ?thesis by (cases "ys ! i") (auto simp: read_field_def split: option.splits)
qed

subsection \<open>Types that stop reading at some pointers\<close>

text \<open>
  \<open>opens u t\<close>: every value that reads at \<open>t\<close> reads at \<open>u\<close>, and a later value that reads the
  same at \<open>u\<close> reads the same at \<open>t\<close>. This is how \<open>TShared\<close> is used: \<open>u\<close> is \<open>t\<close> with some
  components read as bare values, which then are shared.
\<close>

definition opens :: "ty \<Rightarrow> ty \<Rightarrow> bool" where
  "opens u t \<longleftrightarrow> (\<forall>h h' v x. mem_ok h \<longrightarrow> extends h h' \<longrightarrow> contents t h v = Some x \<longrightarrow>
     contents u h v \<noteq> None \<and> (\<forall>v'. contents u h' v' = contents u h v \<longrightarrow> contents t h' v' = Some x))"

lemma opensD:
  assumes "opens u t" and "mem_ok h" and "extends h h'" and "contents t h v = Some x"
  shows "\<exists>y. contents u h v = Some y" and "contents u h' v' = contents u h v \<Longrightarrow> contents t h' v' = Some x"
  using assms unfolding opens_def by blast+

lemma opens_shared: "opens TShared t"
  unfolding opens_def by (auto intro: contents_extends(1))

lemma opens_refl: "opens t t"
  unfolding opens_def by auto

lemma opens_ptr:
  assumes "opens u t"
  shows "opens (TPtr u) (TPtr t)"
  unfolding opens_def
proof (intro allI impI)
  fix h h' v x assume a: "mem_ok h" "extends h h'" "contents (TPtr t) h v = Some x"
  from a(3) show "contents (TPtr u) h v \<noteq> None \<and>
      (\<forall>v'. contents (TPtr u) h' v' = contents (TPtr u) h v \<longrightarrow> contents (TPtr t) h' v' = Some x)"
  proof (cases rule: contents_ptr_cases)
    case 1
    then show ?thesis by (auto split: val.splits option.splits cell.splits)
  next
    case (2 b w z)
    from opensD(1) [OF assms a(1,2) 2(3)] obtain y where y: "contents u h w = Some y" by blast
    have "contents (TPtr t) h' v' = Some x" if v': "contents (TPtr u) h' v' = Some (Pointee y)" for v'
      using v'
    proof (cases rule: contents_ptr_cases)
      case (2 b' w' y')
      then show ?thesis
        using opensD(2) [OF assms a(1,2) \<open>contents t h w = Some z\<close>, of w'] y \<open>x = Pointee z\<close> by simp
    qed simp
    with 2 y show ?thesis by simp
  qed
qed

lemma opens_slice:
  assumes "opens u t"
  shows "opens (TSlice u) (TSlice t)"
  unfolding opens_def
proof (intro allI impI)
  fix h h' v x assume a: "mem_ok h" "extends h h'" "contents (TSlice t) h v = Some x"
  from a(3) show "contents (TSlice u) h v \<noteq> None \<and>
      (\<forall>v'. contents (TSlice u) h' v' = contents (TSlice u) h v \<longrightarrow> contents (TSlice t) h' v' = Some x)"
  proof (cases rule: contents_slice_cases)
    case 1
    then show ?thesis by (auto split: val.splits option.splits cell.splits prod.splits if_splits)
  next
    case (2 b off len ws zs)
    have "contents u h w \<noteq> None" if "w \<in> set (window off len ws)" for w
      using list_all2_member [OF 2(5) that] opensD(1) [OF assms a(1,2)] by blast
    then obtain ys where ys: "those (map (contents u h) (window off len ws)) = Some ys"
      using those_map_total [of "window off len ws" "contents u h"] by blast
    have "contents (TSlice t) h' v' = Some x" if v': "contents (TSlice u) h' v' = Some (Elems ys)" for v'
      using v'
    proof (cases rule: contents_slice_cases)
      case (2 b' off' len' ws' ys')
      have "list_all2 (\<lambda>w z. contents t h' w = Some z) (window off' len' ws') zs"
        using 2(4,5) \<open>list_all2 (\<lambda>w z. contents t h w = Some z) (window off len ws) zs\<close> ys [unfolded those_Some_map]
          opensD(2) [OF assms a(1,2)]
        by (auto simp: list_all2_conv_all_nth)
      with 2 \<open>x = Elems zs\<close> show ?thesis by (simp add: those_Some_map [THEN iffD2])
    qed simp
    with 2 ys show ?thesis by simp
  qed
qed

lemma opens_struct:
  assumes "list_all2 (\<lambda>p q. fst p = fst q \<and> opens (snd p) (snd q)) us ts"
  shows "opens (TStruct us) (TStruct ts)"
  unfolding opens_def
proof (intro allI impI)
  fix h h' v x assume a: "mem_ok h" "extends h h'" "contents (TStruct ts) h v = Some x"
  from a(3) obtain vs where v: "v = Struct vs" "map fst vs = map fst ts"
    and fields: "\<And>n t. (n, t) \<in> set ts \<Longrightarrow> \<exists>w z. map_of vs n = Some w \<and> contents t h w = Some z"
    by (rule contents_struct_cases) blast
  have names: "map fst us = map fst ts"
    using assms by (induction rule: list_all2_induct) auto
  have up: "\<exists>t. (n, t) \<in> set ts \<and> opens u t" if "(n, u) \<in> set us" for n u
    using list_all2_member [OF assms that] by auto
  have down: "\<exists>u. (n, u) \<in> set us \<and> opens u t" if "(n, t) \<in> set ts" for n t
    using list_all2_member2 [OF assms that] by auto
  have "read_field (contents u) h vs n \<noteq> None" if "(n, u) \<in> set us" for n u
    using up [OF that] fields opensD(1) [OF _ a(1,2)] by (fastforce simp: read_field_def)
  then have "those (map (\<lambda>(n, r). read_field r h vs n) (map (map_prod id contents) us)) \<noteq> None"
    by (intro those_map_total) auto
  with v names obtain y where y: "contents (TStruct us) h v = Some y" by auto
  have "contents (TStruct ts) h' v' = Some x" if c: "contents (TStruct us) h' v' = Some y" for v'
  proof -
    from c obtain vs' where v': "v' = Struct vs'" "map fst vs' = map fst us" by (rule contents_struct_cases) blast
    have "read_field (contents t) h' vs' n = read_field (contents t) h vs n" if nt: "(n, t) \<in> set ts" for n t
    proof -
      from down [OF nt] obtain u where u: "(n, u) \<in> set us" "opens u t" by blast
      from struct_same_fields [OF y [unfolded v(1)] c [unfolded v'(1)] u(1)] fields [OF nt] opensD(2) [OF u(2) a(1,2)]
      show ?thesis by (auto simp: read_field_def)
    qed
    then have "contents (TStruct ts) h' (Struct vs') = contents (TStruct ts) h (Struct vs)"
      using v(2) v'(2) names by (intro contents_struct_cong) simp_all
    with a(3) show ?thesis unfolding v(1) v'(1) by (simp only:)
  qed
  with y show "contents (TStruct us) h v \<noteq> None \<and>
      (\<forall>v'. contents (TStruct us) h' v' = contents (TStruct us) h v \<longrightarrow> contents (TStruct ts) h' v' = Some x)"
    by simp
qed

lemmas opens_rules = opens_shared opens_refl opens_ptr opens_slice opens_struct

end
