(* ===== verification/Deep_Copy_Kube.thy ===== *)
theory Deep_Copy_Kube
  imports Go_Heap
begin

section \<open>Deep copies of the vendored structs\<close>

text \<open>
  The types of \<^verbatim>\<open>metav1\<close> and \<^verbatim>\<open>corev1\<close> that the custom resources contain, with their
  generated copy functions (\<^verbatim>\<open>vendor/k8s.io/.../zz_generated.deepcopy.go\<close>), field for field.
  Each is proved to keep the contract \<open>deep_copier\<close> of its type.
\<close>

named_theorems copiers \<open>copy functions that keep the contract of their type\<close>

declare copier_flat [copiers] copier_ptr [copiers] copier_slice [copiers] copier_map [copiers]

definition ty_TypeMeta :: ty where
  "ty_TypeMeta = TStruct [(''Kind'', TScalar), (''APIVersion'', TScalar)]"

lemma flat_TypeMeta [simp]: "flat ty_TypeMeta"
  by (simp add: ty_TypeMeta_def)

definition ty_ListMeta :: ty where
  "ty_ListMeta = TStruct
     [(''SelfLink'', TScalar), (''ResourceVersion'', TScalar), (''Continue'', TScalar),
      (''RemainingItemCount'', TPtr TScalar)]"

definition DeepCopyInto_ListMeta :: copier where
  "DeepCopyInto_ListMeta = copy_fields [(''RemainingItemCount'', copy_ptr assign)]"

lemma copies_ListMeta [copiers]: "deep_copier ty_ListMeta DeepCopyInto_ListMeta"
  unfolding ty_ListMeta_def DeepCopyInto_ListMeta_def
  by (rule copier_struct) (simp_all add: copiers copiers_fit_def)

definition ty_OwnerReference :: ty where
  "ty_OwnerReference = TStruct
     [(''APIVersion'', TScalar), (''Kind'', TScalar), (''Name'', TScalar),
      (''UID'', TScalar), (''Controller'', TPtr TScalar),
      (''BlockOwnerDeletion'', TPtr TScalar)]"

definition DeepCopyInto_OwnerReference :: copier where
  "DeepCopyInto_OwnerReference = copy_fields
     [(''Controller'', copy_ptr assign), (''BlockOwnerDeletion'', copy_ptr assign)]"

lemma copies_OwnerReference [copiers]: "deep_copier ty_OwnerReference DeepCopyInto_OwnerReference"
  unfolding ty_OwnerReference_def DeepCopyInto_OwnerReference_def
  by (rule copier_struct) (simp_all add: copiers copiers_fit_def)

definition ty_FieldsV1 :: ty where
  "ty_FieldsV1 = TStruct [(''Raw'', TSlice TScalar)]"

definition DeepCopyInto_FieldsV1 :: copier where
  "DeepCopyInto_FieldsV1 = copy_fields [(''Raw'', copy_slice assign)]"

lemma copies_FieldsV1 [copiers]: "deep_copier ty_FieldsV1 DeepCopyInto_FieldsV1"
  unfolding ty_FieldsV1_def DeepCopyInto_FieldsV1_def
  by (rule copier_struct) (simp_all add: copiers copiers_fit_def)

definition ty_ManagedFieldsEntry :: ty where
  "ty_ManagedFieldsEntry = TStruct
     [(''Manager'', TScalar), (''Operation'', TScalar), (''APIVersion'', TScalar),
      (''Time'', TPtr TScalar), (''FieldsType'', TScalar), (''FieldsV1'', TPtr ty_FieldsV1),
      (''Subresource'', TScalar)]"

definition DeepCopyInto_ManagedFieldsEntry :: copier where
  "DeepCopyInto_ManagedFieldsEntry = copy_fields
     [(''Time'', copy_ptr assign), (''FieldsV1'', copy_ptr DeepCopyInto_FieldsV1)]"

lemma copies_ManagedFieldsEntry [copiers]: "deep_copier ty_ManagedFieldsEntry DeepCopyInto_ManagedFieldsEntry"
  unfolding ty_ManagedFieldsEntry_def DeepCopyInto_ManagedFieldsEntry_def
  by (rule copier_struct) (simp_all add: copiers copiers_fit_def)

definition ty_ObjectMeta :: ty where
  "ty_ObjectMeta = TStruct
     [(''Name'', TScalar), (''GenerateName'', TScalar), (''Namespace'', TScalar),
      (''SelfLink'', TScalar), (''UID'', TScalar), (''ResourceVersion'', TScalar),
      (''Generation'', TScalar), (''CreationTimestamp'', TScalar),
      (''DeletionTimestamp'', TPtr TScalar), (''DeletionGracePeriodSeconds'', TPtr TScalar),
      (''Labels'', TMap), (''Annotations'', TMap),
      (''OwnerReferences'', TSlice ty_OwnerReference), (''Finalizers'', TSlice TScalar),
      (''ManagedFields'', TSlice ty_ManagedFieldsEntry)]"

definition DeepCopyInto_ObjectMeta :: copier where
  "DeepCopyInto_ObjectMeta = copy_fields
     [(''CreationTimestamp'', assign), (''DeletionTimestamp'', copy_ptr assign),
      (''DeletionGracePeriodSeconds'', copy_ptr assign), (''Labels'', copy_map),
      (''Annotations'', copy_map),
      (''OwnerReferences'', copy_slice DeepCopyInto_OwnerReference),
      (''Finalizers'', copy_slice assign),
      (''ManagedFields'', copy_slice DeepCopyInto_ManagedFieldsEntry)]"

lemma copies_ObjectMeta [copiers]: "deep_copier ty_ObjectMeta DeepCopyInto_ObjectMeta"
  unfolding ty_ObjectMeta_def DeepCopyInto_ObjectMeta_def
  by (rule copier_struct) (simp_all add: copiers copiers_fit_def)

definition ty_ObjectFieldSelector :: ty where
  "ty_ObjectFieldSelector = TStruct [(''APIVersion'', TScalar), (''FieldPath'', TScalar)]"

definition DeepCopyInto_ObjectFieldSelector :: copier where
  "DeepCopyInto_ObjectFieldSelector = assign"

lemma flat_ObjectFieldSelector [simp]: "flat ty_ObjectFieldSelector"
  by (simp add: ty_ObjectFieldSelector_def)

definition ty_int64Amount :: ty where
  "ty_int64Amount = TStruct [(''value'', TScalar), (''scale'', TScalar)]"

lemma flat_int64Amount [simp]: "flat ty_int64Amount"
  by (simp add: ty_int64Amount_def)

definition ty_Dec :: ty where
  "ty_Dec = TStruct [(''unscaled'', TScalar), (''scale'', TScalar)]"

lemma flat_Dec [simp]: "flat ty_Dec"
  by (simp add: ty_Dec_def)

definition ty_infDecAmount :: ty where
  "ty_infDecAmount = TStruct [(''Dec'', TPtr ty_Dec)]"

definition ty_Quantity :: ty where
  "ty_Quantity = TStruct
     [(''i'', ty_int64Amount), (''d'', ty_infDecAmount), (''s'', TScalar),
      (''Format'', TScalar)]"

text \<open>\<^verbatim>\<open>Quantity.DeepCopy\<close>, which copies the big decimal when there is one.\<close>

definition DeepCopyInto_Quantity :: copier where
  "DeepCopyInto_Quantity = copy_fields [(''d'', copy_fields [(''Dec'', copy_ptr assign)])]"

lemma copies_Quantity [copiers]: "deep_copier ty_Quantity DeepCopyInto_Quantity"
proof -
  have "deep_copier ty_infDecAmount (copy_fields [(''Dec'', copy_ptr assign)])"
    unfolding ty_infDecAmount_def by (rule copier_struct) (simp_all add: copiers copiers_fit_def)
  then show ?thesis
    unfolding ty_Quantity_def DeepCopyInto_Quantity_def
    by (intro copier_struct) (simp_all add: copiers_fit_def)
qed

definition ty_ResourceFieldSelector :: ty where
  "ty_ResourceFieldSelector = TStruct
     [(''ContainerName'', TScalar), (''Resource'', TScalar), (''Divisor'', ty_Quantity)]"

definition DeepCopyInto_ResourceFieldSelector :: copier where
  "DeepCopyInto_ResourceFieldSelector = copy_fields [(''Divisor'', DeepCopyInto_Quantity)]"

lemma copies_ResourceFieldSelector [copiers]: "deep_copier ty_ResourceFieldSelector DeepCopyInto_ResourceFieldSelector"
  unfolding ty_ResourceFieldSelector_def DeepCopyInto_ResourceFieldSelector_def
  by (rule copier_struct) (simp_all add: copiers copiers_fit_def)

definition ty_LocalObjectReference :: ty where
  "ty_LocalObjectReference = TStruct [(''Name'', TScalar)]"

definition DeepCopyInto_LocalObjectReference :: copier where
  "DeepCopyInto_LocalObjectReference = assign"

lemma flat_LocalObjectReference [simp]: "flat ty_LocalObjectReference"
  by (simp add: ty_LocalObjectReference_def)

definition ty_ConfigMapKeySelector :: ty where
  "ty_ConfigMapKeySelector = TStruct
     [(''LocalObjectReference'', ty_LocalObjectReference), (''Key'', TScalar),
      (''Optional'', TPtr TScalar)]"

definition DeepCopyInto_ConfigMapKeySelector :: copier where
  "DeepCopyInto_ConfigMapKeySelector = copy_fields
     [(''LocalObjectReference'', assign), (''Optional'', copy_ptr assign)]"

lemma copies_ConfigMapKeySelector [copiers]: "deep_copier ty_ConfigMapKeySelector DeepCopyInto_ConfigMapKeySelector"
  unfolding ty_ConfigMapKeySelector_def DeepCopyInto_ConfigMapKeySelector_def
  by (rule copier_struct) (simp_all add: copiers copiers_fit_def)

definition ty_SecretKeySelector :: ty where
  "ty_SecretKeySelector = TStruct
     [(''LocalObjectReference'', ty_LocalObjectReference), (''Key'', TScalar),
      (''Optional'', TPtr TScalar)]"

definition DeepCopyInto_SecretKeySelector :: copier where
  "DeepCopyInto_SecretKeySelector = copy_fields
     [(''LocalObjectReference'', assign), (''Optional'', copy_ptr assign)]"

lemma copies_SecretKeySelector [copiers]: "deep_copier ty_SecretKeySelector DeepCopyInto_SecretKeySelector"
  unfolding ty_SecretKeySelector_def DeepCopyInto_SecretKeySelector_def
  by (rule copier_struct) (simp_all add: copiers copiers_fit_def)

definition ty_FileKeySelector :: ty where
  "ty_FileKeySelector = TStruct
     [(''VolumeName'', TScalar), (''Path'', TScalar), (''Key'', TScalar),
      (''Optional'', TPtr TScalar)]"

definition DeepCopyInto_FileKeySelector :: copier where
  "DeepCopyInto_FileKeySelector = copy_fields [(''Optional'', copy_ptr assign)]"

lemma copies_FileKeySelector [copiers]: "deep_copier ty_FileKeySelector DeepCopyInto_FileKeySelector"
  unfolding ty_FileKeySelector_def DeepCopyInto_FileKeySelector_def
  by (rule copier_struct) (simp_all add: copiers copiers_fit_def)

definition ty_EnvVarSource :: ty where
  "ty_EnvVarSource = TStruct
     [(''FieldRef'', TPtr ty_ObjectFieldSelector),
      (''ResourceFieldRef'', TPtr ty_ResourceFieldSelector),
      (''ConfigMapKeyRef'', TPtr ty_ConfigMapKeySelector),
      (''SecretKeyRef'', TPtr ty_SecretKeySelector), (''FileKeyRef'', TPtr ty_FileKeySelector)]"

definition DeepCopyInto_EnvVarSource :: copier where
  "DeepCopyInto_EnvVarSource = copy_fields
     [(''FieldRef'', copy_ptr assign),
      (''ResourceFieldRef'', copy_ptr DeepCopyInto_ResourceFieldSelector),
      (''ConfigMapKeyRef'', copy_ptr DeepCopyInto_ConfigMapKeySelector),
      (''SecretKeyRef'', copy_ptr DeepCopyInto_SecretKeySelector),
      (''FileKeyRef'', copy_ptr DeepCopyInto_FileKeySelector)]"

lemma copies_EnvVarSource [copiers]: "deep_copier ty_EnvVarSource DeepCopyInto_EnvVarSource"
  unfolding ty_EnvVarSource_def DeepCopyInto_EnvVarSource_def
  by (rule copier_struct) (simp_all add: copiers copiers_fit_def)

definition ty_EnvVar :: ty where
  "ty_EnvVar = TStruct
     [(''Name'', TScalar), (''Value'', TScalar), (''ValueFrom'', TPtr ty_EnvVarSource)]"

definition DeepCopyInto_EnvVar :: copier where
  "DeepCopyInto_EnvVar = copy_fields [(''ValueFrom'', copy_ptr DeepCopyInto_EnvVarSource)]"

lemma copies_EnvVar [copiers]: "deep_copier ty_EnvVar DeepCopyInto_EnvVar"
  unfolding ty_EnvVar_def DeepCopyInto_EnvVar_def
  by (rule copier_struct) (simp_all add: copiers copiers_fit_def)

definition ty_Condition :: ty where
  "ty_Condition = TStruct
     [(''Type'', TScalar), (''Status'', TScalar), (''ObservedGeneration'', TScalar),
      (''LastTransitionTime'', TScalar), (''Reason'', TScalar), (''Message'', TScalar)]"

definition DeepCopyInto_Condition :: copier where
  "DeepCopyInto_Condition = copy_fields [(''LastTransitionTime'', assign)]"

lemma flat_Condition [simp]: "flat ty_Condition"
  by (simp add: ty_Condition_def)

lemma copies_Condition [copiers]: "deep_copier ty_Condition DeepCopyInto_Condition"
  unfolding ty_Condition_def DeepCopyInto_Condition_def
  by (rule copier_struct) (simp_all add: copiers copiers_fit_def)

end
