(* ===== verification/Deep_Copy.thy ===== *)
theory Deep_Copy
  imports Deep_Copy_Kube
begin

section \<open>Deep copies of the custom resources (\<^verbatim>\<open>zz_generated.deepcopy.go\<close>)\<close>

text \<open>
  The generated copy functions of the custom resources, over the memory of \<open>Go_Heap\<close>. For
  each struct of \<^verbatim>\<open>api/v1alpha1\<close>: its type, its \<^verbatim>\<open>DeepCopyInto\<close> with the statements of the
  generated body in their order, and its \<^verbatim>\<open>DeepCopy\<close>; for the four root objects
  \<^verbatim>\<open>DeepCopyObject\<close>. The controller's cached client hands out objects through these
  functions, so what they do not copy is shared with the cache.

  All but one keep the contract \<open>deep_copier\<close> of their type. The one for
  \<^verbatim>\<open>PDEngineProfileSpec\<close> has no statement for \<^verbatim>\<open>RoleCommands\<close>; it keeps the contract of the
  type that reads this field as a bare pointer.
\<close>

subsection \<open>Volumes, resources, probes\<close>

definition ty_HostPathVolume :: ty where
  "ty_HostPathVolume = TStruct [(''Path'', TScalar), (''Type'', TScalar)]"

definition DeepCopyInto_HostPathVolume :: copier where
  "DeepCopyInto_HostPathVolume = assign"

definition DeepCopy_HostPathVolume :: copier where
  "DeepCopy_HostPathVolume = copy_ptr DeepCopyInto_HostPathVolume"

lemma flat_HostPathVolume [simp]: "flat ty_HostPathVolume"
  by (simp add: ty_HostPathVolume_def)

lemma copies_HostPathVolume [copiers]: "deep_copier ty_HostPathVolume DeepCopyInto_HostPathVolume"
  by (simp add: DeepCopyInto_HostPathVolume_def copiers)

definition ty_EmptyDirVolume :: ty where
  "ty_EmptyDirVolume = TStruct [(''Medium'', TScalar), (''SizeLimit'', TScalar)]"

definition DeepCopyInto_EmptyDirVolume :: copier where
  "DeepCopyInto_EmptyDirVolume = assign"

definition DeepCopy_EmptyDirVolume :: copier where
  "DeepCopy_EmptyDirVolume = copy_ptr DeepCopyInto_EmptyDirVolume"

lemma flat_EmptyDirVolume [simp]: "flat ty_EmptyDirVolume"
  by (simp add: ty_EmptyDirVolume_def)

lemma copies_EmptyDirVolume [copiers]: "deep_copier ty_EmptyDirVolume DeepCopyInto_EmptyDirVolume"
  by (simp add: DeepCopyInto_EmptyDirVolume_def copiers)

definition ty_PVCVolume :: ty where
  "ty_PVCVolume = TStruct [(''ClaimName'', TScalar)]"

definition DeepCopyInto_PVCVolume :: copier where
  "DeepCopyInto_PVCVolume = assign"

definition DeepCopy_PVCVolume :: copier where
  "DeepCopy_PVCVolume = copy_ptr DeepCopyInto_PVCVolume"

lemma flat_PVCVolume [simp]: "flat ty_PVCVolume"
  by (simp add: ty_PVCVolume_def)

lemma copies_PVCVolume [copiers]: "deep_copier ty_PVCVolume DeepCopyInto_PVCVolume"
  by (simp add: DeepCopyInto_PVCVolume_def copiers)

definition ty_VolumeSpec :: ty where
  "ty_VolumeSpec = TStruct
     [(''Name'', TScalar), (''HostPath'', TPtr ty_HostPathVolume),
      (''EmptyDir'', TPtr ty_EmptyDirVolume), (''PVC'', TPtr ty_PVCVolume)]"

definition DeepCopyInto_VolumeSpec :: copier where
  "DeepCopyInto_VolumeSpec = copy_fields
     [(''HostPath'', copy_ptr assign), (''EmptyDir'', copy_ptr assign),
      (''PVC'', copy_ptr assign)]"

definition DeepCopy_VolumeSpec :: copier where
  "DeepCopy_VolumeSpec = copy_ptr DeepCopyInto_VolumeSpec"

lemma copies_VolumeSpec [copiers]: "deep_copier ty_VolumeSpec DeepCopyInto_VolumeSpec"
  unfolding ty_VolumeSpec_def DeepCopyInto_VolumeSpec_def
  by (rule copier_struct) (simp_all add: copiers copiers_fit_def)

definition ty_RoleResources :: ty where
  "ty_RoleResources = TStruct [(''Requests'', TMap), (''Limits'', TMap)]"

definition DeepCopyInto_RoleResources :: copier where
  "DeepCopyInto_RoleResources = copy_fields [(''Requests'', copy_map), (''Limits'', copy_map)]"

definition DeepCopy_RoleResources :: copier where
  "DeepCopy_RoleResources = copy_ptr DeepCopyInto_RoleResources"

lemma copies_RoleResources [copiers]: "deep_copier ty_RoleResources DeepCopyInto_RoleResources"
  unfolding ty_RoleResources_def DeepCopyInto_RoleResources_def
  by (rule copier_struct) (simp_all add: copiers copiers_fit_def)

definition ty_VolumeMountSpec :: ty where
  "ty_VolumeMountSpec = TStruct [(''Name'', TScalar), (''MountPath'', TScalar), (''ReadOnly'', TScalar)]"

definition DeepCopyInto_VolumeMountSpec :: copier where
  "DeepCopyInto_VolumeMountSpec = assign"

definition DeepCopy_VolumeMountSpec :: copier where
  "DeepCopy_VolumeMountSpec = copy_ptr DeepCopyInto_VolumeMountSpec"

lemma flat_VolumeMountSpec [simp]: "flat ty_VolumeMountSpec"
  by (simp add: ty_VolumeMountSpec_def)

lemma copies_VolumeMountSpec [copiers]: "deep_copier ty_VolumeMountSpec DeepCopyInto_VolumeMountSpec"
  by (simp add: DeepCopyInto_VolumeMountSpec_def copiers)

definition ty_ProbeSpec :: ty where
  "ty_ProbeSpec = TStruct
     [(''HTTPPath'', TScalar), (''Port'', TScalar), (''InitialDelaySeconds'', TScalar),
      (''PeriodSeconds'', TScalar), (''TimeoutSeconds'', TScalar),
      (''FailureThreshold'', TScalar)]"

definition DeepCopyInto_ProbeSpec :: copier where
  "DeepCopyInto_ProbeSpec = assign"

definition DeepCopy_ProbeSpec :: copier where
  "DeepCopy_ProbeSpec = copy_ptr DeepCopyInto_ProbeSpec"

lemma flat_ProbeSpec [simp]: "flat ty_ProbeSpec"
  by (simp add: ty_ProbeSpec_def)

lemma copies_ProbeSpec [copiers]: "deep_copier ty_ProbeSpec DeepCopyInto_ProbeSpec"
  by (simp add: DeepCopyInto_ProbeSpec_def copiers)

subsection \<open>Roles\<close>

definition ty_RouterRoleSpec :: ty where
  "ty_RouterRoleSpec = TStruct
     [(''Image'', TScalar), (''Replicas'', TScalar), (''Resources'', TPtr ty_RoleResources),
      (''VolumeMounts'', TSlice ty_VolumeMountSpec), (''Command'', TSlice TScalar),
      (''Args'', TSlice TScalar), (''ReadinessProbe'', TPtr ty_ProbeSpec),
      (''LivenessProbe'', TPtr ty_ProbeSpec)]"

definition DeepCopyInto_RouterRoleSpec :: copier where
  "DeepCopyInto_RouterRoleSpec = copy_fields
     [(''Resources'', copy_ptr DeepCopyInto_RoleResources),
      (''VolumeMounts'', copy_slice assign), (''Command'', copy_slice assign),
      (''Args'', copy_slice assign), (''ReadinessProbe'', copy_ptr assign),
      (''LivenessProbe'', copy_ptr assign)]"

definition DeepCopy_RouterRoleSpec :: copier where
  "DeepCopy_RouterRoleSpec = copy_ptr DeepCopyInto_RouterRoleSpec"

lemma copies_RouterRoleSpec [copiers]: "deep_copier ty_RouterRoleSpec DeepCopyInto_RouterRoleSpec"
  unfolding ty_RouterRoleSpec_def DeepCopyInto_RouterRoleSpec_def
  by (rule copier_struct) (simp_all add: copiers copiers_fit_def)

definition ty_RuntimeContainer :: ty where
  "ty_RuntimeContainer = TStruct
     [(''Name'', TScalar), (''Args'', TSlice TScalar), (''Env'', TSlice ty_EnvVar)]"

definition DeepCopyInto_RuntimeContainer :: copier where
  "DeepCopyInto_RuntimeContainer = copy_fields
     [(''Args'', copy_slice assign), (''Env'', copy_slice DeepCopyInto_EnvVar)]"

definition DeepCopy_RuntimeContainer :: copier where
  "DeepCopy_RuntimeContainer = copy_ptr DeepCopyInto_RuntimeContainer"

lemma copies_RuntimeContainer [copiers]: "deep_copier ty_RuntimeContainer DeepCopyInto_RuntimeContainer"
  unfolding ty_RuntimeContainer_def DeepCopyInto_RuntimeContainer_def
  by (rule copier_struct) (simp_all add: copiers copiers_fit_def)

definition ty_EngineRuntime :: ty where
  "ty_EngineRuntime = TStruct
     [(''ProfileName'', TScalar), (''Containers'', TSlice ty_RuntimeContainer)]"

definition DeepCopyInto_EngineRuntime :: copier where
  "DeepCopyInto_EngineRuntime = copy_fields
     [(''Containers'', copy_slice DeepCopyInto_RuntimeContainer)]"

definition DeepCopy_EngineRuntime :: copier where
  "DeepCopy_EngineRuntime = copy_ptr DeepCopyInto_EngineRuntime"

lemma copies_EngineRuntime [copiers]: "deep_copier ty_EngineRuntime DeepCopyInto_EngineRuntime"
  unfolding ty_EngineRuntime_def DeepCopyInto_EngineRuntime_def
  by (rule copier_struct) (simp_all add: copiers copiers_fit_def)

definition ty_InferenceRoleSpec :: ty where
  "ty_InferenceRoleSpec = TStruct
     [(''Image'', TScalar), (''Replicas'', TScalar), (''GPU'', TScalar),
      (''GPUType'', TScalar), (''Resources'', TPtr ty_RoleResources),
      (''VolumeMounts'', TSlice ty_VolumeMountSpec), (''Command'', TSlice TScalar),
      (''Args'', TSlice TScalar), (''ReadinessProbe'', TPtr ty_ProbeSpec),
      (''LivenessProbe'', TPtr ty_ProbeSpec), (''EngineRuntimes'', TSlice ty_EngineRuntime)]"

definition DeepCopyInto_InferenceRoleSpec :: copier where
  "DeepCopyInto_InferenceRoleSpec = copy_fields
     [(''Resources'', copy_ptr DeepCopyInto_RoleResources),
      (''VolumeMounts'', copy_slice assign), (''Command'', copy_slice assign),
      (''Args'', copy_slice assign), (''ReadinessProbe'', copy_ptr assign),
      (''LivenessProbe'', copy_ptr assign),
      (''EngineRuntimes'', copy_slice DeepCopyInto_EngineRuntime)]"

definition DeepCopy_InferenceRoleSpec :: copier where
  "DeepCopy_InferenceRoleSpec = copy_ptr DeepCopyInto_InferenceRoleSpec"

lemma copies_InferenceRoleSpec [copiers]: "deep_copier ty_InferenceRoleSpec DeepCopyInto_InferenceRoleSpec"
  unfolding ty_InferenceRoleSpec_def DeepCopyInto_InferenceRoleSpec_def
  by (rule copier_struct) (simp_all add: copiers copiers_fit_def)

subsection \<open>Scaling\<close>

definition ty_HPASpec :: ty where
  "ty_HPASpec = TStruct [(''MinReplicas'', TPtr TScalar), (''MaxReplicas'', TScalar)]"

definition DeepCopyInto_HPASpec :: copier where
  "DeepCopyInto_HPASpec = copy_fields [(''MinReplicas'', copy_ptr assign)]"

definition DeepCopy_HPASpec :: copier where
  "DeepCopy_HPASpec = copy_ptr DeepCopyInto_HPASpec"

lemma copies_HPASpec [copiers]: "deep_copier ty_HPASpec DeepCopyInto_HPASpec"
  unfolding ty_HPASpec_def DeepCopyInto_HPASpec_def
  by (rule copier_struct) (simp_all add: copiers copiers_fit_def)

definition ty_ScalingSpec :: ty where
  "ty_ScalingSpec = TStruct [(''Decode'', TPtr ty_HPASpec), (''Prefill'', TPtr ty_HPASpec)]"

definition DeepCopyInto_ScalingSpec :: copier where
  "DeepCopyInto_ScalingSpec = copy_fields
     [(''Decode'', copy_ptr DeepCopyInto_HPASpec),
      (''Prefill'', copy_ptr DeepCopyInto_HPASpec)]"

definition DeepCopy_ScalingSpec :: copier where
  "DeepCopy_ScalingSpec = copy_ptr DeepCopyInto_ScalingSpec"

lemma copies_ScalingSpec [copiers]: "deep_copier ty_ScalingSpec DeepCopyInto_ScalingSpec"
  unfolding ty_ScalingSpec_def DeepCopyInto_ScalingSpec_def
  by (rule copier_struct) (simp_all add: copiers copiers_fit_def)

subsection \<open>PDInferenceService\<close>

definition ty_PDInferenceServiceSpec :: ty where
  "ty_PDInferenceServiceSpec = TStruct
     [(''Model'', TScalar), (''Engine'', TScalar), (''Volumes'', TSlice ty_VolumeSpec),
      (''Router'', ty_RouterRoleSpec), (''Prefill'', ty_InferenceRoleSpec),
      (''Decode'', ty_InferenceRoleSpec), (''PDRatio'', TScalar),
      (''EngineProfileRef'', TScalar), (''Scaling'', TPtr ty_ScalingSpec)]"

definition DeepCopyInto_PDInferenceServiceSpec :: copier where
  "DeepCopyInto_PDInferenceServiceSpec = copy_fields
     [(''Volumes'', copy_slice DeepCopyInto_VolumeSpec),
      (''Router'', DeepCopyInto_RouterRoleSpec),
      (''Prefill'', DeepCopyInto_InferenceRoleSpec),
      (''Decode'', DeepCopyInto_InferenceRoleSpec),
      (''Scaling'', copy_ptr DeepCopyInto_ScalingSpec)]"

definition DeepCopy_PDInferenceServiceSpec :: copier where
  "DeepCopy_PDInferenceServiceSpec = copy_ptr DeepCopyInto_PDInferenceServiceSpec"

lemma copies_PDInferenceServiceSpec [copiers]: "deep_copier ty_PDInferenceServiceSpec DeepCopyInto_PDInferenceServiceSpec"
  unfolding ty_PDInferenceServiceSpec_def DeepCopyInto_PDInferenceServiceSpec_def
  by (rule copier_struct) (simp_all add: copiers copiers_fit_def)

definition ty_RoleStatus :: ty where
  "ty_RoleStatus = TStruct [(''Name'', TScalar), (''Ready'', TScalar), (''Total'', TScalar)]"

definition DeepCopyInto_RoleStatus :: copier where
  "DeepCopyInto_RoleStatus = assign"

definition DeepCopy_RoleStatus :: copier where
  "DeepCopy_RoleStatus = copy_ptr DeepCopyInto_RoleStatus"

lemma flat_RoleStatus [simp]: "flat ty_RoleStatus"
  by (simp add: ty_RoleStatus_def)

lemma copies_RoleStatus [copiers]: "deep_copier ty_RoleStatus DeepCopyInto_RoleStatus"
  by (simp add: DeepCopyInto_RoleStatus_def copiers)

definition ty_EventRecord :: ty where
  "ty_EventRecord = TStruct [(''Reason'', TScalar), (''Message'', TScalar)]"

definition DeepCopyInto_EventRecord :: copier where
  "DeepCopyInto_EventRecord = assign"

definition DeepCopy_EventRecord :: copier where
  "DeepCopy_EventRecord = copy_ptr DeepCopyInto_EventRecord"

lemma flat_EventRecord [simp]: "flat ty_EventRecord"
  by (simp add: ty_EventRecord_def)

lemma copies_EventRecord [copiers]: "deep_copier ty_EventRecord DeepCopyInto_EventRecord"
  by (simp add: DeepCopyInto_EventRecord_def copiers)

definition ty_PDInferenceServiceStatus :: ty where
  "ty_PDInferenceServiceStatus = TStruct
     [(''Phase'', TScalar), (''Endpoint'', TScalar), (''Conditions'', TSlice ty_Condition),
      (''RoleStatuses'', TSlice ty_RoleStatus), (''LastEvent'', TPtr ty_EventRecord)]"

definition DeepCopyInto_PDInferenceServiceStatus :: copier where
  "DeepCopyInto_PDInferenceServiceStatus = copy_fields
     [(''Conditions'', copy_slice DeepCopyInto_Condition),
      (''RoleStatuses'', copy_slice assign), (''LastEvent'', copy_ptr assign)]"

definition DeepCopy_PDInferenceServiceStatus :: copier where
  "DeepCopy_PDInferenceServiceStatus = copy_ptr DeepCopyInto_PDInferenceServiceStatus"

lemma copies_PDInferenceServiceStatus [copiers]: "deep_copier ty_PDInferenceServiceStatus DeepCopyInto_PDInferenceServiceStatus"
  unfolding ty_PDInferenceServiceStatus_def DeepCopyInto_PDInferenceServiceStatus_def
  by (rule copier_struct) (simp_all add: copiers copiers_fit_def)

definition ty_PDInferenceService :: ty where
  "ty_PDInferenceService = TStruct
     [(''TypeMeta'', ty_TypeMeta), (''ObjectMeta'', ty_ObjectMeta),
      (''Spec'', ty_PDInferenceServiceSpec), (''Status'', ty_PDInferenceServiceStatus)]"

definition DeepCopyInto_PDInferenceService :: copier where
  "DeepCopyInto_PDInferenceService = copy_fields
     [(''TypeMeta'', assign), (''ObjectMeta'', DeepCopyInto_ObjectMeta),
      (''Spec'', DeepCopyInto_PDInferenceServiceSpec),
      (''Status'', DeepCopyInto_PDInferenceServiceStatus)]"

definition DeepCopy_PDInferenceService :: copier where
  "DeepCopy_PDInferenceService = copy_ptr DeepCopyInto_PDInferenceService"

lemma copies_PDInferenceService [copiers]: "deep_copier ty_PDInferenceService DeepCopyInto_PDInferenceService"
  unfolding ty_PDInferenceService_def DeepCopyInto_PDInferenceService_def
  by (rule copier_struct) (simp_all add: copiers copiers_fit_def)

definition ty_PDInferenceServiceList :: ty where
  "ty_PDInferenceServiceList = TStruct
     [(''TypeMeta'', ty_TypeMeta), (''ListMeta'', ty_ListMeta),
      (''Items'', TSlice ty_PDInferenceService)]"

definition DeepCopyInto_PDInferenceServiceList :: copier where
  "DeepCopyInto_PDInferenceServiceList = copy_fields
     [(''TypeMeta'', assign), (''ListMeta'', DeepCopyInto_ListMeta),
      (''Items'', copy_slice DeepCopyInto_PDInferenceService)]"

definition DeepCopy_PDInferenceServiceList :: copier where
  "DeepCopy_PDInferenceServiceList = copy_ptr DeepCopyInto_PDInferenceServiceList"

lemma copies_PDInferenceServiceList [copiers]: "deep_copier ty_PDInferenceServiceList DeepCopyInto_PDInferenceServiceList"
  unfolding ty_PDInferenceServiceList_def DeepCopyInto_PDInferenceServiceList_def
  by (rule copier_struct) (simp_all add: copiers copiers_fit_def)

subsection \<open>PDEngineProfile\<close>

definition ty_ModelSizeRange :: ty where
  "ty_ModelSizeRange = TStruct [(''MinB'', TScalar), (''MaxB'', TScalar)]"

definition DeepCopyInto_ModelSizeRange :: copier where
  "DeepCopyInto_ModelSizeRange = assign"

definition DeepCopy_ModelSizeRange :: copier where
  "DeepCopy_ModelSizeRange = copy_ptr DeepCopyInto_ModelSizeRange"

lemma flat_ModelSizeRange [simp]: "flat ty_ModelSizeRange"
  by (simp add: ty_ModelSizeRange_def)

lemma copies_ModelSizeRange [copiers]: "deep_copier ty_ModelSizeRange DeepCopyInto_ModelSizeRange"
  by (simp add: DeepCopyInto_ModelSizeRange_def copiers)

definition ty_ApplicabilitySpec :: ty where
  "ty_ApplicabilitySpec = TStruct
     [(''GPUTypes'', TSlice TScalar), (''MinGPUMemoryGiB'', TPtr TScalar),
      (''TensorParallelSize'', TPtr TScalar), (''ModelSizeRange'', TPtr ty_ModelSizeRange),
      (''OptimizedFor'', TScalar), (''SGLangVersionRequired'', TScalar)]"

definition DeepCopyInto_ApplicabilitySpec :: copier where
  "DeepCopyInto_ApplicabilitySpec = copy_fields
     [(''GPUTypes'', copy_slice assign), (''MinGPUMemoryGiB'', copy_ptr assign),
      (''TensorParallelSize'', copy_ptr assign), (''ModelSizeRange'', copy_ptr assign)]"

definition DeepCopy_ApplicabilitySpec :: copier where
  "DeepCopy_ApplicabilitySpec = copy_ptr DeepCopyInto_ApplicabilitySpec"

lemma copies_ApplicabilitySpec [copiers]: "deep_copier ty_ApplicabilitySpec DeepCopyInto_ApplicabilitySpec"
  unfolding ty_ApplicabilitySpec_def DeepCopyInto_ApplicabilitySpec_def
  by (rule copier_struct) (simp_all add: copiers copiers_fit_def)

definition ty_RoleImages :: ty where
  "ty_RoleImages = TStruct [(''Router'', TScalar), (''Prefill'', TScalar), (''Decode'', TScalar)]"

definition DeepCopyInto_RoleImages :: copier where
  "DeepCopyInto_RoleImages = assign"

definition DeepCopy_RoleImages :: copier where
  "DeepCopy_RoleImages = copy_ptr DeepCopyInto_RoleImages"

lemma flat_RoleImages [simp]: "flat ty_RoleImages"
  by (simp add: ty_RoleImages_def)

lemma copies_RoleImages [copiers]: "deep_copier ty_RoleImages DeepCopyInto_RoleImages"
  by (simp add: DeepCopyInto_RoleImages_def copiers)

definition ty_RoleCommands :: ty where
  "ty_RoleCommands = TStruct
     [(''Router'', TSlice TScalar), (''Prefill'', TSlice TScalar),
      (''Decode'', TSlice TScalar)]"

definition ty_RoleArgs :: ty where
  "ty_RoleArgs = TStruct
     [(''Router'', TSlice TScalar), (''Prefill'', TSlice TScalar),
      (''Decode'', TSlice TScalar)]"

definition DeepCopyInto_RoleArgs :: copier where
  "DeepCopyInto_RoleArgs = copy_fields
     [(''Router'', copy_slice assign), (''Prefill'', copy_slice assign),
      (''Decode'', copy_slice assign)]"

definition DeepCopy_RoleArgs :: copier where
  "DeepCopy_RoleArgs = copy_ptr DeepCopyInto_RoleArgs"

lemma copies_RoleArgs [copiers]: "deep_copier ty_RoleArgs DeepCopyInto_RoleArgs"
  unfolding ty_RoleArgs_def DeepCopyInto_RoleArgs_def
  by (rule copier_struct) (simp_all add: copiers copiers_fit_def)

definition ty_RoleEngineRuntimes :: ty where
  "ty_RoleEngineRuntimes = TStruct
     [(''Router'', TSlice ty_EngineRuntime), (''Prefill'', TSlice ty_EngineRuntime),
      (''Decode'', TSlice ty_EngineRuntime)]"

definition DeepCopyInto_RoleEngineRuntimes :: copier where
  "DeepCopyInto_RoleEngineRuntimes = copy_fields
     [(''Router'', copy_slice DeepCopyInto_EngineRuntime),
      (''Prefill'', copy_slice DeepCopyInto_EngineRuntime),
      (''Decode'', copy_slice DeepCopyInto_EngineRuntime)]"

definition DeepCopy_RoleEngineRuntimes :: copier where
  "DeepCopy_RoleEngineRuntimes = copy_ptr DeepCopyInto_RoleEngineRuntimes"

lemma copies_RoleEngineRuntimes [copiers]: "deep_copier ty_RoleEngineRuntimes DeepCopyInto_RoleEngineRuntimes"
  unfolding ty_RoleEngineRuntimes_def DeepCopyInto_RoleEngineRuntimes_def
  by (rule copier_struct) (simp_all add: copiers copiers_fit_def)

definition ty_PDEngineProfileSpec :: ty where
  "ty_PDEngineProfileSpec = TStruct
     [(''Description'', TScalar), (''Applicability'', TPtr ty_ApplicabilitySpec),
      (''Images'', ty_RoleImages), (''RoleCommands'', TPtr ty_RoleCommands),
      (''RoleArgs'', TPtr ty_RoleArgs), (''EngineRuntimes'', TPtr ty_RoleEngineRuntimes)]"

definition DeepCopyInto_PDEngineProfileSpec :: copier where
  "DeepCopyInto_PDEngineProfileSpec = copy_fields
     [(''Applicability'', copy_ptr DeepCopyInto_ApplicabilitySpec), (''Images'', assign),
      (''RoleArgs'', copy_ptr DeepCopyInto_RoleArgs),
      (''EngineRuntimes'', copy_ptr DeepCopyInto_RoleEngineRuntimes)]"

definition DeepCopy_PDEngineProfileSpec :: copier where
  "DeepCopy_PDEngineProfileSpec = copy_ptr DeepCopyInto_PDEngineProfileSpec"

definition ty_PDEngineProfileStatus :: ty where
  "ty_PDEngineProfileStatus = TStruct []"

definition DeepCopyInto_PDEngineProfileStatus :: copier where
  "DeepCopyInto_PDEngineProfileStatus = assign"

definition DeepCopy_PDEngineProfileStatus :: copier where
  "DeepCopy_PDEngineProfileStatus = copy_ptr DeepCopyInto_PDEngineProfileStatus"

lemma flat_PDEngineProfileStatus [simp]: "flat ty_PDEngineProfileStatus"
  by (simp add: ty_PDEngineProfileStatus_def)

lemma copies_PDEngineProfileStatus [copiers]: "deep_copier ty_PDEngineProfileStatus DeepCopyInto_PDEngineProfileStatus"
  by (simp add: DeepCopyInto_PDEngineProfileStatus_def copiers)

definition ty_PDEngineProfile :: ty where
  "ty_PDEngineProfile = TStruct
     [(''TypeMeta'', ty_TypeMeta), (''ObjectMeta'', ty_ObjectMeta),
      (''Spec'', ty_PDEngineProfileSpec), (''Status'', ty_PDEngineProfileStatus)]"

definition DeepCopyInto_PDEngineProfile :: copier where
  "DeepCopyInto_PDEngineProfile = copy_fields
     [(''TypeMeta'', assign), (''ObjectMeta'', DeepCopyInto_ObjectMeta),
      (''Spec'', DeepCopyInto_PDEngineProfileSpec), (''Status'', assign)]"

definition DeepCopy_PDEngineProfile :: copier where
  "DeepCopy_PDEngineProfile = copy_ptr DeepCopyInto_PDEngineProfile"

definition ty_PDEngineProfileList :: ty where
  "ty_PDEngineProfileList = TStruct
     [(''TypeMeta'', ty_TypeMeta), (''ListMeta'', ty_ListMeta),
      (''Items'', TSlice ty_PDEngineProfile)]"

definition DeepCopyInto_PDEngineProfileList :: copier where
  "DeepCopyInto_PDEngineProfileList = copy_fields
     [(''TypeMeta'', assign), (''ListMeta'', DeepCopyInto_ListMeta),
      (''Items'', copy_slice DeepCopyInto_PDEngineProfile)]"

definition DeepCopy_PDEngineProfileList :: copier where
  "DeepCopy_PDEngineProfileList = copy_ptr DeepCopyInto_PDEngineProfileList"

text \<open>
  The types with \<^verbatim>\<open>RoleCommands\<close> read as a bare pointer: what the generated functions copy.
\<close>

definition ty_PDEngineProfileSpec_copied :: ty where
  "ty_PDEngineProfileSpec_copied = TStruct
     [(''Description'', TScalar), (''Applicability'', TPtr ty_ApplicabilitySpec),
      (''Images'', ty_RoleImages), (''RoleCommands'', TShared),
      (''RoleArgs'', TPtr ty_RoleArgs), (''EngineRuntimes'', TPtr ty_RoleEngineRuntimes)]"

definition ty_PDEngineProfile_copied :: ty where
  "ty_PDEngineProfile_copied = TStruct
     [(''TypeMeta'', ty_TypeMeta), (''ObjectMeta'', ty_ObjectMeta),
      (''Spec'', ty_PDEngineProfileSpec_copied), (''Status'', ty_PDEngineProfileStatus)]"

definition ty_PDEngineProfileList_copied :: ty where
  "ty_PDEngineProfileList_copied = TStruct
     [(''TypeMeta'', ty_TypeMeta), (''ListMeta'', ty_ListMeta),
      (''Items'', TSlice ty_PDEngineProfile_copied)]"

lemma copies_PDEngineProfileSpec [copiers]:
  "deep_copier ty_PDEngineProfileSpec_copied DeepCopyInto_PDEngineProfileSpec"
  unfolding ty_PDEngineProfileSpec_copied_def DeepCopyInto_PDEngineProfileSpec_def
  by (rule copier_struct) (simp_all add: copiers copiers_fit_def)

lemma copies_PDEngineProfile [copiers]: "deep_copier ty_PDEngineProfile_copied DeepCopyInto_PDEngineProfile"
  unfolding ty_PDEngineProfile_copied_def DeepCopyInto_PDEngineProfile_def
  by (rule copier_struct) (simp_all add: copiers copiers_fit_def)

lemma copies_PDEngineProfileList [copiers]:
  "deep_copier ty_PDEngineProfileList_copied DeepCopyInto_PDEngineProfileList"
  unfolding ty_PDEngineProfileList_copied_def DeepCopyInto_PDEngineProfileList_def
  by (rule copier_struct) (simp_all add: copiers copiers_fit_def)

lemma opens_PDEngineProfileSpec: "opens ty_PDEngineProfileSpec_copied ty_PDEngineProfileSpec"
  unfolding ty_PDEngineProfileSpec_copied_def ty_PDEngineProfileSpec_def
  by (rule opens_struct) (simp add: opens_rules)

lemma opens_PDEngineProfile: "opens ty_PDEngineProfile_copied ty_PDEngineProfile"
  unfolding ty_PDEngineProfile_copied_def ty_PDEngineProfile_def
  by (rule opens_struct) (simp add: opens_rules opens_PDEngineProfileSpec)

lemma opens_PDEngineProfileList: "opens ty_PDEngineProfileList_copied ty_PDEngineProfileList"
  unfolding ty_PDEngineProfileList_copied_def ty_PDEngineProfileList_def
  by (rule opens_struct) (simp add: opens_rules opens_PDEngineProfile)

subsection \<open>\<^verbatim>\<open>DeepCopyObject\<close>\<close>

text \<open>
  A \<^verbatim>\<open>runtime.Object\<close> in an interface: nil, or a dynamic type with a pointer. The functions
  test the pointer before they convert it, so a nil pointer gives a nil interface.
\<close>

type_synonym interface = "(string \<times> val) option"

definition as_object :: "string \<Rightarrow> val \<Rightarrow> interface" where
  "as_object dynamic c = (if c \<noteq> Ptr None then Some (dynamic, c) else None)"

definition DeepCopyObject_PDEngineProfile :: "val \<Rightarrow> (memory, interface) state" where
  "DeepCopyObject_PDEngineProfile p =
     do { c \<leftarrow> DeepCopy_PDEngineProfile p; State_Monad.return (as_object ''*v1alpha1.PDEngineProfile'' c) }"

definition DeepCopyObject_PDEngineProfileList :: "val \<Rightarrow> (memory, interface) state" where
  "DeepCopyObject_PDEngineProfileList p =
     do { c \<leftarrow> DeepCopy_PDEngineProfileList p; State_Monad.return (as_object ''*v1alpha1.PDEngineProfileList'' c) }"

definition DeepCopyObject_PDInferenceService :: "val \<Rightarrow> (memory, interface) state" where
  "DeepCopyObject_PDInferenceService p =
     do { c \<leftarrow> DeepCopy_PDInferenceService p; State_Monad.return (as_object ''*v1alpha1.PDInferenceService'' c) }"

definition DeepCopyObject_PDInferenceServiceList :: "val \<Rightarrow> (memory, interface) state" where
  "DeepCopyObject_PDInferenceServiceList p =
     do { c \<leftarrow> DeepCopy_PDInferenceServiceList p; State_Monad.return (as_object ''*v1alpha1.PDInferenceServiceList'' c) }"

subsection \<open>Every generated copy against its type\<close>

definition generated_copies :: "(ty \<times> copier) list" where
  "generated_copies =
     [(ty_ApplicabilitySpec, DeepCopy_ApplicabilitySpec), (ty_EmptyDirVolume, DeepCopy_EmptyDirVolume),
      (ty_EngineRuntime, DeepCopy_EngineRuntime), (ty_EventRecord, DeepCopy_EventRecord),
      (ty_HPASpec, DeepCopy_HPASpec), (ty_HostPathVolume, DeepCopy_HostPathVolume),
      (ty_InferenceRoleSpec, DeepCopy_InferenceRoleSpec), (ty_ModelSizeRange, DeepCopy_ModelSizeRange),
      (ty_PDEngineProfileStatus, DeepCopy_PDEngineProfileStatus),
      (ty_PDInferenceService, DeepCopy_PDInferenceService),
      (ty_PDInferenceServiceList, DeepCopy_PDInferenceServiceList),
      (ty_PDInferenceServiceSpec, DeepCopy_PDInferenceServiceSpec),
      (ty_PDInferenceServiceStatus, DeepCopy_PDInferenceServiceStatus), (ty_PVCVolume, DeepCopy_PVCVolume),
      (ty_ProbeSpec, DeepCopy_ProbeSpec), (ty_RoleArgs, DeepCopy_RoleArgs),
      (ty_RoleEngineRuntimes, DeepCopy_RoleEngineRuntimes), (ty_RoleImages, DeepCopy_RoleImages),
      (ty_RoleResources, DeepCopy_RoleResources), (ty_RoleStatus, DeepCopy_RoleStatus),
      (ty_RouterRoleSpec, DeepCopy_RouterRoleSpec), (ty_RuntimeContainer, DeepCopy_RuntimeContainer),
      (ty_ScalingSpec, DeepCopy_ScalingSpec), (ty_VolumeMountSpec, DeepCopy_VolumeMountSpec),
      (ty_VolumeSpec, DeepCopy_VolumeSpec)]"

lemmas DeepCopy_defs =
  DeepCopy_ApplicabilitySpec_def DeepCopy_EmptyDirVolume_def DeepCopy_EngineRuntime_def
  DeepCopy_EventRecord_def DeepCopy_HPASpec_def DeepCopy_HostPathVolume_def
  DeepCopy_InferenceRoleSpec_def DeepCopy_ModelSizeRange_def DeepCopy_PDEngineProfileStatus_def
  DeepCopy_PDInferenceService_def DeepCopy_PDInferenceServiceList_def
  DeepCopy_PDInferenceServiceSpec_def DeepCopy_PDInferenceServiceStatus_def DeepCopy_PVCVolume_def
  DeepCopy_ProbeSpec_def DeepCopy_RoleArgs_def DeepCopy_RoleEngineRuntimes_def
  DeepCopy_RoleImages_def DeepCopy_RoleResources_def DeepCopy_RoleStatus_def
  DeepCopy_RouterRoleSpec_def DeepCopy_RuntimeContainer_def DeepCopy_ScalingSpec_def
  DeepCopy_VolumeMountSpec_def DeepCopy_VolumeSpec_def

lemma generated_copiers: "\<forall>(t, c) \<in> set generated_copies. deep_copier (TPtr t) c"
  by (simp add: generated_copies_def DeepCopy_defs copiers)

interpretation service_copy: deep_copier "TPtr ty_PDInferenceService" DeepCopy_PDInferenceService
  using generated_copiers by (simp add: generated_copies_def)

interpretation service_list_copy: deep_copier "TPtr ty_PDInferenceServiceList" DeepCopy_PDInferenceServiceList
  using generated_copiers by (simp add: generated_copies_def)

interpretation profile_copy: deep_copier "TPtr ty_PDEngineProfile_copied" DeepCopy_PDEngineProfile
  by (simp add: DeepCopy_PDEngineProfile_def copiers)

interpretation profile_list_copy: deep_copier "TPtr ty_PDEngineProfileList_copied" DeepCopy_PDEngineProfileList
  by (simp add: DeepCopy_PDEngineProfileList_def copiers)

lemma copies_through:
  assumes "deep_copier u c" and "opens u t" and "mem_ok h" and "contents t h v = Some x"
    and "run_state (c v) h = (v', h')"
  shows "extends h h'" and "contents t h' v' = Some x" and "contents t h' v = Some x"
    and "contents u h' v' = contents u h v"
proof -
  from opensD(1) [OF assms(2,3) extends_refl assms(4)] obtain y where y: "contents u h v = Some y" by blast
  from deep_copier.copy [OF assms(1,3) y assms(5)] have c: "extends h h'" "contents u h' v' = Some y" by simp_all
  with y show "extends h h'" "contents u h' v' = contents u h v" by simp_all
  with opensD(2) [OF assms(2,3) c(1) assms(4)] show "contents t h' v' = Some x" by blast
  from contents_extends(1) [OF assms(3,4) c(1)] show "contents t h' v = Some x" .
qed

text \<open>
  C36: Deep copies are equal and independent. For each of the 25 generated copy functions
  outside \<^verbatim>\<open>PDEngineProfileSpec\<close> and its containers, and any well-formed memory in which a
  pointer reads as a value of the type, the copy reads as the same value, the original still
  does, the two share no cell, and whatever is written to the cells of one leaves the other as
  it was.
\<close>

theorem generated_copies_isolated:
  assumes "(t, c) \<in> set generated_copies" and "mem_ok h" and "contents (TPtr t) h p = Some x"
    and "run_state (c p) h = (q, h')"
  shows "contents (TPtr t) h' q = Some x \<and> contents (TPtr t) h' p = Some x \<and>
     footprint (TPtr t) h' p \<inter> footprint (TPtr t) h' q = {} \<and>
     (\<forall>g. (\<forall>a. a \<notin> footprint (TPtr t) h' q \<longrightarrow> mem_cells g a = mem_cells h' a) \<longrightarrow>
        contents (TPtr t) g p = Some x) \<and>
     (\<forall>g. (\<forall>a. a \<notin> footprint (TPtr t) h' p \<longrightarrow> mem_cells g a = mem_cells h' a) \<longrightarrow>
        contents (TPtr t) g q = Some x)"
proof -
  have d: "deep_copier (TPtr t) c" using generated_copiers assms(1) by blast
  note copies_through(2,3) [OF d opens_refl assms(2-4)]
    and deep_copier.copy_disjoint [OF d assms(2-4)] and deep_copier.copy_isolated [OF d assms(2-4)]
  then show ?thesis by blast
qed

text \<open>A memory that holds a \<^verbatim>\<open>ScalingSpec\<close> with a lower bound for decode.\<close>

definition sample_scaling :: memory where
  "sample_scaling = \<lparr>mem_cells =
     [0 \<mapsto> Obj (Struct [(''Decode'', Ptr (Some 1)), (''Prefill'', Ptr None)]),
      1 \<mapsto> Obj (Struct [(''MinReplicas'', Ptr (Some 2)), (''MaxReplicas'', Number 8)]),
      2 \<mapsto> Obj (Number 1)], mem_next = 3\<rparr>"

lemma sample_scaling_ok: "mem_ok sample_scaling"
  by (simp add: mem_ok_def sample_scaling_def)

lemma sample_scaling_reads:
  "contents (TPtr ty_ScalingSpec) sample_scaling (Ptr (Some 0)) =
     Some (Pointee (Fields
       [(''Decode'', Pointee (Fields [(''MinReplicas'', Pointee (Leaf (Number 1))), (''MaxReplicas'', Leaf (Number 8))])),
        (''Prefill'', NilTree)]))"
  by (simp add: ty_ScalingSpec_def ty_HPASpec_def sample_scaling_def read_field_def is_scalar_def)

theorem generated_copies_isolated_witness:
  "\<exists>q h'. run_state (DeepCopy_ScalingSpec (Ptr (Some 0))) sample_scaling = (q, h') \<and> q = Ptr (Some 3) \<and>
     contents (TPtr ty_ScalingSpec) h' q = contents (TPtr ty_ScalingSpec) sample_scaling (Ptr (Some 0)) \<and>
     footprint (TPtr ty_ScalingSpec) h' (Ptr (Some 0)) \<inter> footprint (TPtr ty_ScalingSpec) h' q = {}"
proof -
  obtain q h' where r: "run_state (DeepCopy_ScalingSpec (Ptr (Some 0))) sample_scaling = (q, h')"
    by (metis surj_pair)
  have m: "(ty_ScalingSpec, DeepCopy_ScalingSpec) \<in> set generated_copies"
    by (simp add: generated_copies_def)
  from r have "q = Ptr (Some 3)"
    by (simp add: DeepCopy_ScalingSpec_def copy_ptr_def sample_scaling_def State_Monad.get_def run_fresh run_store
        split: prod.splits)
  with generated_copies_isolated [OF m sample_scaling_ok sample_scaling_reads r] sample_scaling_reads r
  show ?thesis by metis
qed

text \<open>The pointer in \<^verbatim>\<open>Spec.RoleCommands\<close> of a profile, and the commands behind it.\<close>

definition role_commands :: "memory \<Rightarrow> val \<Rightarrow> val option" where
  "role_commands h p = (case p of
     Ptr (Some a) \<Rightarrow> (case mem_cells h a of
       Some (Obj v) \<Rightarrow> Option.bind (get_field ''Spec'' v) (get_field ''RoleCommands'')
     | _ \<Rightarrow> None)
   | _ \<Rightarrow> None)"

lemma role_commands_read:
  assumes "contents (TPtr (TStruct fs)) h p = Some y" and "contents (TPtr (TStruct fs)) h' p' = Some y"
    and "map_of fs ''Spec'' = Some (TStruct gs)" and "map_of gs ''RoleCommands'' = Some r"
  obtains "p = Ptr None" and "p' = Ptr None"
  | c c' z where "role_commands h p = Some c" and "role_commands h' p' = Some c'"
    and "contents r h c = Some z" and "contents r h' c' = Some z"
  using assms(1)
proof (cases rule: contents_ptr_cases)
  case 1
  from assms(2) 1(2) have "p' = Ptr None" by (cases rule: contents_ptr_cases) auto
  with 1 that(1) show thesis by blast
next
  case (2 a w x)
  from assms(2) 2(4) obtain a' w' where p': "p' = Ptr (Some a')" "mem_cells h' a' = Some (Obj w')"
    "contents (TStruct fs) h' w' = Some x"
    by (cases rule: contents_ptr_cases) auto
  from 2(3) p'(3) obtain vs vs' where w: "w = Struct vs" "w' = Struct vs'"
    by (elim contents_struct_cases) blast
  from struct_same_fields [OF 2(3) [unfolded w] p'(3) [unfolded w] map_of_SomeD [OF assms(3)]]
  obtain s s' sx where s: "map_of vs ''Spec'' = Some s" "map_of vs' ''Spec'' = Some s'"
    "contents (TStruct gs) h s = Some sx" "contents (TStruct gs) h' s' = Some sx" by blast
  from s(3,4) obtain us us' where u: "s = Struct us" "s' = Struct us'"
    by (elim contents_struct_cases) blast
  from struct_same_fields [OF s(3) [unfolded u] s(4) [unfolded u] map_of_SomeD [OF assms(4)]]
  obtain c c' z where "map_of us ''RoleCommands'' = Some c" "map_of us' ''RoleCommands'' = Some c'"
    "contents r h c = Some z" "contents r h' c' = Some z" by blast
  with 2 p' w s u that(2) show thesis by (simp add: role_commands_def get_field_def)
qed

lemmas profile_ty_defs = ty_PDEngineProfile_def ty_PDEngineProfileSpec_def
lemmas copied_ty_defs = ty_PDEngineProfile_copied_def ty_PDEngineProfileSpec_copied_def

text \<open>The copy keeps the pointer.\<close>

lemma copied_commands_same:
  assumes "contents (TPtr ty_PDEngineProfile_copied) h p = Some y"
    and "contents (TPtr ty_PDEngineProfile_copied) h' p' = Some y"
  shows "role_commands h' p' = role_commands h p"
  using assms [unfolded copied_ty_defs]
  by (rule role_commands_read [where r = TShared]) (auto simp: role_commands_def)

lemma commands_read_same:
  assumes "contents (TPtr ty_PDEngineProfile) h p = Some x" and "contents (TPtr ty_PDEngineProfile) g p = Some x"
    and "role_commands h p = Some c" and "role_commands g p = Some c"
  shows "contents (TPtr ty_RoleCommands) g c = contents (TPtr ty_RoleCommands) h c"
  using assms(1,2) [unfolded profile_ty_defs]
  by (rule role_commands_read [where r = "TPtr ty_RoleCommands"]) (use assms(3,4) in \<open>auto simp: role_commands_def\<close>)

text \<open>A write to the commands leaves the profile's own cell alone.\<close>

lemma commands_cell:
  assumes "contents (TPtr ty_PDEngineProfile) h p = Some x" and "role_commands h p = Some (Ptr (Some a))"
  shows "role_commands (h\<lparr>mem_cells := (mem_cells h)(a \<mapsto> c)\<rparr>) p = Some (Ptr (Some a))"
proof -
  have "contents (TPtr ty_RoleCommands) h (Ptr (Some a)) \<noteq> None"
    using assms(1) [unfolded profile_ty_defs] assms(1) [unfolded profile_ty_defs]
    by (rule role_commands_read [where r = "TPtr ty_RoleCommands"]) (use assms(2) in \<open>auto simp: role_commands_def\<close>)
  then obtain us where u: "mem_cells h a = Some (Obj (Struct us))" "map fst us = [''Router'', ''Prefill'', ''Decode'']"
    by (auto simp: ty_RoleCommands_def split: option.splits cell.splits val.splits if_splits)
  from assms obtain b vs where "p = Ptr (Some b)" "mem_cells h b = Some (Obj (Struct vs))"
    "map fst vs = [''TypeMeta'', ''ObjectMeta'', ''Spec'', ''Status'']"
    by (auto simp: ty_PDEngineProfile_def role_commands_def split: option.splits cell.splits val.splits if_splits)
  with u assms(2) show ?thesis by (cases "a = b") (auto simp: role_commands_def)
qed

text \<open>
  C37: The copy of a profile shares its commands. A copied \<^verbatim>\<open>PDEngineProfile\<close> reads as the
  original, and writes to the cells that were copied leave the original as it was. But the
  generated function has no statement for \<^verbatim>\<open>Spec.RoleCommands\<close>: copy and original hold the
  same pointer, and any write through it that changes the commands changes both objects.
\<close>

theorem profile_copy_shares_commands:
  assumes "mem_ok h" and "contents (TPtr ty_PDEngineProfile) h p = Some x"
    and "run_state (DeepCopy_PDEngineProfile p) h = (q, h')"
  shows "contents (TPtr ty_PDEngineProfile) h' q = Some x \<and> contents (TPtr ty_PDEngineProfile) h' p = Some x \<and>
     (\<forall>g. (\<forall>a. a \<notin> footprint (TPtr ty_PDEngineProfile_copied) h' q \<longrightarrow> mem_cells g a = mem_cells h' a) \<longrightarrow>
        contents (TPtr ty_PDEngineProfile) g p = Some x) \<and>
     role_commands h' q = role_commands h' p \<and>
     (\<forall>a w g. role_commands h' p = Some (Ptr (Some a)) \<longrightarrow> g = h'\<lparr>mem_cells := (mem_cells h')(a \<mapsto> Obj w)\<rparr> \<longrightarrow>
        contents (TPtr ty_RoleCommands) g (Ptr (Some a)) \<noteq> contents (TPtr ty_RoleCommands) h' (Ptr (Some a)) \<longrightarrow>
        contents (TPtr ty_PDEngineProfile) g p \<noteq> Some x \<and> contents (TPtr ty_PDEngineProfile) g q \<noteq> Some x)"
proof -
  note op = opens_ptr [OF opens_PDEngineProfile] and d = profile_copy.deep_copier_axioms
  note c = copies_through [OF d op assms]
  from opensD(1) [OF op assms(1) extends_refl assms(2)] obtain y where
    y: "contents (TPtr ty_PDEngineProfile_copied) h p = Some y" by blast
  have sep: "contents (TPtr ty_PDEngineProfile) g p = Some x"
    if "\<forall>a. a \<notin> footprint (TPtr ty_PDEngineProfile_copied) h' q \<longrightarrow> mem_cells g a = mem_cells h' a" for g
  proof -
    have "footprint (TPtr ty_PDEngineProfile) h' p \<subseteq> {..<mem_next h}"
      using footprint_below [OF assms(1,2)] contents_extends(2) [OF assms(1,2) c(1)] by (simp only:)
    moreover have "footprint (TPtr ty_PDEngineProfile_copied) h' q \<subseteq> {mem_next h..<mem_next h'}"
      using profile_copy.copy [OF assms(1) y assms(3)] by blast
    ultimately show ?thesis
      using contents_frame [OF c(3), of g] that by (metis atLeastLessThan_iff leD lessThan_iff subsetD)
  qed
  from contents_extends(1) [OF assms(1) y c(1)] c(4) y
  have same: "role_commands h' q = role_commands h' p" by (intro copied_commands_same) simp_all
  have changes: "contents (TPtr ty_PDEngineProfile) g o' \<noteq> Some x"
    if "contents (TPtr ty_PDEngineProfile) h' o' = Some x" "role_commands h' o' = Some (Ptr (Some a))"
      "g = h'\<lparr>mem_cells := (mem_cells h')(a \<mapsto> Obj w)\<rparr>"
      "contents (TPtr ty_RoleCommands) g (Ptr (Some a)) \<noteq> contents (TPtr ty_RoleCommands) h' (Ptr (Some a))" for a w g o'
    using commands_read_same [OF that(1) _ that(2)] commands_cell [OF that(1,2)] that(3,4) by blast
  from c(2,3) sep same changes show ?thesis by auto
qed

text \<open>A memory that holds a profile with a router command.\<close>

definition sample_profile_meta :: val where
  "sample_profile_meta = Struct
     [(''Name'', Text ''p''), (''GenerateName'', Text ''''), (''Namespace'', Text ''default''), (''SelfLink'', Text ''''),
      (''UID'', Text ''''), (''ResourceVersion'', Text ''1''), (''Generation'', Number 0), (''CreationTimestamp'', Number 0),
      (''DeletionTimestamp'', Ptr None), (''DeletionGracePeriodSeconds'', Ptr None), (''Labels'', MapRef None),
      (''Annotations'', MapRef None), (''OwnerReferences'', Slice None), (''Finalizers'', Slice None),
      (''ManagedFields'', Slice None)]"

definition sample_profile :: memory where
  "sample_profile = \<lparr>mem_cells =
     [0 \<mapsto> Obj (Struct [(''TypeMeta'', Struct [(''Kind'', Text ''''), (''APIVersion'', Text '''')]),
        (''ObjectMeta'', sample_profile_meta),
        (''Spec'', Struct [(''Description'', Text ''''), (''Applicability'', Ptr None),
           (''Images'', Struct [(''Router'', Text ''r''), (''Prefill'', Text ''p''), (''Decode'', Text ''d'')]),
           (''RoleCommands'', Ptr (Some 1)), (''RoleArgs'', Ptr None), (''EngineRuntimes'', Ptr None)]),
        (''Status'', Struct [])]),
      1 \<mapsto> Obj (Struct [(''Router'', Slice (Some (2, 0, 1))), (''Prefill'', Slice None), (''Decode'', Slice None)]),
      2 \<mapsto> Arr [Text ''sh'']], mem_next = 3\<rparr>"

lemma sample_profile_reads: "\<exists>x. contents (TPtr ty_PDEngineProfile) sample_profile (Ptr (Some 0)) = Some x"
  by (simp add: ty_PDEngineProfile_def ty_PDEngineProfileSpec_def ty_PDEngineProfileStatus_def ty_TypeMeta_def
      ty_ObjectMeta_def ty_RoleImages_def ty_RoleCommands_def sample_profile_def sample_profile_meta_def
      read_field_def is_scalar_def window_def)

theorem profile_copy_shares_commands_witness:
  "\<exists>q h' g. run_state (DeepCopy_PDEngineProfile (Ptr (Some 0))) sample_profile = (q, h') \<and>
     role_commands h' q = Some (Ptr (Some 1)) \<and>
     g = h'\<lparr>mem_cells := (mem_cells h')(1 \<mapsto>
       Obj (Struct [(''Router'', Slice None), (''Prefill'', Slice None), (''Decode'', Slice None)]))\<rparr> \<and>
     contents (TPtr ty_PDEngineProfile) g (Ptr (Some 0)) \<noteq> contents (TPtr ty_PDEngineProfile) sample_profile (Ptr (Some 0))"
proof -
  let ?p = "Ptr (Some 0)" and ?w = "Struct [(''Router'', Slice None), (''Prefill'', Slice None), (''Decode'', Slice None)]"
  have ok: "mem_ok sample_profile" by (simp add: mem_ok_def sample_profile_def)
  obtain x where x: "contents (TPtr ty_PDEngineProfile) sample_profile ?p = Some x"
    using sample_profile_reads by blast
  obtain q h' where r: "run_state (DeepCopy_PDEngineProfile ?p) sample_profile = (q, h')" by (metis surj_pair)
  from copies_through(1) [OF profile_copy.deep_copier_axioms opens_ptr [OF opens_PDEngineProfile] ok x r]
  have cells: "mem_cells h' a = mem_cells sample_profile a" if "a < 3" for a
    using that by (auto simp: extends_def sample_profile_def)
  let ?g = "h'\<lparr>mem_cells := (mem_cells h')(1 \<mapsto> Obj ?w)\<rparr>"
  have p: "role_commands h' ?p = Some (Ptr (Some 1))"
    by (simp add: role_commands_def cells) (simp add: sample_profile_def get_field_def)
  have "contents (TPtr ty_RoleCommands) h' (Ptr (Some 1)) =
      Some (Pointee (Fields [(''Router'', Elems [Leaf (Text ''sh'')]), (''Prefill'', NilTree), (''Decode'', NilTree)]))"
    by (simp add: cells ty_RoleCommands_def)
      (simp add: sample_profile_def read_field_def cells is_scalar_def window_def)
  moreover have "contents (TPtr ty_RoleCommands) ?g (Ptr (Some 1)) =
      Some (Pointee (Fields [(''Router'', NilTree), (''Prefill'', NilTree), (''Decode'', NilTree)]))"
    by (simp add: ty_RoleCommands_def read_field_def)
  ultimately have "contents (TPtr ty_RoleCommands) ?g (Ptr (Some 1)) \<noteq> contents (TPtr ty_RoleCommands) h' (Ptr (Some 1))"
    by simp
  with profile_copy_shares_commands [OF ok x r] p x r show ?thesis by metis
qed

text \<open>The root objects, with the dynamic type and the \<^verbatim>\<open>DeepCopyObject\<close> of each.\<close>

definition root_objects :: "(ty \<times> string \<times> (val \<Rightarrow> (memory, interface) state)) list" where
  "root_objects =
     [(ty_PDEngineProfile, ''*v1alpha1.PDEngineProfile'', DeepCopyObject_PDEngineProfile),
      (ty_PDEngineProfileList, ''*v1alpha1.PDEngineProfileList'', DeepCopyObject_PDEngineProfileList),
      (ty_PDInferenceService, ''*v1alpha1.PDInferenceService'', DeepCopyObject_PDInferenceService),
      (ty_PDInferenceServiceList, ''*v1alpha1.PDInferenceServiceList'', DeepCopyObject_PDInferenceServiceList)]"

lemma object_of_copy:
  assumes "deep_copier u into" and "opens u t" and "mem_ok h" and "contents (TPtr t) h p = Some x"
    and "run_state (do { c \<leftarrow> copy_ptr into p; State_Monad.return (as_object d c) }) h = (i, h')"
  shows "(p = Ptr None \<longrightarrow> i = None \<and> h' = h) \<and>
     (p \<noteq> Ptr None \<longrightarrow> (\<exists>a. i = Some (d, Ptr (Some a)) \<and> mem_next h \<le> a \<and>
        contents (TPtr t) h' (Ptr (Some a)) = Some x \<and> contents (TPtr t) h' p = Some x))"
proof -
  obtain c where r: "run_state (copy_ptr into p) h = (c, h')" and i: "i = as_object d c"
    using assms(5) by (cases "run_state (copy_ptr into p) h") simp
  note cp = copies_through [OF copier_ptr [OF assms(1)] opens_ptr [OF assms(2)] assms(3,4) r]
  from assms(4) show ?thesis
  proof (cases rule: contents_ptr_cases)
    case 1
    with r i show ?thesis by (simp add: copy_ptr_def as_object_def)
  next
    case (2 b w y)
    with r have "c = Ptr (Some (mem_next h))"
      by (simp add: copy_ptr_def State_Monad.get_def run_fresh run_store split: prod.splits)
    with i cp(2,3) 2(1) show ?thesis by (simp add: as_object_def)
  qed
qed

lemmas DeepCopyObject_defs =
  DeepCopyObject_PDEngineProfile_def DeepCopyObject_PDEngineProfileList_def
  DeepCopyObject_PDInferenceService_def DeepCopyObject_PDInferenceServiceList_def
  DeepCopy_PDEngineProfile_def DeepCopy_PDEngineProfileList_def
  DeepCopy_PDInferenceService_def DeepCopy_PDInferenceServiceList_def

text \<open>
  The object interface. \<^verbatim>\<open>DeepCopyObject\<close> of a nil pointer is the nil interface, not an
  interface that holds a nil pointer, and allocates nothing. Of any other pointer it is an
  interface of the right dynamic type that holds a new object reading as the original.
\<close>

lemma DeepCopyObject_copies:
  assumes "(t, d, f) \<in> set root_objects" and "mem_ok h" and "contents (TPtr t) h p = Some x"
    and "run_state (f p) h = (i, h')"
  shows "(p = Ptr None \<longrightarrow> i = None \<and> h' = h) \<and>
     (p \<noteq> Ptr None \<longrightarrow> (\<exists>a. i = Some (d, Ptr (Some a)) \<and> mem_next h \<le> a \<and>
        contents (TPtr t) h' (Ptr (Some a)) = Some x \<and> contents (TPtr t) h' p = Some x))"
proof -
  from assms(1) obtain u into where "deep_copier u into" "opens u t"
    "f = (\<lambda>p. do { c \<leftarrow> copy_ptr into p; State_Monad.return (as_object d c) })"
    using copies_PDEngineProfile copies_PDEngineProfileList copies_PDInferenceService copies_PDInferenceServiceList
      opens_PDEngineProfile opens_PDEngineProfileList opens_refl
    by (auto simp: root_objects_def DeepCopyObject_defs fun_eq_iff)
  with object_of_copy assms(2-4) show ?thesis by blast
qed

lemma DeepCopyObject_copies_witness:
  "\<exists>h' a x. run_state (DeepCopyObject_PDEngineProfile (Ptr (Some 0))) sample_profile =
       (Some (''*v1alpha1.PDEngineProfile'', Ptr (Some a)), h') \<and>
     contents (TPtr ty_PDEngineProfile) h' (Ptr (Some a)) = Some x \<and>
     run_state (DeepCopyObject_PDEngineProfile (Ptr None)) sample_profile = (None, sample_profile)"
proof -
  have ok: "mem_ok sample_profile" by (simp add: mem_ok_def sample_profile_def)
  have m: "(ty_PDEngineProfile, ''*v1alpha1.PDEngineProfile'', DeepCopyObject_PDEngineProfile) \<in> set root_objects"
    by (simp add: root_objects_def)
  obtain x where x: "contents (TPtr ty_PDEngineProfile) sample_profile (Ptr (Some 0)) = Some x"
    using sample_profile_reads by blast
  have n: "contents (TPtr ty_PDEngineProfile) sample_profile (Ptr None) = Some NilTree" by simp
  obtain i h' where r: "run_state (DeepCopyObject_PDEngineProfile (Ptr (Some 0))) sample_profile = (i, h')"
    by (metis surj_pair)
  obtain j g where s: "run_state (DeepCopyObject_PDEngineProfile (Ptr None)) sample_profile = (j, g)"
    by (metis surj_pair)
  from DeepCopyObject_copies [OF m ok x r] DeepCopyObject_copies [OF m ok n s] r s show ?thesis by auto
qed

end
