(* ===== verification/Manager.thy ===== *)
theory Manager
  imports Reconcile_Contract
begin

section \<open>The controller in its manager: watches, queue, interleaving\<close>

text \<open>
  \<^verbatim>\<open>SetupWithManager\<close> registers two watches. This theory models what controller-runtime does
  with them (\<^verbatim>\<open>vendor/sigs.k8s.io/controller-runtime\<close>): an event on a watched object becomes
  requests, a worker takes a request and calls \<^verbatim>\<open>Reconcile\<close>, and the answer decides whether
  the request comes back. The whole is a step relation over the server and the set of pending
  requests, in which any other actor may change the stored objects between two
  reconciliations. Delayed requests (\<^verbatim>\<open>RequeueAfter\<close>, rate limiting) count as pending. A change
  reaches the queue in the step that makes it. The real queue with its workers, in \<open>Worker\<close>,
  refines this view.
\<close>

subsection \<open>Owners (\<^verbatim>\<open>enqueue_owner.go\<close>, \<^verbatim>\<open>controller_ref.go\<close>, \<^verbatim>\<open>group_version.go\<close>)\<close>

definition ParseGroupVersion :: "string \<Rightarrow> go_error + string \<times> string" where
  "ParseGroupVersion gv =
     (if gv = '''' \<or> gv = ''/'' then Inr ('''', '''')
      else let n = length (filter (\<lambda>c. c = CHR ''/'') gv) in
        if n = 0 then Inr ('''', gv)
        else if n = 1 then Inr (takeWhile (\<lambda>c. c \<noteq> CHR ''/'') gv, tl (dropWhile (\<lambda>c. c \<noteq> CHR ''/'') gv))
        else Inl (ErrorString (''unexpected GroupVersion string: '' @ gv)))"

fun GetControllerOf :: "OwnerReference list \<Rightarrow> OwnerReference option" where
  "GetControllerOf [] = None"
| "GetControllerOf (ref # refs) = (if or_Controller ref = Some True then Some ref else GetControllerOf refs)"

text \<open>
  Whether the REST mapper finds the service kind at a version: the definition installed with
  the program serves \<^verbatim>\<open>v1alpha1\<close>; an empty or internal version means the served ones.
\<close>

definition RESTMappings :: "string list \<Rightarrow> string list \<Rightarrow> string list" where
  "RESTMappings served versions =
     (let wanted = filter (\<lambda>v. \<not> (length v = 0 \<or> v = ''__internal'')) versions in
      if wanted = [] then served else take 1 (filter (\<lambda>v. v \<in> set served) wanted))"

text \<open>
  The requests for the owner of an object: the controller reference only, when its group and
  kind are those of the owner type and the mapper knows its version. Both kinds of the program
  are namespaced (\<^verbatim>\<open>+kubebuilder:resource:scope=Namespaced\<close>), so the request takes the
  namespace of the object.
\<close>

definition getOwnerReconcileRequest :: "string \<Rightarrow> string \<Rightarrow> string list \<Rightarrow> ObjectMeta \<Rightarrow> NamespacedName list" where
  "getOwnerReconcileRequest grp kind served m = (case GetControllerOf (om_OwnerReferences m) of
     None \<Rightarrow> []
   | Some ref \<Rightarrow> (case ParseGroupVersion (or_APIVersion ref) of
       Inl _ \<Rightarrow> []
     | Inr refGV \<Rightarrow>
         if or_Kind ref = kind \<and> fst refGV = grp then
           (if RESTMappings served [snd refGV] = [] then [] else [mk_key (om_Namespace m) (or_Name ref)])
         else []))"

subsection \<open>Watches\<close>

datatype object_kind_name = KindPDIS | KindProfile | KindRBG

datatype watch = For object_kind_name | Owns object_kind_name

text \<open>The builder chain of \<^verbatim>\<open>SetupWithManager\<close>: the watches and the name of the controller.\<close>

definition SetupWithManager :: "watch list \<times> string" where
  "SetupWithManager = ([For KindPDIS, Owns KindRBG], ''pdinferenceservice'')"

text \<open>An event: the kind of the object, and its metadata before and after.\<close>

record event =
  evt_Kind :: object_kind_name
  evt_Old :: "ObjectMeta option"
  evt_New :: "ObjectMeta option"

definition for_requests :: "event \<Rightarrow> NamespacedName list" where
  "for_requests e = (case evt_New e of
     Some m \<Rightarrow> [meta_key m]
   | None \<Rightarrow> (case evt_Old e of Some m \<Rightarrow> [meta_key m] | None \<Rightarrow> []))"

definition owner_requests :: "event \<Rightarrow> NamespacedName list" where
  "owner_requests e =
     (let reqs = (\<lambda>m. case m of None \<Rightarrow> []
        | Some m \<Rightarrow> getOwnerReconcileRequest ''pdai.pdai.io'' ''PDInferenceService'' [''v1alpha1''] m)
      in remdups (reqs (evt_Old e) @ reqs (evt_New e)))"

definition watch_requests :: "watch list \<Rightarrow> event \<Rightarrow> NamespacedName list" where
  "watch_requests ws e = concat (map (\<lambda>w. case w of
     For k \<Rightarrow> if evt_Kind e = k then for_requests e else []
   | Owns k \<Rightarrow> if evt_Kind e = k then owner_requests e else []) ws)"

text \<open>The events between two states of the cluster, one for every object that differs.\<close>

definition meta_events :: "object_kind_name \<Rightarrow> ('a \<Rightarrow> ObjectMeta) \<Rightarrow> (NamespacedName \<rightharpoonup> 'a) \<Rightarrow>
    (NamespacedName \<rightharpoonup> 'a) \<Rightarrow> event set" where
  "meta_events kind meta m m' =
     {\<lparr>evt_Kind = kind, evt_Old = map_option meta (m k), evt_New = map_option meta (m' k)\<rparr> | k. m k \<noteq> m' k}"

definition events :: "cluster \<Rightarrow> cluster \<Rightarrow> event set" where
  "events c c' = meta_events KindPDIS pd_ObjectMeta (cl_pdis c) (cl_pdis c') \<union>
     meta_events KindProfile ep_ObjectMeta (cl_profiles c) (cl_profiles c') \<union>
     meta_events KindRBG rbg_ObjectMeta (cl_rbgs c) (cl_rbgs c')"

definition woken :: "cluster \<Rightarrow> cluster \<Rightarrow> NamespacedName set" where
  "woken c c' = (\<Union>e \<in> events c c'. set (watch_requests (fst SetupWithManager) e))"

subsection \<open>The worker (\<^verbatim>\<open>reconcileHandler\<close>)\<close>

text \<open>
  A panic is recovered into an error; an error and a positive \<^verbatim>\<open>RequeueAfter\<close> put the request
  back. The program builds no terminal errors.
\<close>

definition requeued :: "(Result \<times> go_error option) outcome \<Rightarrow> bool" where
  "requeued out = (case out of
     Panic _ \<Rightarrow> True
   | Returns (res, err) \<Rightarrow> (case err of Some _ \<Rightarrow> True | None \<Rightarrow> res_RequeueAfter res > 0))"

inductive system_step :: "quantity_parser \<Rightarrow> 's client \<Rightarrow> ('s \<Rightarrow> cluster) \<Rightarrow>
    's \<times> NamespacedName set \<Rightarrow> 's \<times> NamespacedName set \<Rightarrow> bool"
  for pq :: quantity_parser and api :: "'s client" and cluster :: "'s \<Rightarrow> cluster" where
  outside: "system_step pq api cluster (s, q) (s', q \<union> woken (cluster s) (cluster s'))"
| work: "k \<in> q \<Longrightarrow> run_state (Reconcile pq api k) s = (out, s') \<Longrightarrow>
    system_step pq api cluster (s, q)
      (s', q - {k} \<union> woken (cluster s) (cluster s') \<union> (if requeued out then {k} else {}))"

text \<open>At the start the informers report every stored object.\<close>

definition no_objects :: cluster where
  "no_objects = \<lparr>cl_pdis = Map.empty, cl_profiles = Map.empty, cl_rbgs = Map.empty\<rparr>"

inductive reachable :: "quantity_parser \<Rightarrow> 's client \<Rightarrow> ('s \<Rightarrow> cluster) \<Rightarrow> 's \<times> NamespacedName set \<Rightarrow> bool"
  for pq :: quantity_parser and api :: "'s client" and cluster :: "'s \<Rightarrow> cluster" where
  start: "reachable pq api cluster (s, woken no_objects (cluster s))"
| step: "reachable pq api cluster x \<Longrightarrow> system_step pq api cluster x y \<Longrightarrow> reachable pq api cluster y"

subsection \<open>What wakes the controller\<close>

text \<open>Every object is stored under its own name.\<close>

definition keyed :: "cluster \<Rightarrow> bool" where
  "keyed c \<longleftrightarrow> (\<forall>k p. cl_pdis c k = Some p \<longrightarrow> pdis_key p = k)"

lemma watch_requests_eq:
  "watch_requests (fst SetupWithManager) e = (case evt_Kind e of
     KindPDIS \<Rightarrow> for_requests e | KindProfile \<Rightarrow> [] | KindRBG \<Rightarrow> owner_requests e)"
  by (simp add: watch_requests_def SetupWithManager_def split: object_kind_name.split)

lemma woken_service:
  assumes "keyed c" and "keyed c'" and "cl_pdis c k \<noteq> cl_pdis c' k"
  shows "k \<in> woken c c'"
proof -
  let ?e = "\<lparr>evt_Kind = KindPDIS, evt_Old = map_option pd_ObjectMeta (cl_pdis c k),
    evt_New = map_option pd_ObjectMeta (cl_pdis c' k)\<rparr>"
  from assms(3) have "?e \<in> events c c'" by (auto simp: events_def meta_events_def)
  moreover have "k \<in> set (watch_requests (fst SetupWithManager) ?e)"
    using assms unfolding watch_requests_eq
    by (cases "cl_pdis c k"; cases "cl_pdis c' k") (auto simp: for_requests_def keyed_def)
  ultimately show ?thesis unfolding woken_def by blast
qed

lemma woken_none: "cl_pdis c = cl_pdis c' \<Longrightarrow> cl_rbgs c = cl_rbgs c' \<Longrightarrow> woken c c' = {}"
  unfolding woken_def watch_requests_eq by (auto simp: events_def meta_events_def)

lemma GroupVersion_parses: "ParseGroupVersion GroupVersion_String = Inr (''pdai.pdai.io'', ''v1alpha1'')"
  by (simp add: ParseGroupVersion_def GroupVersion_String_def)

lemma owned_requests:
  assumes "om_OwnerReferences m = [ownerRef p]" and "om_Namespace m = pd_Namespace p"
  shows "getOwnerReconcileRequest ''pdai.pdai.io'' ''PDInferenceService'' [''v1alpha1''] m = [pdis_key p]"
  using assms GroupVersion_parses
  by (simp add: getOwnerReconcileRequest_def RESTMappings_def ownerRef_def meta_key_def)

lemma woken_owner:
  assumes "cl_rbgs c k = Some g" and "cl_rbgs c' k \<noteq> Some g"
    and "om_OwnerReferences (rbg_ObjectMeta g) = [ownerRef p]" and "rbg_Namespace g = pd_Namespace p"
  shows "pdis_key p \<in> woken c c'"
proof -
  let ?e = "\<lparr>evt_Kind = KindRBG, evt_Old = Some (rbg_ObjectMeta g),
    evt_New = map_option rbg_ObjectMeta (cl_rbgs c' k)\<rparr>"
  from assms(1,2) have "cl_rbgs c k \<noteq> cl_rbgs c' k" by auto
  with assms(1) have "?e \<in> events c c'" by (force simp: events_def meta_events_def)
  moreover have "pdis_key p \<in> set (watch_requests (fst SetupWithManager) ?e)"
    using owned_requests [OF assms(3,4)] unfolding watch_requests_eq by (simp add: owner_requests_def)
  ultimately show ?thesis unfolding woken_def by blast
qed

subsection \<open>Exactly what wakes the controller\<close>

lemma woken_union: "woken c c' =
  (\<Union>e \<in> meta_events KindPDIS pd_ObjectMeta (cl_pdis c) (cl_pdis c'). set (for_requests e)) \<union>
  (\<Union>e \<in> meta_events KindRBG rbg_ObjectMeta (cl_rbgs c) (cl_rbgs c'). set (owner_requests e))"
  unfolding woken_def events_def watch_requests_eq by (force simp: meta_events_def)

lemma owner_requests_set:
  "set (owner_requests \<lparr>evt_Kind = kind, evt_Old = map_option rbg_ObjectMeta x, evt_New = map_option rbg_ObjectMeta y\<rparr>) =
   {k. \<exists>g. (x = Some g \<or> y = Some g) \<and>
      k \<in> set (getOwnerReconcileRequest ''pdai.pdai.io'' ''PDInferenceService'' [''v1alpha1''] (rbg_ObjectMeta g))}"
  by (cases x; cases y) (auto simp: owner_requests_def)

lemma meta_events_image: "meta_events kind meta m m' =
  (\<lambda>k. \<lparr>evt_Kind = kind, evt_Old = map_option meta (m k), evt_New = map_option meta (m' k)\<rparr>) ` {k. m k \<noteq> m' k}"
  by (auto simp: meta_events_def)

lemma woken_groups:
  "(\<Union>e \<in> meta_events KindRBG rbg_ObjectMeta (cl_rbgs c) (cl_rbgs c'). set (owner_requests e)) =
   {k. \<exists>j g. cl_rbgs c j \<noteq> cl_rbgs c' j \<and> (cl_rbgs c j = Some g \<or> cl_rbgs c' j = Some g) \<and>
      k \<in> set (getOwnerReconcileRequest ''pdai.pdai.io'' ''PDInferenceService'' [''v1alpha1''] (rbg_ObjectMeta g))}"
  unfolding meta_events_image by (simp add: owner_requests_set) blast

lemma woken_services:
  assumes "keyed c" and "keyed c'"
  shows "(\<Union>e \<in> meta_events KindPDIS pd_ObjectMeta (cl_pdis c) (cl_pdis c'). set (for_requests e)) =
    {k. cl_pdis c k \<noteq> cl_pdis c' k}"
proof -
  have "set (for_requests \<lparr>evt_Kind = KindPDIS, evt_Old = map_option pd_ObjectMeta (cl_pdis c k),
      evt_New = map_option pd_ObjectMeta (cl_pdis c' k)\<rparr>) = {k}" if "cl_pdis c k \<noteq> cl_pdis c' k" for k
    using that assms by (cases "cl_pdis c k"; cases "cl_pdis c' k") (auto simp: for_requests_def keyed_def)
  then show ?thesis by (auto simp: meta_events_def)
qed

text \<open>
  C35: What wakes the controller for a service is exactly a change of the service itself or of
  a group whose controller reference, before or after the change, has kind
  \<^verbatim>\<open>PDInferenceService\<close>, the program's group at the served version (or none, or the internal
  one), and the name of the service, in its namespace. No change of a profile wakes anything, although every merged
  configuration depends on one.
\<close>

theorem woken_iff:
  assumes "keyed c" and "keyed c'"
  shows "k \<in> woken c c' \<longleftrightarrow> cl_pdis c k \<noteq> cl_pdis c' k \<or>
    (\<exists>j g ref. cl_rbgs c j \<noteq> cl_rbgs c' j \<and> (cl_rbgs c j = Some g \<or> cl_rbgs c' j = Some g) \<and>
       GetControllerOf (om_OwnerReferences (rbg_ObjectMeta g)) = Some ref \<and>
       or_Kind ref = ''PDInferenceService'' \<and>
       (\<exists>v \<in> {''v1alpha1'', '''', ''__internal''}. ParseGroupVersion (or_APIVersion ref) = Inr (''pdai.pdai.io'', v)) \<and>
       k = mk_key (rbg_Namespace g) (or_Name ref))"
proof -
  have "k \<in> set (getOwnerReconcileRequest ''pdai.pdai.io'' ''PDInferenceService'' [''v1alpha1''] (rbg_ObjectMeta g)) \<longleftrightarrow>
      (\<exists>ref. GetControllerOf (om_OwnerReferences (rbg_ObjectMeta g)) = Some ref \<and>
         or_Kind ref = ''PDInferenceService'' \<and>
         (\<exists>v \<in> {''v1alpha1'', '''', ''__internal''}. ParseGroupVersion (or_APIVersion ref) = Inr (''pdai.pdai.io'', v)) \<and>
         k = mk_key (rbg_Namespace g) (or_Name ref))" for g
  proof (cases "GetControllerOf (om_OwnerReferences (rbg_ObjectMeta g))")
    case (Some ref)
    then show ?thesis
      by (cases "ParseGroupVersion (or_APIVersion ref)") (auto simp: getOwnerReconcileRequest_def RESTMappings_def)
  qed (simp add: getOwnerReconcileRequest_def)
  then show ?thesis
    unfolding woken_union woken_services [OF assms] woken_groups by simp
qed

theorem woken_iff_witness:
  "\<forall>k f. k \<notin> woken no_objects (no_objects\<lparr>cl_profiles := [mk_key ''default'' ''p'' \<mapsto> f]\<rparr>)"
proof (intro allI)
  fix k f
  have "keyed no_objects" "keyed (no_objects\<lparr>cl_profiles := [mk_key ''default'' ''p'' \<mapsto> f]\<rparr>)"
    by (simp_all add: keyed_def no_objects_def)
  from woken_iff [OF this, of k]
  show "k \<notin> woken no_objects (no_objects\<lparr>cl_profiles := [mk_key ''default'' ''p'' \<mapsto> f]\<rparr>)"
    by (simp add: no_objects_def)
qed

subsection \<open>When a request is dropped\<close>

definition profile_failed :: "PDInferenceService \<Rightarrow> bool" where
  "profile_failed p \<longleftrightarrow> st_Phase (pd_Status p) = PhaseFailed \<and>
     (\<exists>m. st_LastEvent (pd_Status p) = Some \<lparr>evr_Reason = ''ProfileResolveFailed'', evr_Message = m\<rparr>)"

lemma syncStatus_requeues:
  "run_state (syncStatus cl p) s = ((res, None), s') \<Longrightarrow> res = \<lparr>res_RequeueAfter = 10 * Second\<rparr>"
  by (auto simp: syncStatus_def writeStatus_def split: prod.splits sum.splits if_splits)

lemma not_requeued_iff: "\<not> requeued out \<longleftrightarrow> (\<exists>res. out = Returns (res, None) \<and> \<not> res_RequeueAfter res > 0)"
  unfolding requeued_def by (cases out) (auto split: option.splits)

context kube_writer
begin

lemma handleDeletion_marked:
  assumes "run_state (handleDeletion api p) s = ((res, None), s')"
    and "cl_pdis (cluster s) (pdis_key p) = Some p" and "cl_pdis (cluster s') (pdis_key p) = Some q"
    and "\<not> Time_IsZero (om_DeletionTimestamp (pd_ObjectMeta p))"
  shows "\<not> Time_IsZero (om_DeletionTimestamp (pd_ObjectMeta q))"
proof (cases "finalizer \<in> set (pd_Finalizers p)")
  case False
  with assms show ?thesis by (auto simp: handleDeletion_def)
next
  case True
  let ?p = "with_finalizers p (RemoveFinalizer (pd_Finalizers p) finalizer)"
  from assms(1) True obtain q' where u: "run_state (Update_PDIS api ?p) s = (Inr q', s')"
    by (auto simp: handleDeletion_def split: prod.splits sum.splits)
  show ?thesis
  proof (cases "gone_after_update (pd_ObjectMeta ?p)")
    case gone: True
    with update_pdis_gone [OF u gone] assms(3) show ?thesis by simp
  next
    case stays: False
    from update_pdis_ok [OF u stays] assms(3,4) show ?thesis by (auto simp: same_object_meta_def)
  qed
qed

lemma Reconcile_dropped:
  assumes "run_state (Reconcile pq api k) s = (out, s')" and "\<not> requeued out"
    and "cl_pdis (cluster s') k = Some q" and "Time_IsZero (om_DeletionTimestamp (pd_ObjectMeta q))"
  shows "profile_failed q"
proof -
  obtain res where out: "out = Returns (res, None)" and res: "\<not> res_RequeueAfter res > 0"
    using assms(2) not_requeued_iff by blast
  from assms(1) [unfolded out] show ?thesis
  proof (cases rule: Reconcile_cases)
    case (unread e)
    then have "IsNotFound e" by (auto simp: IgnoreNotFound_def split: if_splits)
    with get_pdis_missing [OF unread(1)] get_pdis_frame [OF unread(1)] assms(3) show ?thesis by simp
  next
    case (deleting p s1 r)
    with get_pdis_found [OF deleting(1)] get_pdis_frame [OF deleting(1)] handleDeletion_marked [of p s1 res s' q]
      assms(3,4) show ?thesis by simp
  next
    case (live p s1 p' s2)
    from get_pdis_found [OF live(1)] get_pdis_frame [OF live(1)]
    have p: "cl_pdis (cluster s1) (pdis_key p) = Some p" "pdis_key p = k" by simp_all
    note fin = ensureFinalizer_ok [OF live(3) p(1) live(2)]
    from live(4) show ?thesis
    proof (cases rule: reconcileLive_cases)
      case (failed e s3 r)
      have "cl_pdis (cluster s2) (pdis_key p') = Some p'" "\<not> gone_after_update (pd_ObjectMeta p')"
        using fin(1,3,4) by (simp_all add: gone_after_update_def)
      from reconcileLive_failed [OF live(4) failed(1) this] assms(3) fin(3) p(2) show ?thesis
        by (auto simp: profile_failed_def)
    next
      case (applied cfg s3 g r)
      then have r: "run_state (applyAndSync api p' g) s3 = ((res, None), s')" by simp
      from r have "res = \<lparr>res_RequeueAfter = 10 * Second\<rparr>"
        by (cases rule: applyAndSync_cases) (auto dest: syncStatus_requeues)
      with res show ?thesis by (simp add: Second_def)
    qed simp
  qed simp
qed

text \<open>A group the controller created wakes the controller when it changes or goes away.\<close>

lemma created_group_wakes:
  assumes "run_state (Reconcile pq api k) s = (Returns (res, None), s')" and "res \<noteq> no_requeue"
    and "cl_rbgs (cluster s) k = None" and "cl_rbgs c k \<noteq> cl_rbgs (cluster s') k"
  shows "k \<in> woken (cluster s') c"
proof -
  have "rbg_settled (cluster s) k" using assms(3) by (simp add: rbg_settled_def)
  from Reconcile_group [OF assms(1,2) this] obtain q cfg d g where
    b: "Build pq q cfg = Returns (Inr d)" "pdis_key q = k" "cl_rbgs (cluster s') k = Some g"
    and a: "applied_to (cl_rbgs (cluster s) k) d g" by metis
  from b(1) have d: "rbg_ObjectMeta d = empty_ObjectMeta
      \<lparr>om_Name := pd_Name q, om_Namespace := pd_Namespace q, om_OwnerReferences := [ownerRef q]\<rparr>"
    by (auto simp: Build_returns_iff)
  from a assms(3) have "same_identity (rbg_ObjectMeta d) (rbg_ObjectMeta g)" by (simp add: applied_to_def)
  with d have "om_OwnerReferences (rbg_ObjectMeta g) = [ownerRef q]" "rbg_Namespace g = pd_Namespace q"
    by (simp_all add: same_identity_def)
  from woken_owner [OF b(3) _ this, of c] assms(4) b(2,3) show ?thesis by simp
qed

text \<open>The invariant of the queue.\<close>

lemma queue_invariant:
  assumes "\<And>s. keyed (cluster s)" and "reachable pq api cluster (s, q)"
    and "cl_pdis (cluster s) k = Some p" and "Time_IsZero (om_DeletionTimestamp (pd_ObjectMeta p))"
  shows "k \<in> q \<or> profile_failed p"
  using assms(2-4)
proof (induction "(s, q)" arbitrary: s q p rule: reachable.induct)
  case (start s)
  have "keyed no_objects" by (simp add: keyed_def no_objects_def)
  with woken_service [of no_objects "cluster s" k] assms(1) start show ?case by (simp add: no_objects_def)
next
  case (step x)
  obtain s0 q0 where x: "x = (s0, q0)" by force
  from step.hyps(3) [unfolded x] show ?case
  proof cases
    case outside
    show ?thesis
    proof (cases "cl_pdis (cluster s0) k = Some p")
      case True
      with step.hyps(2) [OF x] step.prems outside show ?thesis by blast
    next
      case False
      with woken_service [of "cluster s0" "cluster s" k] assms(1) step.prems(1) outside show ?thesis by auto
    qed
  next
    case (work j out)
    show ?thesis
    proof (cases "cl_pdis (cluster s0) k = Some p")
      case False
      with woken_service [of "cluster s0" "cluster s" k] assms(1) step.prems(1) work show ?thesis by auto
    next
      case True
      with step.hyps(2) [OF x True step.prems(2)] work Reconcile_dropped [of pq j s0 out s p] step.prems
      show ?thesis by auto
    qed
  qed
qed

end

end
