(* ===== verification/Container_Heap.thy ===== *)
theory Container_Heap
  imports Go_Prelude
begin

section \<open>The binary heaps of Go's \<^verbatim>\<open>container/heap\<close>\<close>

text \<open>
  The delaying queue of client-go keeps its entries in a heap of the standard library. The
  library works on anything with the methods \<^verbatim>\<open>Len\<close>, \<^verbatim>\<open>Less\<close>, \<^verbatim>\<open>Swap\<close>, \<^verbatim>\<open>Push\<close> and \<^verbatim>\<open>Pop\<close>
  (\<^verbatim>\<open>heap.Interface\<close>), so its routines take those methods as arguments here, and what they
  promise is proved in a locale over the laws a sound implementation of the methods keeps. The
  loops \<^verbatim>\<open>up\<close> and \<^verbatim>\<open>down\<close> are recursive functions with a termination proof.
\<close>

subsection \<open>The routines\<close>

function heap_up :: "('s \<Rightarrow> nat \<Rightarrow> nat \<Rightarrow> bool) \<Rightarrow> (nat \<Rightarrow> nat \<Rightarrow> 's \<Rightarrow> 's) \<Rightarrow> nat \<Rightarrow> 's \<Rightarrow> 's" where
  "heap_up Less Swap j h =
     (let i = (j - 1) div 2 in
      if i = j \<or> \<not> Less h j i then h else heap_up Less Swap i (Swap i j h))"
  by pat_completeness auto

termination heap_up
  by (relation "measure (\<lambda>(_, _, j, _). j)") auto

text \<open>\<^verbatim>\<open>down\<close> answers the index at which the element came to rest.\<close>

function heap_down :: "('s \<Rightarrow> nat \<Rightarrow> nat \<Rightarrow> bool) \<Rightarrow> (nat \<Rightarrow> nat \<Rightarrow> 's \<Rightarrow> 's) \<Rightarrow> nat \<Rightarrow> nat \<Rightarrow> 's \<Rightarrow> nat \<times> 's" where
  "heap_down Less Swap i n h =
     (let j1 = 2 * i + 1 in
      if j1 \<ge> n then (i, h)
      else let j = (if j1 + 1 < n \<and> Less h (j1 + 1) j1 then j1 + 1 else j1) in
        if \<not> Less h j i then (i, h) else heap_down Less Swap j n (Swap i j h))"
  by pat_completeness auto

termination heap_down
  by (relation "measure (\<lambda>(_, _, i, n, _). n - i)") (auto simp: Let_def split: if_splits)

declare heap_up.simps [simp del] heap_down.simps [simp del]

definition heap_Push :: "('s \<Rightarrow> nat) \<Rightarrow> ('s \<Rightarrow> nat \<Rightarrow> nat \<Rightarrow> bool) \<Rightarrow> (nat \<Rightarrow> nat \<Rightarrow> 's \<Rightarrow> 's) \<Rightarrow>
    ('x \<Rightarrow> 's \<Rightarrow> 's) \<Rightarrow> 'x \<Rightarrow> 's \<Rightarrow> 's" where
  "heap_Push Len Less Swap Push x h = (let h = Push x h in heap_up Less Swap (Len h - 1) h)"

definition heap_Pop :: "('s \<Rightarrow> nat) \<Rightarrow> ('s \<Rightarrow> nat \<Rightarrow> nat \<Rightarrow> bool) \<Rightarrow> (nat \<Rightarrow> nat \<Rightarrow> 's \<Rightarrow> 's) \<Rightarrow>
    ('s \<Rightarrow> 'x \<times> 's) \<Rightarrow> 's \<Rightarrow> 'x \<times> 's" where
  "heap_Pop Len Less Swap Pop h =
     (let n = Len h - 1 in Pop (snd (heap_down Less Swap 0 n (Swap 0 n h))))"

definition heap_Fix :: "('s \<Rightarrow> nat) \<Rightarrow> ('s \<Rightarrow> nat \<Rightarrow> nat \<Rightarrow> bool) \<Rightarrow> (nat \<Rightarrow> nat \<Rightarrow> 's \<Rightarrow> 's) \<Rightarrow>
    nat \<Rightarrow> 's \<Rightarrow> 's" where
  "heap_Fix Len Less Swap i h =
     (let r = heap_down Less Swap i (Len h) h in
      if fst r > i then snd r else heap_up Less Swap i (snd r))"

subsection \<open>Order in a list of heap slots\<close>

text \<open>The edge into slot \<open>c\<close>, from its parent; slot 0 has itself as parent.\<close>

definition edge_ok :: "('x \<Rightarrow> 'k::linorder) \<Rightarrow> 'x list \<Rightarrow> nat \<Rightarrow> bool" where
  "edge_ok r xs c \<longleftrightarrow> r (xs ! ((c - 1) div 2)) \<le> r (xs ! c)"

definition heap_ordered :: "('x \<Rightarrow> 'k::linorder) \<Rightarrow> 'x list \<Rightarrow> bool" where
  "heap_ordered r xs \<longleftrightarrow> (\<forall>c < length xs. edge_ok r xs c)"

text \<open>All edges but the one into \<open>j\<close>, and the children of \<open>j\<close> are above its parent.\<close>

definition up_ordered :: "('x \<Rightarrow> 'k::linorder) \<Rightarrow> 'x list \<Rightarrow> nat \<Rightarrow> bool" where
  "up_ordered r xs j \<longleftrightarrow> (\<forall>c < length xs. c \<noteq> j \<longrightarrow> edge_ok r xs c) \<and>
     (\<forall>c < length xs. 0 < c \<and> (c - 1) div 2 = j \<longrightarrow> r (xs ! ((j - 1) div 2)) \<le> r (xs ! c))"

text \<open>All edges below \<open>n\<close> but those out of \<open>i\<close>, whose ends are above the parent of \<open>i\<close>.\<close>

definition down_ordered :: "('x \<Rightarrow> 'k::linorder) \<Rightarrow> 'x list \<Rightarrow> nat \<Rightarrow> nat \<Rightarrow> bool" where
  "down_ordered r xs i n \<longleftrightarrow> (\<forall>c < n. (c - 1) div 2 \<noteq> i \<longrightarrow> edge_ok r xs c) \<and>
     (\<forall>c < n. 0 < i \<and> (c - 1) div 2 = i \<longrightarrow> r (xs ! ((i - 1) div 2)) \<le> r (xs ! c))"

abbreviation swap_at :: "nat \<Rightarrow> nat \<Rightarrow> 'x list \<Rightarrow> 'x list" where
  "swap_at i j xs \<equiv> xs[i := xs ! j, j := xs ! i]"

lemma heap_root_min:
  assumes "heap_ordered r xs" and "x \<in> set xs"
  shows "r (xs ! 0) \<le> r x"
proof -
  have "c < length xs \<Longrightarrow> r (xs ! 0) \<le> r (xs ! c)" for c
  proof (induction c rule: less_induct)
    case (less c)
    show ?case
    proof (cases "c = 0")
      case False
      then have "r (xs ! 0) \<le> r (xs ! ((c - 1) div 2))" using less by simp
      with assms(1) less.prems show ?thesis
        by (metis heap_ordered_def edge_ok_def order_trans)
    qed simp
  qed
  with assms(2) show ?thesis by (metis in_set_conv_nth)
qed

lemma up_swap:
  assumes "up_ordered r xs j" and "j < length xs" and "(j - 1) div 2 = i" and "i \<noteq> j"
    and "r (xs ! j) < r (xs ! i)"
  shows "up_ordered r (swap_at i j xs) i"
  unfolding up_ordered_def
proof (intro conjI allI impI)
  have i: "i < j" "i < length xs" using assms by auto
  fix c assume c: "c < length (swap_at i j xs)" "c \<noteq> i"
  show "edge_ok r (swap_at i j xs) c"
  proof (cases "c = j")
    case True
    with assms i show ?thesis by (simp add: edge_ok_def)
  next
    case False
    have e: "edge_ok r xs c" using assms(1) c False by (simp add: up_ordered_def)
    have b: "(c - 1) div 2 = j \<Longrightarrow> r (xs ! i) \<le> r (xs ! c)"
      using assms(1,3,4) c by (cases "c = 0") (auto simp: up_ordered_def)
    from e b c False i assms show ?thesis
      by (auto simp: edge_ok_def nth_list_update)
  qed
next
  have i: "i < j" "i < length xs" using assms by auto
  fix c assume c: "c < length (swap_at i j xs)" "0 < c \<and> (c - 1) div 2 = i"
  then have ci: "c \<noteq> i" by auto
  show "r (swap_at i j xs ! ((i - 1) div 2)) \<le> r (swap_at i j xs ! c)"
  proof (cases "i = 0")
    case True
    then have "c = j \<Longrightarrow> ?thesis" using i assms by simp
    moreover have "c \<noteq> j \<Longrightarrow> ?thesis"
    proof -
      assume "c \<noteq> j"
      then have "edge_ok r xs c" using assms(1) c by (simp add: up_ordered_def)
      with c True \<open>c \<noteq> j\<close> ci i assms show ?thesis by (auto simp: edge_ok_def)
    qed
    ultimately show ?thesis by blast
  next
    case False
    have p: "(i - 1) div 2 \<noteq> i" "(i - 1) div 2 \<noteq> j" using False i by auto
    have ei: "r (xs ! ((i - 1) div 2)) \<le> r (xs ! i)"
      using assms(1) i by (auto simp: up_ordered_def edge_ok_def)
    show ?thesis
    proof (cases "c = j")
      case True
      with p ei i assms show ?thesis by simp
    next
      case False
      then have "r (xs ! i) \<le> r (xs ! c)" using assms(1) c by (auto simp: up_ordered_def edge_ok_def)
      with p ei ci False i assms show ?thesis by simp
    qed
  qed
qed

lemma up_done: "up_ordered r xs j \<Longrightarrow> edge_ok r xs j \<Longrightarrow> heap_ordered r xs"
  by (auto simp: up_ordered_def heap_ordered_def)

text \<open>Making the rank of one slot smaller breaks at most the edge into it.\<close>

lemma up_ordered_smaller:
  assumes "heap_ordered r xs" and "distinct xs" and "i < length xs" and "t \<le> r (xs ! i)"
  shows "up_ordered (r(xs ! i := t)) xs i"
  unfolding up_ordered_def
proof (intro conjI allI impI)
  have e: "r (xs ! ((c - 1) div 2)) \<le> r (xs ! c)" if "c < length xs" for c
    using assms(1) that by (simp add: heap_ordered_def edge_ok_def)
  have le: "(r(xs ! i := t)) x \<le> r x" for x using assms(4) by simp
  fix c assume c: "c < length xs"
  {
    assume "c \<noteq> i"
    then have "(r(xs ! i := t)) (xs ! c) = r (xs ! c)" using assms(2,3) c by (simp add: nth_eq_iff_index_eq)
    with e [OF c] le show "edge_ok (r(xs ! i := t)) xs c" by (metis edge_ok_def order_trans)
  next
    assume p: "0 < c \<and> (c - 1) div 2 = i"
    then have "c \<noteq> i" by auto
    then have "(r(xs ! i := t)) (xs ! c) = r (xs ! c)" using assms(2,3) c by (simp add: nth_eq_iff_index_eq)
    with e [OF c] e [OF assms(3)] le p
    show "(r(xs ! i := t)) (xs ! ((i - 1) div 2)) \<le> (r(xs ! i := t)) (xs ! c)" by (metis order_trans)
  }
qed

lemma down_swap:
  assumes "down_ordered r xs i n" and "n \<le> length xs" and "j < n" and "0 < j" and "(j - 1) div 2 = i"
    and min: "\<And>c. c < n \<Longrightarrow> 0 < c \<Longrightarrow> (c - 1) div 2 = i \<Longrightarrow> r (xs ! j) \<le> r (xs ! c)"
    and less: "r (xs ! j) < r (xs ! i)"
  shows "down_ordered r (swap_at i j xs) j n"
  unfolding down_ordered_def
proof (intro conjI allI impI)
  have i: "i < j" "i < length xs" "j < length xs" using assms by auto
  fix c assume c: "c < n" "(c - 1) div 2 \<noteq> j"
  show "edge_ok r (swap_at i j xs) c"
  proof (cases "(c - 1) div 2 = i")
    case True
    show ?thesis
    proof (cases "c = j")
      case True
      then have "r (swap_at i j xs ! ((c - 1) div 2)) = r (xs ! j)" "r (swap_at i j xs ! c) = r (xs ! i)"
        using i unfolding \<open>(c - 1) div 2 = i\<close> by simp_all
      with less show ?thesis by (simp add: edge_ok_def)
    next
      case False
      show ?thesis
      proof (cases "c = 0")
        case False
        then have "c \<noteq> i" using True by auto
        then have "r (swap_at i j xs ! ((c - 1) div 2)) = r (xs ! j)" "r (swap_at i j xs ! c) = r (xs ! c)"
          using i \<open>c \<noteq> j\<close> unfolding \<open>(c - 1) div 2 = i\<close> by simp_all
        with min [OF c(1) _ True] False show ?thesis by (simp add: edge_ok_def)
      qed (simp add: edge_ok_def)
    qed
  next
    case False
    then have e: "edge_ok r xs c" using assms(1) c by (simp add: down_ordered_def)
    have cj: "c \<noteq> j" using False assms(5) by auto
    show ?thesis
    proof (cases "c = i")
      case True
      then have "0 < i" using False by (cases i) auto
      then have "r (xs ! ((i - 1) div 2)) \<le> r (xs ! j)" using assms(1,3,5) by (auto simp: down_ordered_def)
      with True False c i show ?thesis by (simp add: edge_ok_def)
    next
      case False
      with e cj c \<open>(c - 1) div 2 \<noteq> i\<close> i assms(2) show ?thesis by (simp add: edge_ok_def)
    qed
  qed
next
  have i: "i < j" "i < length xs" "j < length xs" using assms by auto
  fix c assume c: "c < n" "0 < j \<and> (c - 1) div 2 = j"
  then have "edge_ok r xs c" using assms(1) i by (simp add: down_ordered_def)
  moreover have "c \<noteq> i" "c \<noteq> j" using c i by auto
  ultimately show "r (swap_at i j xs ! ((j - 1) div 2)) \<le> r (swap_at i j xs ! c)"
    using c i assms(5) by (simp add: edge_ok_def)
qed

lemma down_done:
  assumes "down_ordered r xs i n" and "n \<le> length xs"
    and "\<And>c. c < n \<Longrightarrow> 0 < c \<Longrightarrow> (c - 1) div 2 = i \<Longrightarrow> r (xs ! i) \<le> r (xs ! c)"
  shows "\<forall>c < n. edge_ok r xs c"
proof (intro allI impI)
  fix c assume "c < n"
  then show "edge_ok r xs c"
    using assms(1) assms(3) [of c] by (cases "c = 0"; cases "(c - 1) div 2 = i") (auto simp: down_ordered_def edge_ok_def)
qed

lemma children_cases:
  assumes "0 < c" and "(c - 1) div 2 = (i::nat)"
  obtains "c = 2 * i + 1" | "c = 2 * i + 2"
proof -
  have "c = 2 * i + 1 \<or> c = 2 * i + 2" using assms by presburger
  then show thesis using that by blast
qed

subsection \<open>The interface \<^verbatim>\<open>heap.Interface\<close> and what the routines promise\<close>

text \<open>
  The slots of the heap as a list, the rank \<^verbatim>\<open>Less\<close> compares, an invariant of the
  implementation under which the methods behave, and a view of the state that no method
  changes.
\<close>

locale heap_interface =
  fixes Len :: "'s \<Rightarrow> nat" and Less :: "'s \<Rightarrow> nat \<Rightarrow> nat \<Rightarrow> bool" and Swap :: "nat \<Rightarrow> nat \<Rightarrow> 's \<Rightarrow> 's"
    and Push :: "'x \<Rightarrow> 's \<Rightarrow> 's" and Pop :: "'s \<Rightarrow> 'x \<times> 's"
    and slots :: "'s \<Rightarrow> 'x list" and rank :: "'s \<Rightarrow> 'x \<Rightarrow> 'k::linorder" and ok :: "'s \<Rightarrow> bool"
    and pushable :: "'x \<Rightarrow> 's \<Rightarrow> bool" and view :: "'s \<Rightarrow> 'v"
  assumes Len_slots: "Len h = length (slots h)"
    and Less_rank: "i < length (slots h) \<Longrightarrow> j < length (slots h) \<Longrightarrow>
      Less h i j \<longleftrightarrow> rank h (slots h ! i) < rank h (slots h ! j)"
    and Swap_slots: "i < length (slots h) \<Longrightarrow> j < length (slots h) \<Longrightarrow> slots (Swap i j h) = swap_at i j (slots h)"
    and Swap_rank: "rank (Swap i j h) = rank h"
    and Swap_ok: "ok h \<Longrightarrow> i < length (slots h) \<Longrightarrow> j < length (slots h) \<Longrightarrow> ok (Swap i j h)"
    and Push_slots: "slots (Push x h) = slots h @ [x]"
    and Push_rank: "rank (Push x h) = rank h"
    and Push_ok: "ok h \<Longrightarrow> pushable x h \<Longrightarrow> ok (Push x h)"
    and Pop_slots: "slots h \<noteq> [] \<Longrightarrow> slots (snd (Pop h)) = butlast (slots h)"
    and Pop_last: "slots h \<noteq> [] \<Longrightarrow> fst (Pop h) = last (slots h)"
    and Pop_rank: "rank (snd (Pop h)) = rank h"
    and view: "view (Swap i j h) = view h" "view (Push x h) = view h" "view (snd (Pop h)) = view h"
    and Pop_ok: "ok h \<Longrightarrow> slots h \<noteq> [] \<Longrightarrow> ok (snd (Pop h))"
begin

abbreviation heap :: "'s \<Rightarrow> bool" where
  "heap h \<equiv> heap_ordered (rank h) (slots h)"

lemma Swap_mset:
  "i < length (slots h) \<Longrightarrow> j < length (slots h) \<Longrightarrow> mset (slots (Swap i j h)) = mset (slots h)"
  by (simp add: Swap_slots mset_swap)

lemma up_heap:
  assumes "ok h" and "j < length (slots h)" and "up_ordered (rank h) (slots h) j"
  shows "heap_ordered (rank h) (slots (heap_up Less Swap j h)) \<and> ok (heap_up Less Swap j h) \<and>
    mset (slots (heap_up Less Swap j h)) = mset (slots h) \<and> rank (heap_up Less Swap j h) = rank h"
  using assms
proof (induction j arbitrary: h rule: less_induct)
  case (less j)
  let ?i = "(j - 1) div 2"
  have il: "?i < length (slots h)" using less.prems(2) by simp
  show ?case
  proof (cases "?i = j \<or> \<not> Less h j ?i")
    case True
    then have "j = 0 \<or> \<not> Less h j ?i" by auto
    then have "edge_ok (rank h) (slots h) j"
      using less.prems(2) il by (auto simp: edge_ok_def Less_rank)
    moreover have "heap_up Less Swap j h = h"
      using True by (subst heap_up.simps) (simp add: Let_def)
    ultimately show ?thesis using less.prems up_done by simp
  next
    case False
    let ?h = "Swap ?i j h"
    have "rank h (slots h ! j) < rank h (slots h ! ?i)" using False less.prems(2) il by (simp add: Less_rank)
    then have u: "up_ordered (rank ?h) (slots ?h) ?i"
      using up_swap [OF less.prems(3,2) refl] False less.prems(2) il by (simp add: Swap_slots Swap_rank)
    have "heap_up Less Swap j h = heap_up Less Swap ?i ?h"
      using False by (subst heap_up.simps) (simp add: Let_def)
    moreover have "?i < j" using False by auto
    note less.IH [OF this Swap_ok [OF less.prems(1) il less.prems(2)] _ u]
    ultimately show ?thesis using il less.prems(2) by (simp add: Swap_slots Swap_rank mset_swap)
  qed
qed

text \<open>
  \<^verbatim>\<open>down\<close> orders the slots below \<open>n\<close> and leaves those from \<open>n\<close> on alone.
\<close>

lemma down_heap:
  assumes "ok h" and "n \<le> length (slots h)" and "i < n" and "down_ordered (rank h) (slots h) i n"
    and "heap_down Less Swap i n h = (i', h')"
  shows "(\<forall>c < n. edge_ok (rank h) (slots h') c) \<and> ok h' \<and> mset (slots h') = mset (slots h) \<and>
    rank h' = rank h \<and> (\<forall>c < length (slots h). n \<le> c \<longrightarrow> slots h' ! c = slots h ! c)"
  using assms
proof (induction "n - i" arbitrary: i h rule: less_induct)
  case less
  let ?j1 = "2 * i + 1"
  let ?j = "if ?j1 + 1 < n \<and> Less h (?j1 + 1) ?j1 then ?j1 + 1 else ?j1"
  note eq = less.prems(5) [unfolded heap_down.simps [of _ _ i] Let_def]
  have min: "rank h (slots h ! ?j) \<le> rank h (slots h ! c)"
    if "?j1 < n" "c < n" "0 < c" "(c - 1) div 2 = i" for c
    using that less.prems(2) by (elim children_cases [of c i]) (auto simp: Less_rank)
  show ?case
  proof (cases "?j1 \<ge> n \<or> \<not> Less h ?j i")
    case True
    with eq have "h' = h" by (auto split: if_splits)
    moreover have "\<forall>c < n. edge_ok (rank h) (slots h) c"
    proof (rule down_done [OF less.prems(4,2)])
      fix c assume c: "c < n" "0 < c" "(c - 1) div 2 = i"
      then have "?j1 < n" by (elim children_cases [of c i]) auto
      with True min [OF _ c] less.prems(2,3) show "rank h (slots h ! i) \<le> rank h (slots h ! c)"
        by (auto simp: Less_rank split: if_splits)
    qed
    ultimately show ?thesis using less.prems by simp
  next
    case False
    let ?h = "Swap i ?j h"
    have j: "?j < n" "i < ?j" "(?j - 1) div 2 = i" "?j < length (slots h)" "i < length (slots h)"
      using False less.prems(2,3) by (auto split: if_splits)
    from False less.prems(2,3) j have less': "rank h (slots h ! ?j) < rank h (slots h ! i)"
      by (simp add: Less_rank del: One_nat_def split del: if_split)
    have "down_ordered (rank h) (swap_at i ?j (slots h)) ?j n"
      by (rule down_swap [OF less.prems(4,2) j(1) _ j(3) min less']) (use j False in simp_all)
    then have d: "down_ordered (rank ?h) (slots ?h) ?j n" using j by (simp only: Swap_slots Swap_rank)
    have "heap_down Less Swap ?j n ?h = (i', h')" using eq False by (simp split del: if_split)
    moreover have "n - ?j < n - i" "n \<le> length (slots ?h)" using j less.prems(2) by (simp_all add: Swap_slots split del: if_split)
    ultimately have "(\<forall>c < n. edge_ok (rank ?h) (slots h') c) \<and> ok h' \<and> mset (slots h') = mset (slots ?h) \<and>
        rank h' = rank ?h \<and> (\<forall>c < length (slots ?h). n \<le> c \<longrightarrow> slots h' ! c = slots ?h ! c)"
      using less.hyps [OF _ Swap_ok [OF less.prems(1) j(5,4)] _ j(1) d] by blast
    with j less.prems(2) show ?thesis by (simp add: Swap_slots Swap_rank mset_swap split del: if_split)
  qed
qed

lemma heap_Push_ok:
  assumes "ok h" and "pushable x h" and "heap h"
  shows "heap_ordered (rank h) (slots (heap_Push Len Less Swap Push x h)) \<and> ok (heap_Push Len Less Swap Push x h) \<and>
    mset (slots (heap_Push Len Less Swap Push x h)) = add_mset x (mset (slots h)) \<and>
    rank (heap_Push Len Less Swap Push x h) = rank h"
proof -
  let ?n = "length (slots h)"
  have "up_ordered (rank h) (slots h @ [x]) ?n"
    unfolding up_ordered_def
  proof (intro conjI allI impI)
    fix c assume "c < length (slots h @ [x])" "c \<noteq> ?n"
    then show "edge_ok (rank h) (slots h @ [x]) c"
      using assms(3) by (auto simp: heap_ordered_def edge_ok_def nth_append)
  next
    fix c assume "c < length (slots h @ [x])" "0 < c \<and> (c - 1) div 2 = ?n"
    then have False by auto
    then show "rank h ((slots h @ [x]) ! ((?n - 1) div 2)) \<le> rank h ((slots h @ [x]) ! c)" ..
  qed
  with up_heap [OF Push_ok [OF assms(1,2)], of ?n] show ?thesis
    by (simp add: heap_Push_def Len_slots Push_slots Push_rank)
qed

lemma heap_Pop_min:
  assumes "ok h" and "slots h \<noteq> []" and "heap h" and "heap_Pop Len Less Swap Pop h = (x, h')"
  shows "heap_ordered (rank h) (slots h') \<and> ok h' \<and> add_mset x (mset (slots h')) = mset (slots h) \<and> rank h' = rank h \<and>
    x = slots h ! 0"
proof -
  let ?n = "length (slots h) - 1"
  let ?s = "Swap 0 ?n h"
  obtain i1 h1 where d: "heap_down Less Swap 0 ?n ?s = (i1, h1)" by force
  have s: "slots ?s = swap_at 0 ?n (slots h)" "rank ?s = rank h" "ok ?s"
    using assms(1,2) by (simp_all add: Swap_slots Swap_rank Swap_ok)
  have h1: "(\<forall>c < ?n. edge_ok (rank ?s) (slots h1) c) \<and> ok h1 \<and> mset (slots h1) = mset (slots ?s) \<and>
    rank h1 = rank ?s \<and> (\<forall>c < length (slots ?s). ?n \<le> c \<longrightarrow> slots h1 ! c = slots ?s ! c)"
  proof (cases "?n = 0")
    case True
    then show ?thesis using d s by (subst (asm) heap_down.simps) simp
  next
    case False
    have "edge_ok (rank h) (swap_at 0 ?n (slots h)) c" if "c < ?n" "(c - 1) div 2 \<noteq> 0" for c
    proof -
      have "edge_ok (rank h) (slots h) c" using assms(3) that by (simp add: heap_ordered_def)
      moreover have "c \<noteq> 0" "(c - 1) div 2 \<noteq> ?n" using that by auto
      ultimately show ?thesis using that by (simp add: edge_ok_def)
    qed
    then have "down_ordered (rank ?s) (slots ?s) 0 ?n" unfolding down_ordered_def s by blast
    moreover have "?n \<le> length (slots ?s)" unfolding s by simp
    ultimately show ?thesis using down_heap [OF s(3) _ _ _ d] False by blast
  qed
  have l: "length (slots h1) = length (slots h)" using h1 s by (metis length_list_update size_mset)
  with assms(2) have ne: "slots h1 \<noteq> []" by auto
  have x: "x = slots h ! 0" and h': "h' = snd (Pop h1)"
    using assms(2,4) d h1 l ne Pop_last [of h1] s(1)
    by (auto simp: heap_Pop_def Len_slots last_conv_nth prod_eq_iff)
  have "mset (slots h1) = add_mset (last (slots h1)) (mset (butlast (slots h1)))"
    using ne by (metis append_butlast_last_id mset.simps(2) union_mset_add_mset_right mset_append mset.simps(1) add.right_neutral)
  moreover have "last (slots h1) = x" using x h1 l ne s assms(2) by (simp add: last_conv_nth)
  moreover have "heap_ordered (rank h) (butlast (slots h1))"
    using h1 l s by (auto simp: heap_ordered_def edge_ok_def nth_butlast)
  moreover have "mset (slots ?s) = mset (slots h)" using assms(2) by (simp add: Swap_mset)
  ultimately show ?thesis using x h1 s(2) ne unfolding h' by (simp add: Pop_slots Pop_rank Pop_ok)
qed

text \<open>\<^verbatim>\<open>Fix\<close> after the rank of slot \<open>i\<close> became smaller.\<close>

lemma heap_Fix_smaller:
  assumes "ok h" and "i < length (slots h)" and "up_ordered (rank h) (slots h) i"
  shows "heap_ordered (rank h) (slots (heap_Fix Len Less Swap i h)) \<and> ok (heap_Fix Len Less Swap i h) \<and>
    mset (slots (heap_Fix Len Less Swap i h)) = mset (slots h) \<and> rank (heap_Fix Len Less Swap i h) = rank h"
proof -
  have "rank h (slots h ! i) \<le> rank h (slots h ! c)" if "c < length (slots h)" "c = 2 * i + 1 \<or> c = 2 * i + 2" for c
  proof -
    have "(c - 1) div 2 = i" "c \<noteq> i" using that(2) by auto
    with assms(3) that(1) show ?thesis by (auto simp: up_ordered_def edge_ok_def)
  qed
  then have "heap_down Less Swap i (length (slots h)) h = (i, h)"
    using assms(2) by (subst heap_down.simps) (auto simp: Let_def Less_rank not_less)
  with up_heap [OF assms] show ?thesis by (simp add: heap_Fix_def Len_slots)
qed

lemma up_view: "view (heap_up Less Swap j h) = view h"
proof (induction j arbitrary: h rule: less_induct)
  case (less j)
  then show ?case by (subst heap_up.simps) (auto simp: Let_def view)
qed

lemma down_view: "view (snd (heap_down Less Swap i n h)) = view h"
proof (induction "n - i" arbitrary: i h rule: less_induct)
  case less
  then show ?case by (subst heap_down.simps) (auto simp: Let_def view)
qed

lemma heap_view:
  "view (heap_Push Len Less Swap Push x h) = view h"
  "view (snd (heap_Pop Len Less Swap Pop h)) = view h"
  "view (heap_Fix Len Less Swap i h) = view h"
  by (simp_all add: heap_Push_def heap_Pop_def heap_Fix_def Let_def up_view down_view view)

end

end
