(* ===== verification/Workqueue.thy ===== *)
theory Workqueue
  imports Container_Heap Quantities
begin

section \<open>The work queue of client-go\<close>

text \<open>
  The queue between the watches and the workers of a controller
  (\<^verbatim>\<open>vendor/k8s.io/client-go/util/workqueue\<close>): \<^verbatim>\<open>Typed\<close> (\<^verbatim>\<open>queue.go\<close>) hands each item to one
  worker at a time, \<^verbatim>\<open>delayingType\<close> (\<^verbatim>\<open>delaying_queue.go\<close>) adds items after a delay, with a
  channel and a heap of waiting entries, and \<^verbatim>\<open>rateLimitingType\<close> (\<^verbatim>\<open>rate_limiting_queue.go\<close>,
  \<^verbatim>\<open>default_rate_limiters.go\<close>) chooses the delay of an item that failed.

  Every method takes the lock of its queue, so each is one function on the state; a method
  that waits answers \<open>None\<close>. The clock and the reservation of the token bucket
  (\<^verbatim>\<open>rate.Limiter\<close>, whose time is floating point) are arguments. Signals and metrics are left
  out. Generic in the items, as in the source.
\<close>

subsection \<open>\<^verbatim>\<open>Typed\<close>\<close>

record 'k Typed =
  wq_queue :: "'k list"
  wq_dirty :: "'k set"
  wq_processing :: "'k set"
  wq_shuttingDown :: bool
  wq_drain :: bool

definition newQueue :: "'k Typed" where
  "newQueue = \<lparr>wq_queue = [], wq_dirty = {}, wq_processing = {}, wq_shuttingDown = False, wq_drain = False\<rparr>"

definition Typed_Add :: "'k \<Rightarrow> 'k Typed \<Rightarrow> 'k Typed" where
  "Typed_Add item q =
     (if wq_shuttingDown q then q
      else if item \<in> wq_dirty q then q
      else let q = q\<lparr>wq_dirty := insert item (wq_dirty q)\<rparr> in
        if item \<in> wq_processing q then q
        else q\<lparr>wq_queue := wq_queue q @ [item]\<rparr>)"

definition Typed_Len :: "'k Typed \<Rightarrow> nat" where
  "Typed_Len q = length (wq_queue q)"

text \<open>\<open>None\<close> while the caller waits; an answer without an item is \<^verbatim>\<open>shutdown\<close>.\<close>

definition Typed_Get :: "'k Typed \<Rightarrow> ('k option \<times> 'k Typed) option" where
  "Typed_Get q = (case wq_queue q of
     [] \<Rightarrow> if wq_shuttingDown q then Some (None, q) else None
   | item # rest \<Rightarrow> Some (Some item, q\<lparr>wq_queue := rest,
       wq_processing := insert item (wq_processing q), wq_dirty := wq_dirty q - {item}\<rparr>))"

definition Typed_Done :: "'k \<Rightarrow> 'k Typed \<Rightarrow> 'k Typed" where
  "Typed_Done item q =
     (let q = q\<lparr>wq_processing := wq_processing q - {item}\<rparr> in
      if item \<in> wq_dirty q then q\<lparr>wq_queue := wq_queue q @ [item]\<rparr> else q)"

definition Typed_ShutDown :: "'k Typed \<Rightarrow> 'k Typed" where
  "Typed_ShutDown q = q\<lparr>wq_drain := False, wq_shuttingDown := True\<rparr>"

subsection \<open>The heap of waiting entries\<close>

text \<open>
  Entries are passed by pointer: the map of known entries, the channel and the heap refer to
  the same objects. They live in a list of objects, and a pointer is a position in it.
\<close>

record 'k waitFor =
  wf_data :: 'k
  wf_readyAt :: Time
  wf_index :: int

record 'k waitForPriorityQueue =
  pq_objs :: "'k waitFor list"
  pq_slots :: "nat list"

definition pq_Len :: "'k waitForPriorityQueue \<Rightarrow> nat" where
  "pq_Len pq = length (pq_slots pq)"

abbreviation readyAt :: "'k waitForPriorityQueue \<Rightarrow> nat \<Rightarrow> Time" where
  "readyAt pq a \<equiv> wf_readyAt (pq_objs pq ! a)"

abbreviation entry_data :: "'k waitForPriorityQueue \<Rightarrow> nat \<Rightarrow> 'k" where
  "entry_data pq a \<equiv> wf_data (pq_objs pq ! a)"

definition pq_Less :: "'k waitForPriorityQueue \<Rightarrow> nat \<Rightarrow> nat \<Rightarrow> bool" where
  "pq_Less pq i j \<longleftrightarrow> readyAt pq (pq_slots pq ! i) < readyAt pq (pq_slots pq ! j)"

definition set_index :: "nat \<Rightarrow> int \<Rightarrow> 'k waitFor list \<Rightarrow> 'k waitFor list" where
  "set_index a n objs = objs[a := (objs ! a)\<lparr>wf_index := n\<rparr>]"

definition pq_Swap :: "nat \<Rightarrow> nat \<Rightarrow> 'k waitForPriorityQueue \<Rightarrow> 'k waitForPriorityQueue" where
  "pq_Swap i j pq =
     (let slots = swap_at i j (pq_slots pq) in
      \<lparr>pq_objs = set_index (slots ! j) (int j) (set_index (slots ! i) (int i) (pq_objs pq)), pq_slots = slots\<rparr>)"

definition pq_Push :: "nat \<Rightarrow> 'k waitForPriorityQueue \<Rightarrow> 'k waitForPriorityQueue" where
  "pq_Push a pq =
     \<lparr>pq_objs = set_index a (int (length (pq_slots pq))) (pq_objs pq), pq_slots = pq_slots pq @ [a]\<rparr>"

definition pq_Pop :: "'k waitForPriorityQueue \<Rightarrow> nat \<times> 'k waitForPriorityQueue" where
  "pq_Pop pq =
     (let n = length (pq_slots pq); a = pq_slots pq ! (n - 1) in
      (a, \<lparr>pq_objs = set_index a (- 1) (pq_objs pq), pq_slots = take (n - 1) (pq_slots pq)\<rparr>))"

definition pq_Peek :: "'k waitForPriorityQueue \<Rightarrow> nat" where
  "pq_Peek pq = pq_slots pq ! 0"

abbreviation heap_Push_pq :: "nat \<Rightarrow> 'k waitForPriorityQueue \<Rightarrow> 'k waitForPriorityQueue" where
  "heap_Push_pq \<equiv> heap_Push pq_Len pq_Less pq_Swap pq_Push"

abbreviation heap_Pop_pq :: "'k waitForPriorityQueue \<Rightarrow> nat \<times> 'k waitForPriorityQueue" where
  "heap_Pop_pq \<equiv> heap_Pop pq_Len pq_Less pq_Swap pq_Pop"

abbreviation heap_Fix_pq :: "nat \<Rightarrow> 'k waitForPriorityQueue \<Rightarrow> 'k waitForPriorityQueue" where
  "heap_Fix_pq \<equiv> heap_Fix pq_Len pq_Less pq_Swap"

subsection \<open>\<^verbatim>\<open>delayingType\<close>\<close>

record 'k delayingType =
  dt_TypedInterface :: "'k Typed"
  dt_stopped :: bool
  dt_waitingForAddCh :: "nat list"
  dt_waitingForQueue :: "'k waitForPriorityQueue"
  dt_waitingEntryByData :: "'k \<rightharpoonup> nat"

definition newDelayingQueue :: "'k delayingType" where
  "newDelayingQueue = \<lparr>dt_TypedInterface = newQueue, dt_stopped = False, dt_waitingForAddCh = [],
     dt_waitingForQueue = \<lparr>pq_objs = [], pq_slots = []\<rparr>, dt_waitingEntryByData = Map.empty\<rparr>"

abbreviation on_typed :: "('k Typed \<Rightarrow> 'k Typed) \<Rightarrow> 'k delayingType \<Rightarrow> 'k delayingType" where
  "on_typed f d \<equiv> d\<lparr>dt_TypedInterface := f (dt_TypedInterface d)\<rparr>"

definition delaying_ShutDown :: "'k delayingType \<Rightarrow> 'k delayingType" where
  "delaying_ShutDown d = (if dt_stopped d then d else (on_typed Typed_ShutDown d)\<lparr>dt_stopped := True\<rparr>)"

text \<open>The capacity of the channel.\<close>

definition waitingForAddCh_cap :: nat where
  "waitingForAddCh_cap = 1000"

text \<open>
  \<^verbatim>\<open>AddAfter\<close> holds no lock between its test for the shutdown and the rest. With \<open>late\<close> a shutdown in
  between is not seen by the test, and where the queue is stopped and the channel has room, so that \<^verbatim>\<open>select\<close>
  may take either, it sends; without \<open>late\<close> it does not. \<open>None\<close> while the caller waits for the channel.
\<close>

definition AddAfter :: "bool \<Rightarrow> Time \<Rightarrow> 'k \<Rightarrow> Duration \<Rightarrow> 'k delayingType \<Rightarrow> 'k delayingType option" where
  "AddAfter late now item duration d =
     (if wq_shuttingDown (dt_TypedInterface d) \<and> \<not> late then Some d
      else if duration \<le> 0 then Some (on_typed (Typed_Add item) d)
      else if length (dt_waitingForAddCh d) < waitingForAddCh_cap then
        (let pq = dt_waitingForQueue d;
             entry = \<lparr>wf_data = item, wf_readyAt = now + duration, wf_index = 0\<rparr> in
         Some (d\<lparr>dt_waitingForQueue := pq\<lparr>pq_objs := pq_objs pq @ [entry]\<rparr>,
           dt_waitingForAddCh := dt_waitingForAddCh d @ [length (pq_objs pq)]\<rparr>))
      else if dt_stopped d then Some d
      else None)"

definition wait_insert :: "nat \<Rightarrow> 'k delayingType \<Rightarrow> 'k delayingType" where
  "wait_insert entry d =
     (let pq = dt_waitingForQueue d in
      case dt_waitingEntryByData d (entry_data pq entry) of
        Some existing \<Rightarrow>
          if readyAt pq existing > readyAt pq entry then
            (let pq = pq\<lparr>pq_objs := (pq_objs pq)[existing := (pq_objs pq ! existing)\<lparr>wf_readyAt := readyAt pq entry\<rparr>]\<rparr> in
             d\<lparr>dt_waitingForQueue := heap_Fix_pq (nat (wf_index (pq_objs pq ! existing))) pq\<rparr>)
          else d
      | None \<Rightarrow> d\<lparr>dt_waitingForQueue := heap_Push_pq entry pq,
          dt_waitingEntryByData := (dt_waitingEntryByData d)(entry_data pq entry \<mapsto> entry)\<rparr>)"

text \<open>One entry received from the channel, in \<^verbatim>\<open>waitingLoop\<close>.\<close>

definition wait_receive :: "Time \<Rightarrow> 'k delayingType \<Rightarrow> 'k delayingType" where
  "wait_receive now d = (case dt_waitingForAddCh d of
     [] \<Rightarrow> d
   | entry # rest \<Rightarrow>
       let d = d\<lparr>dt_waitingForAddCh := rest\<rparr>; pq = dt_waitingForQueue d in
       if readyAt pq entry > now then wait_insert entry d
       else on_typed (Typed_Add (entry_data pq entry)) d)"

text \<open>The loop over the ready entries at the head of each turn of \<^verbatim>\<open>waitingLoop\<close>.\<close>

lemma pq_down_length: "length (pq_slots (snd (heap_down pq_Less pq_Swap i n pq))) = length (pq_slots pq)"
proof (induction "n - i" arbitrary: i pq rule: less_induct)
  case less
  have "length (pq_slots (pq_Swap i j pq)) = length (pq_slots pq)" for j by (simp add: pq_Swap_def Let_def)
  with less show ?case by (subst heap_down.simps) (auto simp: Let_def split: if_split)
qed

lemma heap_Pop_pq_length: "length (pq_slots (snd (heap_Pop_pq pq))) = length (pq_slots pq) - 1"
  by (simp add: heap_Pop_def pq_Pop_def Let_def pq_down_length pq_Swap_def)

function add_ready :: "Time \<Rightarrow> 'k delayingType \<Rightarrow> 'k delayingType" where
  "add_ready now d =
     (let pq = dt_waitingForQueue d in
      if pq_Len pq > 0 then
        (if readyAt pq (pq_Peek pq) > now then d
         else let r = heap_Pop_pq pq; item = entry_data (snd r) (fst r) in
           add_ready now (on_typed (Typed_Add item) (d\<lparr>dt_waitingForQueue := snd r,
             dt_waitingEntryByData := (dt_waitingEntryByData d)(item := None)\<rparr>)))
      else d)"
  by pat_completeness auto

termination add_ready
  by (relation "measure (\<lambda>(_, d). pq_Len (dt_waitingForQueue d))")
    (auto simp: pq_Len_def heap_Pop_pq_length [simplified])

declare add_ready.simps [simp del]

subsection \<open>Rate limiters\<close>

text \<open>
  The number of failures is a Go \<^verbatim>\<open>int\<close>. The back-off is computed in floating point, where the
  product of a base below \<open>2^53\<close> with a power of two is exact, and an infinite power compares like
  the huge number it stands for; so it is computed with integers here, rounding towards zero
  for the negative exponents of a wrapped counter.
\<close>

record 'k ItemExponentialFailureRateLimiter =
  el_failures :: "'k \<rightharpoonup> int"
  el_baseDelay :: Duration
  el_maxDelay :: Duration

definition failures_of :: "'k ItemExponentialFailureRateLimiter \<Rightarrow> 'k \<Rightarrow> int" where
  "failures_of r item = (case el_failures r item of None \<Rightarrow> 0 | Some n \<Rightarrow> n)"

definition float_MaxInt64 :: int where
  "float_MaxInt64 = 2 ^ 63"

definition exponential_When :: "'k \<Rightarrow> 'k ItemExponentialFailureRateLimiter \<Rightarrow>
    Duration \<times> 'k ItemExponentialFailureRateLimiter" where
  "exponential_When item r =
     (let exp = failures_of r item;
          r' = r\<lparr>el_failures := (el_failures r)(item \<mapsto> wrap64 (failures_of r item + 1))\<rparr>;
          backoff = (if exp \<ge> 0 then el_baseDelay r * 2 ^ nat exp else el_baseDelay r div 2 ^ nat (- exp)) in
      if backoff > float_MaxInt64 then (el_maxDelay r, r')
      else let calculated = wrap64 backoff in
        if calculated > el_maxDelay r then (el_maxDelay r, r') else (calculated, r'))"

definition exponential_Forget :: "'k \<Rightarrow> 'k ItemExponentialFailureRateLimiter \<Rightarrow> 'k ItemExponentialFailureRateLimiter" where
  "exponential_Forget item r = r\<lparr>el_failures := (el_failures r)(item := None)\<rparr>"

text \<open>The implementations of \<^verbatim>\<open>TypedRateLimiter\<close> in use; \<open>reserved\<close> is what the bucket answers.\<close>

datatype 'k TypedRateLimiter = ItemExponential "'k ItemExponentialFailureRateLimiter" | BucketRateLimiter

fun limiter_When :: "Duration \<Rightarrow> 'k \<Rightarrow> 'k TypedRateLimiter \<Rightarrow> Duration \<times> 'k TypedRateLimiter" where
  "limiter_When reserved item (ItemExponential r) =
     (let w = exponential_When item r in (fst w, ItemExponential (snd w)))"
| "limiter_When reserved item BucketRateLimiter = (reserved, BucketRateLimiter)"

fun limiter_Forget :: "'k \<Rightarrow> 'k TypedRateLimiter \<Rightarrow> 'k TypedRateLimiter" where
  "limiter_Forget item (ItemExponential r) = ItemExponential (exponential_Forget item r)"
| "limiter_Forget item BucketRateLimiter = BucketRateLimiter"

fun limiter_NumRequeues :: "'k \<Rightarrow> 'k TypedRateLimiter \<Rightarrow> int" where
  "limiter_NumRequeues item (ItemExponential r) = failures_of r item"
| "limiter_NumRequeues item BucketRateLimiter = 0"

text \<open>\<^verbatim>\<open>TypedMaxOfRateLimiter\<close>: the loop over the limiters, with the running maximum.\<close>

fun MaxOf_loop :: "Duration \<Rightarrow> 'k \<Rightarrow> Duration \<Rightarrow> 'k TypedRateLimiter list \<Rightarrow> Duration \<times> 'k TypedRateLimiter list" where
  "MaxOf_loop reserved item ret [] = (ret, [])"
| "MaxOf_loop reserved item ret (l # ls) =
     (let w = limiter_When reserved item l; curr = fst w;
          rest = MaxOf_loop reserved item (if curr > ret then curr else ret) ls in
      (fst rest, snd w # snd rest))"

definition MaxOf_When :: "Duration \<Rightarrow> 'k \<Rightarrow> 'k TypedRateLimiter list \<Rightarrow> Duration \<times> 'k TypedRateLimiter list" where
  "MaxOf_When reserved item ls = MaxOf_loop reserved item 0 ls"

definition MaxOf_Forget :: "'k \<Rightarrow> 'k TypedRateLimiter list \<Rightarrow> 'k TypedRateLimiter list" where
  "MaxOf_Forget item ls = map (limiter_Forget item) ls"

definition MaxOf_NumRequeues :: "'k \<Rightarrow> 'k TypedRateLimiter list \<Rightarrow> int" where
  "MaxOf_NumRequeues item ls =
     foldl (\<lambda>ret l. let curr = limiter_NumRequeues item l in if curr > ret then curr else ret) 0 ls"

definition Millisecond :: Duration where "Millisecond = 1000000"

definition DefaultTypedControllerRateLimiter :: "'k TypedRateLimiter list" where
  "DefaultTypedControllerRateLimiter =
     [ItemExponential \<lparr>el_failures = Map.empty, el_baseDelay = 5 * Millisecond, el_maxDelay = 1000 * Second\<rparr>,
      BucketRateLimiter]"

subsection \<open>\<^verbatim>\<open>rateLimitingType\<close>\<close>

record 'k rateLimitingType =
  rl_TypedDelayingInterface :: "'k delayingType"
  rl_rateLimiter :: "'k TypedRateLimiter list"

definition NewTypedRateLimitingQueue :: "'k rateLimitingType" where
  "NewTypedRateLimitingQueue = \<lparr>rl_TypedDelayingInterface = newDelayingQueue,
     rl_rateLimiter = DefaultTypedControllerRateLimiter\<rparr>"

definition AddRateLimited :: "bool \<Rightarrow> Time \<Rightarrow> Duration \<Rightarrow> 'k \<Rightarrow> 'k rateLimitingType \<Rightarrow> 'k rateLimitingType option" where
  "AddRateLimited late now reserved item q =
     (let w = MaxOf_When reserved item (rl_rateLimiter q) in
      map_option (\<lambda>d. \<lparr>rl_TypedDelayingInterface = d, rl_rateLimiter = snd w\<rparr>)
        (AddAfter late now item (fst w) (rl_TypedDelayingInterface q)))"

definition rateLimiting_Forget :: "'k \<Rightarrow> 'k rateLimitingType \<Rightarrow> 'k rateLimitingType" where
  "rateLimiting_Forget item q = q\<lparr>rl_rateLimiter := MaxOf_Forget item (rl_rateLimiter q)\<rparr>"

definition rateLimiting_NumRequeues :: "'k \<Rightarrow> 'k rateLimitingType \<Rightarrow> int" where
  "rateLimiting_NumRequeues item q = MaxOf_NumRequeues item (rl_rateLimiter q)"

section \<open>What the queue promises\<close>

subsection \<open>One worker for each item, and no lost additions\<close>

definition typed_inv :: "'k Typed \<Rightarrow> bool" where
  "typed_inv q \<longleftrightarrow> distinct (wq_queue q) \<and> set (wq_queue q) = wq_dirty q - wq_processing q"

lemma typed_inv_new [simp]: "typed_inv newQueue"
  by (simp add: typed_inv_def newQueue_def)

lemma typed_inv_Add [simp]: "typed_inv q \<Longrightarrow> typed_inv (Typed_Add item q)"
  by (auto simp: typed_inv_def Typed_Add_def Let_def)

lemma typed_inv_Get: "typed_inv q \<Longrightarrow> Typed_Get q = Some (r, q') \<Longrightarrow> typed_inv q'"
  by (auto simp: typed_inv_def Typed_Get_def split: list.splits if_splits)

lemma typed_inv_Done [simp]: "typed_inv q \<Longrightarrow> item \<in> wq_processing q \<Longrightarrow> typed_inv (Typed_Done item q)"
  by (auto simp: typed_inv_def Typed_Done_def Let_def)

lemma typed_inv_ShutDown [simp]: "typed_inv (Typed_ShutDown q) = typed_inv q"
  by (simp add: typed_inv_def Typed_ShutDown_def)

lemma Add_open [simp]:
  "\<not> wq_shuttingDown q \<Longrightarrow> wq_dirty (Typed_Add item q) = insert item (wq_dirty q)"
  by (auto simp: Typed_Add_def Let_def)

lemma Add_closed [simp]: "wq_shuttingDown q \<Longrightarrow> Typed_Add item q = q"
  by (simp add: Typed_Add_def)

lemma Add_keeps [simp]:
  "wq_processing (Typed_Add item q) = wq_processing q" "wq_shuttingDown (Typed_Add item q) = wq_shuttingDown q"
  by (simp_all add: Typed_Add_def Let_def)

lemma Add_grows: "wq_dirty q \<subseteq> wq_dirty (Typed_Add item q)"
  by (auto simp: Typed_Add_def Let_def)

lemma Get_item:
  assumes "typed_inv q" and "Typed_Get q = Some (Some item, q')"
  shows "item \<in> wq_dirty q" and "item \<notin> wq_processing q" and "wq_dirty q' = wq_dirty q - {item}"
    and "wq_processing q' = insert item (wq_processing q)" and "wq_shuttingDown q' = wq_shuttingDown q"
    and "wq_queue q = item # wq_queue q'"
proof -
  from assms(2) obtain rest where q: "wq_queue q = item # rest" and q': "q' = q\<lparr>wq_queue := rest,
      wq_processing := insert item (wq_processing q), wq_dirty := wq_dirty q - {item}\<rparr>"
    by (auto simp: Typed_Get_def split: list.splits if_splits)
  from assms(1) q have "item \<in> wq_dirty q - wq_processing q" by (metis typed_inv_def list.set_intros(1))
  then show "item \<in> wq_dirty q" "item \<notin> wq_processing q" by simp_all
  show "wq_dirty q' = wq_dirty q - {item}" "wq_processing q' = insert item (wq_processing q)"
    "wq_shuttingDown q' = wq_shuttingDown q" "wq_queue q = item # wq_queue q'"
    by (simp_all add: q q')
qed

lemma Get_shutdown_iff: "Typed_Get q = Some (None, q') \<longleftrightarrow> wq_shuttingDown q \<and> wq_queue q = [] \<and> q' = q"
  by (auto simp: Typed_Get_def split: list.splits)

lemma Get_waits_iff: "Typed_Get q = None \<longleftrightarrow> \<not> wq_shuttingDown q \<and> wq_queue q = []"
  by (auto simp: Typed_Get_def split: list.splits)

lemma Done_keeps [simp]:
  "wq_dirty (Typed_Done item q) = wq_dirty q" "wq_processing (Typed_Done item q) = wq_processing q - {item}"
  "wq_shuttingDown (Typed_Done item q) = wq_shuttingDown q"
  by (simp_all add: Typed_Done_def Let_def)

lemma ShutDown_keeps [simp]:
  "wq_dirty (Typed_ShutDown q) = wq_dirty q" "wq_processing (Typed_ShutDown q) = wq_processing q"
  "wq_shuttingDown (Typed_ShutDown q)" "wq_queue (Typed_ShutDown q) = wq_queue q"
  by (simp_all add: Typed_ShutDown_def)

subsection \<open>The heap methods keep the laws of the interface\<close>

definition pq_ok :: "'k waitForPriorityQueue \<Rightarrow> bool" where
  "pq_ok pq \<longleftrightarrow> distinct (pq_slots pq) \<and> set (pq_slots pq) \<subseteq> {..<length (pq_objs pq)} \<and>
     (\<forall>i < length (pq_slots pq). wf_index (pq_objs pq ! (pq_slots pq ! i)) = int i)"

definition pq_pushable :: "nat \<Rightarrow> 'k waitForPriorityQueue \<Rightarrow> bool" where
  "pq_pushable a pq \<longleftrightarrow> a < length (pq_objs pq) \<and> a \<notin> set (pq_slots pq)"

lemma set_index_nth:
  "set_index a n objs ! b = (if a = b \<and> a < length objs then (objs ! b)\<lparr>wf_index := n\<rparr> else objs ! b)"
  by (cases "a < length objs"; cases "a = b") (simp_all add: set_index_def list_update_beyond)

lemma set_index_keeps [simp]:
  "length (set_index a n objs) = length objs"
  "wf_readyAt (set_index a n objs ! b) = wf_readyAt (objs ! b)"
  "wf_data (set_index a n objs ! b) = wf_data (objs ! b)"
  by (simp_all add: set_index_nth) (simp add: set_index_def)

lemma set_index_at:
  "a < length objs \<Longrightarrow> wf_index (set_index a n objs ! b) = (if a = b then n else wf_index (objs ! b))"
  by (simp add: set_index_nth)

lemma pq_Swap_ok:
  assumes "pq_ok pq" and "i < length (pq_slots pq)" and "j < length (pq_slots pq)"
  shows "pq_ok (pq_Swap i j pq)"
proof -
  let ?xs = "pq_slots pq"
  have d: "distinct ?xs" and b: "\<And>c. c < length ?xs \<Longrightarrow> ?xs ! c < length (pq_objs pq)"
    and x: "\<And>c. c < length ?xs \<Longrightarrow> wf_index (pq_objs pq ! (?xs ! c)) = int c"
    using assms(1) by (auto simp: pq_ok_def subset_iff)
  have "wf_index (pq_objs (pq_Swap i j pq) ! (swap_at i j ?xs ! c)) = int c" if "c < length ?xs" for c
    using that d b x assms(2,3)
    by (auto simp: pq_Swap_def Let_def set_index_at nth_list_update nth_eq_iff_index_eq)
  with d assms show ?thesis by (auto simp: pq_ok_def pq_Swap_def Let_def)
qed

lemma pq_Push_ok: "pq_ok pq \<Longrightarrow> pq_pushable a pq \<Longrightarrow> pq_ok (pq_Push a pq)"
  by (auto simp: pq_ok_def pq_pushable_def pq_Push_def set_index_at nth_append)

lemma pq_Pop_ok:
  assumes "pq_ok pq" and "pq_slots pq \<noteq> []"
  shows "pq_ok (snd (pq_Pop pq))"
proof -
  let ?n = "length (pq_slots pq) - 1"
  have "pq_slots pq ! ?n < length (pq_objs pq)" using assms by (auto simp: pq_ok_def subset_iff)
  moreover have "pq_slots pq ! ?n \<noteq> pq_slots pq ! i" if "i < ?n" for i
    using that assms by (auto simp: pq_ok_def nth_eq_iff_index_eq)
  ultimately show ?thesis
    using assms by (simp add: pq_ok_def pq_Pop_def Let_def set_index_at) (meson in_set_takeD subset_iff)
qed

text \<open>What no heap method changes of the objects: which there are, and their items.\<close>

abbreviation entries :: "'k waitForPriorityQueue \<Rightarrow> 'k list" where
  "entries pq \<equiv> map wf_data (pq_objs pq)"

lemma entries_set_index [simp]: "map wf_data (set_index a n objs) = map wf_data objs"
  by (rule nth_equalityI) simp_all

interpretation wait_heap: heap_interface pq_Len pq_Less pq_Swap pq_Push pq_Pop pq_slots readyAt pq_ok pq_pushable entries
proof unfold_locales
  fix i j and h :: "'k waitForPriorityQueue"
  show "pq_Less h i j \<longleftrightarrow> readyAt h (pq_slots h ! i) < readyAt h (pq_slots h ! j)" by (simp add: pq_Less_def)
  show "pq_slots (pq_Swap i j h) = swap_at i j (pq_slots h)" by (simp add: pq_Swap_def Let_def)
qed (simp_all add: pq_Len_def pq_Swap_ok pq_Push_ok pq_Pop_ok, auto simp: pq_Swap_def pq_Push_def pq_Pop_def Let_def
   butlast_conv_take last_conv_nth)

subsection \<open>The waiting entries as a map from items to times\<close>

definition delaying_inv :: "'k delayingType \<Rightarrow> bool" where
  "delaying_inv d \<longleftrightarrow> typed_inv (dt_TypedInterface d) \<and> pq_ok (dt_waitingForQueue d) \<and>
     heap_ordered (readyAt (dt_waitingForQueue d)) (pq_slots (dt_waitingForQueue d)) \<and>
     (\<forall>k a. dt_waitingEntryByData d k = Some a \<longleftrightarrow>
        a \<in> set (pq_slots (dt_waitingForQueue d)) \<and> entry_data (dt_waitingForQueue d) a = k) \<and>
     distinct (dt_waitingForAddCh d) \<and>
     set (dt_waitingForAddCh d) \<subseteq> {..<length (pq_objs (dt_waitingForQueue d))} - set (pq_slots (dt_waitingForQueue d))"

definition wait_time :: "'k delayingType \<Rightarrow> 'k \<rightharpoonup> Time" where
  "wait_time d k = map_option (readyAt (dt_waitingForQueue d)) (dt_waitingEntryByData d k)"

definition sent :: "'k delayingType \<Rightarrow> 'k set" where
  "sent d = entry_data (dt_waitingForQueue d) ` set (dt_waitingForAddCh d)"

text \<open>The items that will come to a worker: to be done, waiting, or on the way to the waiting ones.\<close>

definition pending :: "'k delayingType \<Rightarrow> 'k set" where
  "pending d = wq_dirty (dt_TypedInterface d) \<union> dom (wait_time d) \<union> sent d"

lemma heap_ordered_cong:
  assumes "\<And>x. x \<in> set xs \<Longrightarrow> r' x = r x" and "heap_ordered r xs"
  shows "heap_ordered r' xs"
  unfolding heap_ordered_def edge_ok_def
proof (intro allI impI)
  fix c assume c: "c < length xs"
  then have "(c - 1) div 2 < length xs" by simp
  with c assms show "r' (xs ! ((c - 1) div 2)) \<le> r' (xs ! c)" by (simp add: heap_ordered_def edge_ok_def)
qed

lemma entries_same:
  assumes "entries pq' = entries pq"
  shows "length (pq_objs pq') = length (pq_objs pq)" and "a < length (pq_objs pq) \<Longrightarrow> entry_data pq' a = entry_data pq a"
proof -
  show l: "length (pq_objs pq') = length (pq_objs pq)" using assms by (metis length_map)
  show "entry_data pq' a = entry_data pq a" if "a < length (pq_objs pq)"
    using that assms l by (metis nth_map)
qed

lemma delaying_invD:
  assumes "delaying_inv d"
  shows "typed_inv (dt_TypedInterface d)" and "pq_ok (dt_waitingForQueue d)"
    and "heap_ordered (readyAt (dt_waitingForQueue d)) (pq_slots (dt_waitingForQueue d))"
    and "dt_waitingEntryByData d k = Some a \<longleftrightarrow>
      a \<in> set (pq_slots (dt_waitingForQueue d)) \<and> entry_data (dt_waitingForQueue d) a = k"
    and "a \<in> set (pq_slots (dt_waitingForQueue d)) \<Longrightarrow> a < length (pq_objs (dt_waitingForQueue d))"
    and "a \<in> set (dt_waitingForAddCh d) \<Longrightarrow>
      a < length (pq_objs (dt_waitingForQueue d)) \<and> a \<notin> set (pq_slots (dt_waitingForQueue d))"
    and "distinct (dt_waitingForAddCh d)"
  using assms by (auto simp: delaying_inv_def pq_ok_def)

lemma delaying_inv_typed:
  "delaying_inv d \<Longrightarrow> typed_inv q \<Longrightarrow> delaying_inv (d\<lparr>dt_TypedInterface := q\<rparr>)"
  by (simp add: delaying_inv_def)

lemma wait_time_typed [simp]:
  "wait_time (d\<lparr>dt_TypedInterface := q\<rparr>) = wait_time d" "sent (d\<lparr>dt_TypedInterface := q\<rparr>) = sent d"
  by (simp_all add: wait_time_def sent_def fun_eq_iff)

lemma delaying_new [simp]:
  "delaying_inv newDelayingQueue" "pending newDelayingQueue = {}"
  by (simp_all add: delaying_inv_def newDelayingQueue_def pq_ok_def heap_ordered_def pending_def wait_time_def
      sent_def dom_def) (simp add: newQueue_def)

text \<open>\<^verbatim>\<open>insert\<close>: a known item only moves forward, an unknown one joins.\<close>

lemma wait_insert_known:
  assumes "delaying_inv d" and "dt_waitingEntryByData d (entry_data (dt_waitingForQueue d) a) = Some e"
    and "a \<notin> set (dt_waitingForAddCh d)"
  shows "delaying_inv (wait_insert a d) \<and>
    wait_time (wait_insert a d) = (wait_time d)(entry_data (dt_waitingForQueue d) a \<mapsto>
      min (readyAt (dt_waitingForQueue d) e) (readyAt (dt_waitingForQueue d) a)) \<and> sent (wait_insert a d) = sent d"
proof (cases "readyAt (dt_waitingForQueue d) e > readyAt (dt_waitingForQueue d) a")
  case False
  then have "wait_insert a d = d" using assms(2) by (simp add: wait_insert_def Let_def)
  with False assms show ?thesis by (auto simp: wait_time_def min_def)
next
  case True
  let ?pq = "dt_waitingForQueue d"
  let ?t = "readyAt ?pq a"
  let ?pq1 = "?pq\<lparr>pq_objs := (pq_objs ?pq)[e := (pq_objs ?pq ! e)\<lparr>wf_readyAt := ?t\<rparr>]\<rparr>"
  let ?i = "nat (wf_index (pq_objs ?pq1 ! e))"
  define pq2 where "pq2 = heap_Fix_pq ?i ?pq1"
  note inv = delaying_invD [OF assms(1)]
  from assms(2) inv(4,5) have e: "e \<in> set (pq_slots ?pq)" "entry_data ?pq e = entry_data ?pq a"
      "e < length (pq_objs ?pq)" by auto
  then obtain i where i: "i < length (pq_slots ?pq)" "pq_slots ?pq ! i = e" by (metis in_set_conv_nth)
  with inv(2) e(3) have i': "?i = i" by (auto simp: pq_ok_def)
  have r1: "readyAt ?pq1 = (readyAt ?pq)(e := ?t)" using e(3) by (auto simp: fun_eq_iff nth_list_update)
  have "pq_ok ?pq1" using inv(2) e(3) by (auto simp: pq_ok_def nth_list_update)
  moreover have "up_ordered ((readyAt ?pq)(e := ?t)) (pq_slots ?pq) i"
    using up_ordered_smaller [OF inv(3) _ i(1), of ?t] inv(2) True i(2) by (simp add: pq_ok_def)
  then have "up_ordered (readyAt ?pq1) (pq_slots ?pq1) i" unfolding r1 by simp
  ultimately have fx: "heap_ordered (readyAt ?pq1) (pq_slots pq2) \<and> pq_ok pq2 \<and>
      mset (pq_slots pq2) = mset (pq_slots ?pq) \<and> readyAt pq2 = readyAt ?pq1"
    using wait_heap.heap_Fix_smaller [of ?pq1 i] i unfolding i' pq2_def by simp
  then have slots: "set (pq_slots pq2) = set (pq_slots ?pq)" by (metis mset_eq_setD)
  have "entries pq2 = entries ?pq1" unfolding pq2_def by (rule wait_heap.heap_view)
  also have "\<dots> = entries ?pq" using e(3) by (simp add: map_update [symmetric] list_update_id map_update)
  finally have same: "entries pq2 = entries ?pq" .
  note same = entries_same [OF same]
  have w: "wait_insert a d = d\<lparr>dt_waitingForQueue := pq2\<rparr>"
    using True assms(2) by (simp add: wait_insert_def Let_def pq2_def)
  have known: "a' \<in> set (pq_slots ?pq) \<and> entry_data pq2 a' = k \<longleftrightarrow> a' \<in> set (pq_slots ?pq) \<and> entry_data ?pq a' = k" for a' k
    using same(2) inv(5) by metis
  have "delaying_inv (d\<lparr>dt_waitingForQueue := pq2\<rparr>)"
    using assms(1) fx slots same(1) known by (simp add: delaying_inv_def)
  moreover have "wait_time (d\<lparr>dt_waitingForQueue := pq2\<rparr>) = (wait_time d)(entry_data ?pq a \<mapsto> ?t)"
  proof
    fix k
    from fx have "readyAt pq2 = (readyAt ?pq)(e := ?t)" using r1 by simp
    then have r2: "readyAt pq2 x = ((readyAt ?pq)(e := ?t)) x" for x by (rule fun_cong)
    have "a' \<noteq> e" if "dt_waitingEntryByData d k = Some a'" "k \<noteq> entry_data ?pq a" for a'
      using that e(2) inv(4) [of k a'] by auto
    then show "wait_time (d\<lparr>dt_waitingForQueue := pq2\<rparr>) k = ((wait_time d)(entry_data ?pq a \<mapsto> ?t)) k"
      using assms(2) by (cases "dt_waitingEntryByData d k") (auto simp: wait_time_def r2)
  qed
  moreover have "sent (d\<lparr>dt_waitingForQueue := pq2\<rparr>) = sent d"
    using same(2) inv(6) by (auto simp: sent_def image_iff)
  ultimately show ?thesis using True w by (simp add: min_def)
qed

lemma wait_insert_new:
  assumes "delaying_inv d" and "dt_waitingEntryByData d (entry_data (dt_waitingForQueue d) a) = None"
    and "a < length (pq_objs (dt_waitingForQueue d))" and "a \<notin> set (dt_waitingForAddCh d)"
    and "a \<notin> set (pq_slots (dt_waitingForQueue d))"
  shows "delaying_inv (wait_insert a d) \<and>
    wait_time (wait_insert a d) = (wait_time d)(entry_data (dt_waitingForQueue d) a \<mapsto> readyAt (dt_waitingForQueue d) a) \<and>
    sent (wait_insert a d) = sent d"
proof -
  let ?pq = "dt_waitingForQueue d"
  let ?pq2 = "heap_Push_pq a ?pq"
  note inv = delaying_invD [OF assms(1)]
  have push: "heap_ordered (readyAt ?pq) (pq_slots ?pq2) \<and> pq_ok ?pq2 \<and>
      mset (pq_slots ?pq2) = add_mset a (mset (pq_slots ?pq)) \<and> readyAt ?pq2 = readyAt ?pq"
    using wait_heap.heap_Push_ok [OF inv(2) _ inv(3), of a] assms(3,5) by (simp add: pq_pushable_def)
  then have slots: "set (pq_slots ?pq2) = insert a (set (pq_slots ?pq))" by (metis set_mset_add_mset_insert set_mset_mset)
  note same = entries_same [OF wait_heap.heap_view(1) [of a ?pq]]
  have w: "wait_insert a d = d\<lparr>dt_waitingForQueue := ?pq2,
      dt_waitingEntryByData := (dt_waitingEntryByData d)(entry_data ?pq a \<mapsto> a)\<rparr>"
    using assms(2) by (simp add: wait_insert_def Let_def)
  have "((dt_waitingEntryByData d)(entry_data ?pq a \<mapsto> a)) k = Some a' \<longleftrightarrow>
      a' \<in> insert a (set (pq_slots ?pq)) \<and> entry_data ?pq2 a' = k" for k a'
  proof (cases "a' = a")
    case True
    then show ?thesis using same(2) [OF assms(3)] assms(5) inv(4) by auto
  next
    case False
    then have "a' \<in> insert a (set (pq_slots ?pq)) \<and> entry_data ?pq2 a' = k \<longleftrightarrow> dt_waitingEntryByData d k = Some a'"
      using same(2) inv(5) inv(4) [of k a'] by auto
    moreover have "k = entry_data ?pq a \<Longrightarrow> dt_waitingEntryByData d k \<noteq> Some a'" using assms(2) by simp
    ultimately show ?thesis using False by auto
  qed
  then have "delaying_inv (wait_insert a d)"
    unfolding w using assms(1,4) push slots same(1) by (auto simp: delaying_inv_def)
  moreover have "wait_time (wait_insert a d) = (wait_time d)(entry_data ?pq a \<mapsto> readyAt ?pq a)"
    unfolding w using push by (auto simp: wait_time_def fun_eq_iff)
  moreover have "sent (wait_insert a d) = sent d"
    unfolding w using same(2) inv(6) by (auto simp: sent_def image_iff)
  ultimately show ?thesis by blast
qed

text \<open>Removing the root of the heap removes the item that is due first.\<close>

lemma wait_pop:
  assumes "delaying_inv d" and "pq_slots (dt_waitingForQueue d) \<noteq> []"
    and "heap_Pop_pq (dt_waitingForQueue d) = (a, pq2)" and "k = entry_data pq2 a"
    and "d2 = d\<lparr>dt_waitingForQueue := pq2, dt_waitingEntryByData := (dt_waitingEntryByData d)(k := None)\<rparr>"
  shows "delaying_inv d2" and "wait_time d2 = (wait_time d)(k := None)" and "sent d2 = sent d"
    and "wait_time d k = Some (readyAt (dt_waitingForQueue d) (pq_Peek (dt_waitingForQueue d)))"
    and "wait_time d j = Some t \<Longrightarrow> readyAt (dt_waitingForQueue d) (pq_Peek (dt_waitingForQueue d)) \<le> t"
proof -
  let ?pq = "dt_waitingForQueue d"
  note inv = delaying_invD [OF assms(1)]
  have pop: "heap_ordered (readyAt ?pq) (pq_slots pq2)" "pq_ok pq2"
      "add_mset a (mset (pq_slots pq2)) = mset (pq_slots ?pq)" "readyAt pq2 = readyAt ?pq" "a = pq_slots ?pq ! 0"
    using wait_heap.heap_Pop_min [OF inv(2) assms(2) inv(3) assms(3)] by blast+
  then have slots: "set (pq_slots ?pq) = insert a (set (pq_slots pq2))" by (metis set_mset_add_mset_insert set_mset_mset)
  have "mset (a # pq_slots pq2) = mset (pq_slots ?pq)" using pop(3) by simp
  then have "distinct (a # pq_slots pq2)" using inv(2) by (metis pq_ok_def mset_eq_imp_distinct_iff)
  then have a: "a \<notin> set (pq_slots pq2)" by simp
  have same: "entries pq2 = entries ?pq" using wait_heap.heap_view(2) [of ?pq] assms(3) by simp
  note same = entries_same [OF same]
  have data: "entry_data pq2 b = entry_data ?pq b" if "b \<in> set (pq_slots ?pq)" for b
    using that same(2) inv(5) by blast
  have ka: "dt_waitingEntryByData d k = Some a" using inv(4) slots data assms(4) by simp
  have known: "((dt_waitingEntryByData d)(k := None)) j = Some b \<longleftrightarrow> b \<in> set (pq_slots pq2) \<and> entry_data pq2 b = j" for j b
  proof (cases "b = a")
    case True
    then show ?thesis using a ka inv(4) [of j a] inv(4) [of k a] by auto
  next
    case False
    then have "b \<in> set (pq_slots pq2) \<and> entry_data pq2 b = j \<longleftrightarrow> dt_waitingEntryByData d j = Some b"
      using inv(4) [of j b] slots data [of b] by auto
    with False ka show ?thesis by auto
  qed
  show "delaying_inv d2"
    unfolding assms(5) using assms(1) pop(1,2,4) slots same(1) known by (auto simp: delaying_inv_def)
  show "wait_time d2 = (wait_time d)(k := None)"
    unfolding assms(5) using fun_cong [OF pop(4)] by (auto simp: wait_time_def fun_eq_iff)
  show "sent d2 = sent d"
    unfolding assms(5) using same(2) inv(6) by (auto simp: sent_def image_iff)
  show "wait_time d k = Some (readyAt ?pq (pq_Peek ?pq))"
    using ka pop(5) by (simp add: wait_time_def pq_Peek_def)
  show "readyAt ?pq (pq_Peek ?pq) \<le> t" if "wait_time d j = Some t"
    using that inv(4) heap_root_min [OF inv(3)] by (auto simp: wait_time_def pq_Peek_def)
qed

text \<open>The items that are due, and what stays.\<close>

definition due :: "Time \<Rightarrow> 'k delayingType \<Rightarrow> 'k set" where
  "due now d = {k. \<exists>t. wait_time d k = Some t \<and> t \<le> now}"

definition not_due :: "Time \<Rightarrow> 'k delayingType \<Rightarrow> 'k \<rightharpoonup> Time" where
  "not_due now d = (\<lambda>k. if k \<in> due now d then None else wait_time d k)"

lemma add_ready_adds:
  assumes "delaying_inv d"
  shows "\<exists>ks. dt_TypedInterface (add_ready now d) = fold Typed_Add ks (dt_TypedInterface d) \<and> distinct ks \<and>
    set ks = due now d \<and> sorted (map (\<lambda>k. the (wait_time d k)) ks) \<and>
    wait_time (add_ready now d) = not_due now d \<and> sent (add_ready now d) = sent d \<and>
    delaying_inv (add_ready now d) \<and> dt_stopped (add_ready now d) = dt_stopped d"
  using assms
proof (induction "pq_Len (dt_waitingForQueue d)" arbitrary: d rule: less_induct)
  case less
  let ?pq = "dt_waitingForQueue d"
  note inv = delaying_invD [OF less.prems]
  show ?case
  proof (cases "pq_slots ?pq = [] \<or> readyAt ?pq (pq_Peek ?pq) > now")
    case True
    have "t > now" if "wait_time d k = Some t" for k t
    proof (cases "pq_slots ?pq = []")
      case empty: True
      from that obtain a where "dt_waitingEntryByData d k = Some a" by (auto simp: wait_time_def)
      with inv(4) empty show ?thesis by simp
    next
      case False
      obtain a pq2 where p: "heap_Pop_pq ?pq = (a, pq2)" by force
      from wait_pop(5) [OF less.prems False p refl refl that] True False show ?thesis by simp
    qed
    then have "due now d = {}" by (fastforce simp: due_def)
    moreover have "add_ready now d = d" using True by (subst add_ready.simps) (auto simp: Let_def pq_Len_def)
    ultimately show ?thesis using less.prems by (intro exI [of _ "[]"]) (simp add: not_due_def)
  next
    case False
    obtain a pq2 where p: "heap_Pop_pq ?pq = (a, pq2)" by force
    define k where "k = entry_data pq2 a"
    define d1 where "d1 = d\<lparr>dt_waitingForQueue := pq2, dt_waitingEntryByData := (dt_waitingEntryByData d)(k := None)\<rparr>"
    define d2 where "d2 = on_typed (Typed_Add k) d1"
    have pop: "delaying_inv d1" "wait_time d1 = (wait_time d)(k := None)" "sent d1 = sent d"
        "wait_time d k = Some (readyAt ?pq (pq_Peek ?pq))"
        "\<And>j t. wait_time d j = Some t \<Longrightarrow> readyAt ?pq (pq_Peek ?pq) \<le> t"
      using wait_pop [OF less.prems _ p k_def d1_def] False by blast+
    have eq: "add_ready now d = add_ready now d2"
      using False p by (subst add_ready.simps) (simp add: Let_def pq_Len_def d2_def d1_def k_def)
    have "pq_Len (dt_waitingForQueue d2) < pq_Len ?pq"
      using heap_Pop_pq_length [of ?pq] p False by (simp add: d2_def d1_def pq_Len_def)
    moreover have "delaying_inv d2"
      unfolding d2_def using pop(1) delaying_invD(1) [OF pop(1)] by (simp add: delaying_inv_typed)
    ultimately obtain ks where ks: "dt_TypedInterface (add_ready now d2) = fold Typed_Add ks (dt_TypedInterface d2)"
        "distinct ks" "set ks = due now d2" "sorted (map (\<lambda>k. the (wait_time d2 k)) ks)"
        "wait_time (add_ready now d2) = not_due now d2" "sent (add_ready now d2) = sent d2"
        "delaying_inv (add_ready now d2)" "dt_stopped (add_ready now d2) = dt_stopped d2"
      using less.hyps by blast
    have w2: "wait_time d2 = (wait_time d)(k := None)" "sent d2 = sent d" "dt_stopped d2 = dt_stopped d"
      by (simp_all add: d2_def pop(2,3)) (simp add: d1_def)
    have due: "due now d = insert k (due now d2)" "k \<notin> due now d2"
      using pop(4) False w2(1) by (auto simp: due_def)
    have "map (\<lambda>k. the (wait_time d2 k)) ks = map (\<lambda>k. the (wait_time d k)) ks"
      using due(2) ks(3) w2(1) by auto
    with ks(4) have "sorted (map (\<lambda>k. the (wait_time d k)) ks)" by metis
    moreover have "the (wait_time d k) \<le> the (wait_time d x)" if "x \<in> set ks" for x
    proof -
      from that ks(3) w2(1) obtain t where "wait_time d x = Some t" by (auto simp: due_def split: if_splits)
      with pop(4) pop(5) [OF this] show ?thesis by simp
    qed
    ultimately have "sorted (map (\<lambda>k. the (wait_time d k)) (k # ks))" by simp
    moreover have "fold Typed_Add (k # ks) (dt_TypedInterface d) = dt_TypedInterface (add_ready now d)"
      using ks(1) eq by (simp add: d2_def d1_def)
    moreover have "wait_time (add_ready now d) = not_due now d"
      using ks(5) eq due w2(1) by (auto simp: not_due_def fun_eq_iff)
    ultimately show ?thesis
      using ks due eq w2 by (intro exI [of _ "k # ks"]) simp
  qed
qed

lemma fold_Add_open:
  "\<not> wq_shuttingDown q \<Longrightarrow> wq_dirty (fold Typed_Add ks q) = wq_dirty q \<union> set ks"
  by (induction ks arbitrary: q) auto

lemma fold_Add_keeps [simp]:
  "wq_processing (fold Typed_Add ks q) = wq_processing q"
  "wq_shuttingDown (fold Typed_Add ks q) = wq_shuttingDown q"
  by (induction ks arbitrary: q) auto

subsection \<open>No operation loses an item\<close>

abbreviation shut :: "'k delayingType \<Rightarrow> bool" where
  "shut d \<equiv> wq_shuttingDown (dt_TypedInterface d)"

abbreviation processing :: "'k delayingType \<Rightarrow> 'k set" where
  "processing d \<equiv> wq_processing (dt_TypedInterface d)"

lemma pending_typed:
  "pending (d\<lparr>dt_TypedInterface := q\<rparr>) = wq_dirty q \<union> dom (wait_time d) \<union> sent d"
  by (simp add: pending_def)

lemma Add_pending:
  "\<not> shut d \<Longrightarrow> pending (on_typed (Typed_Add item) d) = insert item (pending d)"
  by (simp add: pending_typed) (auto simp: pending_def)

lemma wait_insert_keeps [simp]:
  "dt_TypedInterface (wait_insert a d) = dt_TypedInterface d" "dt_stopped (wait_insert a d) = dt_stopped d"
  by (simp_all add: wait_insert_def Let_def split: option.split)

lemma wait_insert_adds:
  assumes "delaying_inv d" and "a < length (pq_objs (dt_waitingForQueue d))" and "a \<notin> set (dt_waitingForAddCh d)"
    and "a \<notin> set (pq_slots (dt_waitingForQueue d))"
  shows "delaying_inv (wait_insert a d)"
    and "pending (wait_insert a d) = insert (entry_data (dt_waitingForQueue d) a) (pending d)"
    and "sent (wait_insert a d) = sent d"
    and "wait_time (wait_insert a d) = (wait_time d)(entry_data (dt_waitingForQueue d) a \<mapsto>
      (case wait_time d (entry_data (dt_waitingForQueue d) a) of
        None \<Rightarrow> readyAt (dt_waitingForQueue d) a | Some t \<Rightarrow> min t (readyAt (dt_waitingForQueue d) a)))"
proof -
  let ?k = "entry_data (dt_waitingForQueue d) a"
  have "delaying_inv (wait_insert a d) \<and> wait_time (wait_insert a d) = (wait_time d)(?k \<mapsto>
      (case wait_time d ?k of None \<Rightarrow> readyAt (dt_waitingForQueue d) a
        | Some t \<Rightarrow> min t (readyAt (dt_waitingForQueue d) a))) \<and> sent (wait_insert a d) = sent d"
  proof (cases "dt_waitingEntryByData d ?k")
    case None
    with wait_insert_new [OF assms(1) None assms(2-4)] show ?thesis by (simp add: wait_time_def)
  next
    case (Some e)
    with wait_insert_known [OF assms(1) Some assms(3)] show ?thesis by (simp add: wait_time_def)
  qed
  then show "delaying_inv (wait_insert a d)" "sent (wait_insert a d) = sent d"
    "wait_time (wait_insert a d) = (wait_time d)(?k \<mapsto>
      (case wait_time d ?k of None \<Rightarrow> readyAt (dt_waitingForQueue d) a
        | Some t \<Rightarrow> min t (readyAt (dt_waitingForQueue d) a)))"
    and "pending (wait_insert a d) = insert ?k (pending d)" by (auto simp: pending_def)
qed

lemma wait_receive_keeps:
  assumes "delaying_inv d"
  shows "delaying_inv (wait_receive now d)" and "\<not> shut d \<Longrightarrow> pending (wait_receive now d) = pending d"
    and "processing (wait_receive now d) = processing d" and "shut (wait_receive now d) = shut d"
    and "dt_stopped (wait_receive now d) = dt_stopped d"
proof -
  show "processing (wait_receive now d) = processing d" "shut (wait_receive now d) = shut d"
      "dt_stopped (wait_receive now d) = dt_stopped d"
    by (simp_all add: wait_receive_def Let_def split: list.split)
  let ?pq = "dt_waitingForQueue d"
  have "delaying_inv (wait_receive now d) \<and> (\<not> shut d \<longrightarrow> pending (wait_receive now d) = pending d)"
  proof (cases "dt_waitingForAddCh d")
    case Nil
    then show ?thesis using assms by (simp add: wait_receive_def)
  next
    case (Cons a rest)
    let ?d = "d\<lparr>dt_waitingForAddCh := rest\<rparr>"
    note inv = delaying_invD [OF assms]
    have d: "delaying_inv ?d" using assms Cons by (auto simp: delaying_inv_def)
    have p: "insert (entry_data ?pq a) (pending ?d) = pending d"
      using Cons by (auto simp: pending_def sent_def wait_time_def dom_def)
    have a: "a < length (pq_objs ?pq)" "a \<notin> set (pq_slots ?pq)" "a \<notin> set rest"
      using inv(6,7) Cons by auto
    show ?thesis
    proof (cases "readyAt ?pq a > now")
      case True
      then have "wait_receive now d = wait_insert a ?d" using Cons by (simp add: wait_receive_def)
      with wait_insert_adds(1,2) [OF d, of a] a p show ?thesis by simp
    next
      case False
      then have "wait_receive now d = on_typed (Typed_Add (entry_data ?pq a)) ?d"
        using Cons by (simp add: wait_receive_def)
      moreover have "delaying_inv (on_typed (Typed_Add (entry_data ?pq a)) ?d)"
        using d delaying_invD(1) [OF d] by (intro delaying_inv_typed) simp_all
      ultimately show ?thesis using Add_pending [of ?d "entry_data ?pq a"] p by simp
    qed
  qed
  then show "delaying_inv (wait_receive now d)" "\<not> shut d \<Longrightarrow> pending (wait_receive now d) = pending d" by auto
qed

text \<open>A received entry waits until it is ready, or until an earlier one of its item is.\<close>

lemma wait_receive_time:
  assumes "delaying_inv d" and "dt_waitingForAddCh d = a # rest" and "readyAt (dt_waitingForQueue d) a > now"
  shows "wait_time (wait_receive now d) = (wait_time d)(entry_data (dt_waitingForQueue d) a \<mapsto>
      (case wait_time d (entry_data (dt_waitingForQueue d) a) of
        None \<Rightarrow> readyAt (dt_waitingForQueue d) a | Some t \<Rightarrow> min t (readyAt (dt_waitingForQueue d) a)))"
proof -
  let ?d = "d\<lparr>dt_waitingForAddCh := rest\<rparr>"
  have "delaying_inv ?d" using assms(1,2) by (auto simp: delaying_inv_def)
  moreover have "a < length (pq_objs (dt_waitingForQueue d))" "a \<notin> set (pq_slots (dt_waitingForQueue d))" "a \<notin> set rest"
    using delaying_invD(6,7) [OF assms(1)] assms(2) by auto
  moreover have "wait_time ?d = wait_time d" by (simp add: wait_time_def fun_eq_iff)
  ultimately show ?thesis
    using wait_insert_adds(4) [of ?d a] assms(2,3)
    by (cases "wait_time d (entry_data (dt_waitingForQueue d) a)") (simp_all add: wait_receive_def)
qed

lemma add_ready_keeps:
  assumes "delaying_inv d"
  shows "delaying_inv (add_ready now d)" and "\<not> shut d \<Longrightarrow> pending (add_ready now d) = pending d"
    and "processing (add_ready now d) = processing d" and "shut (add_ready now d) = shut d"
    and "dt_stopped (add_ready now d) = dt_stopped d"
proof -
  obtain ks where ks: "dt_TypedInterface (add_ready now d) = fold Typed_Add ks (dt_TypedInterface d)"
      "set ks = due now d" "wait_time (add_ready now d) = not_due now d" "sent (add_ready now d) = sent d"
      "delaying_inv (add_ready now d)" "dt_stopped (add_ready now d) = dt_stopped d"
    using add_ready_adds [OF assms] by blast
  then show "delaying_inv (add_ready now d)" "processing (add_ready now d) = processing d"
    "shut (add_ready now d) = shut d" "dt_stopped (add_ready now d) = dt_stopped d" by simp_all
  show "pending (add_ready now d) = pending d" if "\<not> shut d"
    using that ks(2-4) by (auto simp: pending_def ks(1) fold_Add_open not_due_def due_def split: if_splits)
qed

text \<open>After the shutdown nothing is added any more, even by a turn of the goroutine that had begun.\<close>

lemma fold_Add_closed: "wq_shuttingDown q \<Longrightarrow> fold Typed_Add ks q = q"
  by (induction ks) simp_all

lemma waiting_closed:
  assumes "shut d"
  shows "dt_TypedInterface (wait_receive now d) = dt_TypedInterface d"
    and "delaying_inv d \<Longrightarrow> dt_TypedInterface (add_ready now d) = dt_TypedInterface d"
proof -
  show "dt_TypedInterface (wait_receive now d) = dt_TypedInterface d"
    using assms by (simp add: wait_receive_def wait_insert_def Let_def split: list.split option.split)
  show "dt_TypedInterface (add_ready now d) = dt_TypedInterface d" if "delaying_inv d"
    using add_ready_adds [OF that, of now] fold_Add_closed [OF assms] by metis
qed

lemma AddAfter_keeps:
  assumes "delaying_inv d" and "AddAfter late now item duration d = Some d'"
  shows "delaying_inv d'" and "\<not> shut d \<Longrightarrow> dt_stopped d = False \<Longrightarrow> pending d' = insert item (pending d)"
    and "processing d' = processing d" and "shut d' = shut d"
    and "shut d \<Longrightarrow> dt_TypedInterface d' = dt_TypedInterface d"
    and "dt_stopped d' = dt_stopped d"
proof -
  note inv = delaying_invD [OF assms(1)]
  consider (same) "d' = d" "shut d \<or> dt_stopped d"
    | (now) "d' = on_typed (Typed_Add item) d"
    | (later) "d' = d\<lparr>dt_waitingForQueue := (dt_waitingForQueue d)\<lparr>pq_objs := pq_objs (dt_waitingForQueue d) @
          [\<lparr>wf_data = item, wf_readyAt = now + duration, wf_index = 0\<rparr>]\<rparr>,
        dt_waitingForAddCh := dt_waitingForAddCh d @ [length (pq_objs (dt_waitingForQueue d))]\<rparr>"
    using assms(2) by (auto simp: AddAfter_def Let_def split: if_splits)
  then have "delaying_inv d' \<and> (\<not> shut d \<longrightarrow> \<not> dt_stopped d \<longrightarrow> pending d' = insert item (pending d)) \<and>
    processing d' = processing d \<and> shut d' = shut d \<and> (shut d \<longrightarrow> dt_TypedInterface d' = dt_TypedInterface d) \<and>
    dt_stopped d' = dt_stopped d"
  proof cases
    case same
    with assms(1) show ?thesis by auto
  next
    case now
    have "delaying_inv d'" unfolding now using assms(1) inv(1) by (intro delaying_inv_typed) simp_all
    with now show ?thesis by (simp add: Add_pending)
  next
    case later
    let ?pq = "dt_waitingForQueue d"
    let ?pq' = "?pq\<lparr>pq_objs := pq_objs ?pq @ [\<lparr>wf_data = item, wf_readyAt = now + duration, wf_index = 0\<rparr>]\<rparr>"
    have old: "pq_objs ?pq' ! a = pq_objs ?pq ! a" if "a < length (pq_objs ?pq)" for a
      using that by (simp add: nth_append)
    have "heap_ordered (readyAt ?pq') (pq_slots ?pq)"
      using heap_ordered_cong [OF _ inv(3), of "readyAt ?pq'"] inv(5) old by simp
    moreover have "pq_ok ?pq'"
      using inv(2) old inv(5) [OF nth_mem] by (auto simp: pq_ok_def)
    moreover have "a \<in> set (pq_slots ?pq) \<and> entry_data ?pq' a = k \<longleftrightarrow> a \<in> set (pq_slots ?pq) \<and> entry_data ?pq a = k" for a k
      using old inv(5) by auto
    moreover have "length (pq_objs ?pq) \<notin> set (dt_waitingForAddCh d)" "length (pq_objs ?pq) \<notin> set (pq_slots ?pq)"
      using inv(5,6) by blast+
    moreover have "set (dt_waitingForAddCh d) \<subseteq> {..<Suc (length (pq_objs ?pq))} - set (pq_slots ?pq)"
      using inv(6) by fastforce
    ultimately have "delaying_inv d'"
      unfolding later using assms(1) by (simp add: delaying_inv_def)
    moreover have "wait_time d' = wait_time d"
      unfolding later using old inv(4,5) by (auto simp: wait_time_def fun_eq_iff intro!: map_option_cong)
    moreover have "sent d' = insert item (sent d)"
      unfolding later using old inv(6) by (auto simp: sent_def image_iff)
    ultimately show ?thesis using later by (simp add: pending_def)
  qed
  then show "delaying_inv d'" "\<not> shut d \<Longrightarrow> dt_stopped d = False \<Longrightarrow> pending d' = insert item (pending d)"
    "processing d' = processing d" "shut d' = shut d" "shut d \<Longrightarrow> dt_TypedInterface d' = dt_TypedInterface d" "dt_stopped d' = dt_stopped d"
    by blast+
qed

lemma delaying_ShutDown_keeps [simp]:
  "delaying_inv d \<Longrightarrow> delaying_inv (delaying_ShutDown d)"
  "processing (delaying_ShutDown d) = processing d"
  "wq_dirty (dt_TypedInterface (delaying_ShutDown d)) = wq_dirty (dt_TypedInterface d)"
  by (simp_all add: delaying_ShutDown_def) (simp add: delaying_inv_def)

subsection \<open>Rate limits\<close>

lemma wrap64_small: "0 \<le> x \<Longrightarrow> x < 2 ^ 63 \<Longrightarrow> wrap64 x = x"
  by (simp add: wrap64_def signed_take_bit_int_eq_self)

definition exponential_ok :: "'k ItemExponentialFailureRateLimiter \<Rightarrow> bool" where
  "exponential_ok r \<longleftrightarrow> el_baseDelay r = 5 * Millisecond \<and> el_maxDelay r = 1000 * Second"

text \<open>The back-off of the default limiter, as a formula.\<close>

definition backoff :: "nat \<Rightarrow> Duration" where
  "backoff n = min (5 * Millisecond * 2 ^ n) (1000 * Second)"

lemma exponential_When_delay:
  assumes "exponential_ok r" and "failures_of r item = int n"
  shows "fst (exponential_When item r) = backoff n"
proof -
  let ?b = "5 * Millisecond * 2 ^ n :: int"
  have eq: "fst (exponential_When item r) = (if ?b > 2 ^ 63 then 1000 * Second
      else if wrap64 ?b > 1000 * Second then 1000 * Second else wrap64 ?b)"
    using assms by (simp add: exponential_When_def exponential_ok_def float_MaxInt64_def Let_def)
  have pos: "0 \<le> ?b" by (simp add: Millisecond_def)
  have odd: "?b \<noteq> 2 ^ 63"
  proof
    assume "?b = 2 ^ 63"
    then have "(5::int) dvd 2 ^ 63" by (metis dvd_triv_left mult.assoc)
    then show False by simp
  qed
  show ?thesis
  proof (cases "?b > 2 ^ 63")
    case True
    then have "1000 * Second \<le> ?b" by (simp add: Second_def)
    with True eq show ?thesis by (simp add: backoff_def min_def)
  next
    case False
    with odd have "?b < 2 ^ 63" by linarith
    with wrap64_small [OF pos] False eq show ?thesis by (simp add: backoff_def min_def)
  qed
qed

lemma exponential_When_counts:
  assumes "failures_of r item = int n" and "Suc n < 2 ^ 63"
  shows "failures_of (snd (exponential_When item r)) item = int (Suc n)"
    and "k \<noteq> item \<Longrightarrow> failures_of (snd (exponential_When item r)) k = failures_of r k"
    and "exponential_ok (snd (exponential_When item r)) = exponential_ok r"
proof -
  have "snd (exponential_When item r) = r\<lparr>el_failures := (el_failures r)(item \<mapsto> wrap64 (int n + 1))\<rparr>"
    using assms(1) by (simp add: exponential_When_def Let_def)
  moreover have "wrap64 (int n + 1) = int (Suc n)"
    using wrap64_small [of "int n + 1"] assms(2) by simp
  ultimately show "failures_of (snd (exponential_When item r)) item = int (Suc n)"
    "k \<noteq> item \<Longrightarrow> failures_of (snd (exponential_When item r)) k = failures_of r k"
    "exponential_ok (snd (exponential_When item r)) = exponential_ok r"
    by (simp_all add: failures_of_def exponential_ok_def)
qed

text \<open>The limiter of the controller in use: the back-off with any history, and the bucket.\<close>

definition controller_limiter :: "'k TypedRateLimiter list \<Rightarrow> ('k \<Rightarrow> nat) \<Rightarrow> bool" where
  "controller_limiter ls n \<longleftrightarrow> (\<exists>r. ls = [ItemExponential r, BucketRateLimiter] \<and> exponential_ok r \<and>
     (\<forall>k. failures_of r k = int (n k)))"

lemma controller_limiter_default: "controller_limiter DefaultTypedControllerRateLimiter (\<lambda>_. 0)"
  by (simp add: controller_limiter_def DefaultTypedControllerRateLimiter_def exponential_ok_def failures_of_def)

lemma MaxOf_When_controller:
  assumes "controller_limiter ls n" and "Suc (n item) < 2 ^ 63"
  shows "fst (MaxOf_When reserved item ls) = max (backoff (n item)) reserved"
    and "controller_limiter (snd (MaxOf_When reserved item ls)) (n(item := Suc (n item)))"
proof -
  obtain r where r: "ls = [ItemExponential r, BucketRateLimiter]" "exponential_ok r" "\<And>k. failures_of r k = int (n k)"
    using assms(1) by (auto simp: controller_limiter_def)
  have "0 < backoff (n item)" by (simp add: backoff_def Millisecond_def Second_def)
  moreover have "fst (MaxOf_When reserved item ls) = max (max 0 (fst (exponential_When item r))) reserved"
    by (auto simp: r(1) MaxOf_When_def Let_def max_def)
  ultimately show "fst (MaxOf_When reserved item ls) = max (backoff (n item)) reserved"
    using exponential_When_delay [OF r(2) r(3) [of item]] by simp
  show "controller_limiter (snd (MaxOf_When reserved item ls)) (n(item := Suc (n item)))"
    using exponential_When_counts [OF r(3) assms(2)] r
    by (simp add: controller_limiter_def MaxOf_When_def Let_def)
qed

lemma MaxOf_Forget_controller:
  "controller_limiter ls n \<Longrightarrow> controller_limiter (MaxOf_Forget item ls) (n(item := 0))"
  by (auto simp: controller_limiter_def MaxOf_Forget_def exponential_Forget_def exponential_ok_def failures_of_def)

lemma MaxOf_NumRequeues_controller:
  "controller_limiter ls n \<Longrightarrow> MaxOf_NumRequeues item ls = int (n item)"
  by (auto simp: controller_limiter_def MaxOf_NumRequeues_def Let_def)

text \<open>A run of retries of one item, and what the limiter has answered.\<close>

fun retries :: "Duration list \<Rightarrow> 'k \<Rightarrow> 'k TypedRateLimiter list \<Rightarrow> Duration list \<times> 'k TypedRateLimiter list" where
  "retries [] item ls = ([], ls)"
| "retries (b # bs) item ls =
     (let w = MaxOf_When b item ls; rest = retries bs item (snd w) in (fst w # fst rest, snd rest))"

lemma retries_delays:
  assumes "controller_limiter ls n" and "n item + length bs < 2 ^ 63"
  shows "fst (retries bs item ls) = map2 (\<lambda>i b. max (backoff i) b) [n item..<n item + length bs] bs \<and>
    controller_limiter (snd (retries bs item ls)) (n(item := n item + length bs))"
  using assms
proof (induction bs arbitrary: ls n)
  case (Cons b bs)
  let ?n = "n(item := Suc (n item))"
  have s: "Suc (n item) < 2 ^ 63" "?n item + length bs < 2 ^ 63" using Cons.prems(2) by simp_all
  note w = MaxOf_When_controller [OF Cons.prems(1) s(1), of b]
  have "[n item..<n item + length (b # bs)] = n item # [?n item..<?n item + length bs]"
    by (simp add: upt_conv_Cons del: upt_Suc)
  moreover have "?n(item := ?n item + length bs) = n(item := n item + length (b # bs))" by auto
  ultimately show ?case using Cons.IH [OF w(2) s(2)] w(1) unfolding retries.simps by (simp only: Let_def) simp
qed simp

text \<open>
  C8: Retries back off. The delays the controller's default rate limiter gives to a request
  that fails again and again start at five milliseconds, double with every failure and never
  exceed a thousand seconds, unless the token bucket asks for more, although the source
  computes them in floating point and counts failures in a machine integer. The limiter counts
  the failures, and forgetting the request starts over.
\<close>

theorem retries_back_off:
  assumes "length bs < 2 ^ 63 - 1"
  shows "fst (retries bs item DefaultTypedControllerRateLimiter) =
      map2 (\<lambda>i b. max (min (5 * Millisecond * 2 ^ i) (1000 * Second)) b) [0..<length bs] bs \<and>
    MaxOf_NumRequeues item (snd (retries bs item DefaultTypedControllerRateLimiter)) = int (length bs) \<and>
    fst (MaxOf_When b item (MaxOf_Forget item (snd (retries bs item DefaultTypedControllerRateLimiter)))) =
      max (5 * Millisecond) b"
proof -
  let ?ls = "snd (retries bs item DefaultTypedControllerRateLimiter)"
  from assms retries_delays [OF controller_limiter_default, of bs item]
  have r: "fst (retries bs item DefaultTypedControllerRateLimiter) = map2 (\<lambda>i b. max (backoff i) b) [0..<length bs] bs"
      "controller_limiter ?ls ((\<lambda>_. 0)(item := length bs))" by simp_all
  have "5 * Millisecond \<le> 1000 * Second" by (simp add: Millisecond_def Second_def)
  with MaxOf_When_controller(1) [OF MaxOf_Forget_controller [OF r(2)], of item item b]
  have "fst (MaxOf_When b item (MaxOf_Forget item ?ls)) = max (5 * Millisecond) b" by (simp add: backoff_def)
  with r(1) MaxOf_NumRequeues_controller [OF r(2), of item] show ?thesis by (simp add: backoff_def)
qed

theorem retries_back_off_witness:
  "fst (retries [0, 0, 7 * Second] ''svc'' DefaultTypedControllerRateLimiter) =
     [5 * Millisecond, 10 * Millisecond, 7 * Second]"
  using retries_back_off [of "[0, 0, 7 * Second]" "''svc''"]
  by (simp add: upt_rec Millisecond_def Second_def)

end
