(* ===== verification/Worker.thy ===== *)
theory Worker
  imports Manager Workqueue
begin

section \<open>The workers of the controller and its real queue\<close>

text \<open>
  \<open>Manager\<close> keeps the pending requests as a set. This theory replaces the set by what the
  process runs: the rate limiting queue of \<open>Workqueue\<close>, filled by events that arrive some time
  after the change they report, a goroutine that moves delayed requests into the queue, and
  any number of workers that take a request, call \<^verbatim>\<open>Reconcile\<close>, decide about the request and
  mark it done, each at its own pace (\<^verbatim>\<open>internal/controller/controller.go\<close> of
  controller-runtime). It also holds the loop of one worker by itself. The manager runs with
  the default options of \<^verbatim>\<open>SetupWithManager\<close>: no priority queue, and panics are recovered.
\<close>

subsection \<open>The queue as the controller sees it (\<^verbatim>\<open>priorityQueueWrapper\<close>)\<close>

type_synonym request_queue = "NamespacedName rateLimitingType"

record AddOpts =
  ao_RateLimited :: bool
  ao_After :: Duration

abbreviation on_delaying :: "('k delayingType \<Rightarrow> 'k delayingType) \<Rightarrow> 'k rateLimitingType \<Rightarrow> 'k rateLimitingType" where
  "on_delaying f q \<equiv> q\<lparr>rl_TypedDelayingInterface := f (rl_TypedDelayingInterface q)\<rparr>"

fun AddWithOpts :: "bool \<Rightarrow> Time \<Rightarrow> Duration \<Rightarrow> AddOpts \<Rightarrow> 'k list \<Rightarrow> 'k rateLimitingType \<Rightarrow> 'k rateLimitingType option" where
  "AddWithOpts late now reserved opts [] q = Some q"
| "AddWithOpts late now reserved opts (item # items) q =
     Option.bind
       (if ao_RateLimited opts then AddRateLimited late now reserved item q
        else if ao_After opts > 0 then
          map_option (\<lambda>d. q\<lparr>rl_TypedDelayingInterface := d\<rparr>)
            (AddAfter late now item (ao_After opts) (rl_TypedDelayingInterface q))
        else Some (on_delaying (on_typed (Typed_Add item)) q))
       (AddWithOpts late now reserved opts items)"

text \<open>The priority it answers is always 0 and the handler only passes it back.\<close>

definition GetWithPriority :: "'k rateLimitingType \<Rightarrow> ('k option \<times> 'k rateLimitingType) option" where
  "GetWithPriority q = map_option (\<lambda>r. (fst r, on_delaying (\<lambda>d. d\<lparr>dt_TypedInterface := snd r\<rparr>) q))
     (Typed_Get (dt_TypedInterface (rl_TypedDelayingInterface q)))"

definition queue_Done :: "'k \<Rightarrow> 'k rateLimitingType \<Rightarrow> 'k rateLimitingType" where
  "queue_Done item q = on_delaying (on_typed (Typed_Done item)) q"

subsection \<open>A worker\<close>

text \<open>\<^verbatim>\<open>Controller.Reconcile\<close>: a panic of the reconciler is recovered into an error.\<close>

definition runtime_Reconcile :: "(Result \<times> go_error option) outcome \<Rightarrow> Result \<times> go_error option" where
  "runtime_Reconcile out = (case out of
     Panic r \<Rightarrow> (no_requeue, Some (ErrorString (''panic: '' @ r @ '' [recovered]'')))
   | Returns a \<Rightarrow> a)"

text \<open>
  \<^verbatim>\<open>reconcileHandler\<close>, with the answer of the reconciler as an argument. The program builds no
  terminal errors and leaves \<^verbatim>\<open>Requeue\<close> false, so those two branches are not there. \<open>late\<close> is that of
  \<open>AddAfter\<close>.
\<close>

definition reconcileHandler :: "bool \<Rightarrow> Time \<Rightarrow> Duration \<Rightarrow> NamespacedName \<Rightarrow> (Result \<times> go_error option) outcome \<Rightarrow>
    request_queue \<Rightarrow> request_queue option" where
  "reconcileHandler late now reserved req out q = (case runtime_Reconcile out of
     (result, err) \<Rightarrow>
       if err \<noteq> None then AddWithOpts late now reserved \<lparr>ao_RateLimited = True, ao_After = 0\<rparr> [req] q
       else if res_RequeueAfter result > 0 then
         AddWithOpts late now reserved \<lparr>ao_RateLimited = False, ao_After = res_RequeueAfter result\<rparr> [req]
           (rateLimiting_Forget req q)
       else Some (rateLimiting_Forget req q))"

text \<open>\<open>None\<close> while the worker waits for the queue; the first component tells whether to go on.\<close>

definition processNextWorkItem :: "quantity_parser \<Rightarrow> 's client \<Rightarrow> bool \<times> Time \<times> Duration \<Rightarrow> 's \<times> request_queue \<Rightarrow>
    (bool \<times> 's \<times> request_queue) option" where
  "processNextWorkItem pq api env st = (case GetWithPriority (snd st) of
     None \<Rightarrow> None
   | Some (None, q) \<Rightarrow> Some (False, fst st, q)
   | Some (Some obj, q) \<Rightarrow> (case run_state (Reconcile pq api obj) (fst st) of
       (out, s) \<Rightarrow> map_option (\<lambda>q. (True, s, queue_Done obj q)) (reconcileHandler (fst env) (fst (snd env)) (snd (snd env)) obj out q)))"

text \<open>
  The loop of a worker, \<^verbatim>\<open>for c.processNextWorkItem(ctx) {}\<close>, with what the clock and the token
  bucket answer in each turn, and whether a shutdown overtakes it. Not returning is \<open>None\<close>.
\<close>

partial_function (option) worker_loop :: "quantity_parser \<Rightarrow> 's client \<Rightarrow> (nat \<Rightarrow> bool \<times> Time \<times> Duration) \<Rightarrow> nat \<Rightarrow>
    's \<times> request_queue \<Rightarrow> ('s \<times> request_queue) option" where
  "worker_loop pq api env i st =
     Option.bind (processNextWorkItem pq api (env i) st)
       (\<lambda>r. if fst r then worker_loop pq api env (Suc i) (snd r) else Some (snd r))"

subsection \<open>All of it\<close>

datatype worker = Idle | Taken NamespacedName | Returned NamespacedName "(Result \<times> go_error option) outcome"
  | Handled NamespacedName | Stopped

record 's manager =
  mg_server :: 's
  mg_events :: "NamespacedName set"
  mg_queue :: request_queue
  mg_workers :: "nat \<Rightarrow> worker"

abbreviation delaying :: "'s manager \<Rightarrow> NamespacedName delayingType" where
  "delaying m \<equiv> rl_TypedDelayingInterface (mg_queue m)"

text \<open>
  One step of worker \<open>i\<close>: it takes a request or learns of the shutdown, calls the reconciler,
  decides about the request, marks it done.
\<close>

inductive worker_step :: "quantity_parser \<Rightarrow> 's client \<Rightarrow> ('s \<Rightarrow> cluster) \<Rightarrow> nat \<Rightarrow> 's manager \<Rightarrow> 's manager \<Rightarrow> bool"
  for pq :: quantity_parser and api :: "'s client" and cluster :: "'s \<Rightarrow> cluster" and i :: nat where
  take: "mg_workers m i = Idle \<Longrightarrow> GetWithPriority (mg_queue m) = Some (Some k, q) \<Longrightarrow>
    worker_step pq api cluster i m (m\<lparr>mg_queue := q, mg_workers := (mg_workers m)(i := Taken k)\<rparr>)"
| stop: "mg_workers m i = Idle \<Longrightarrow> GetWithPriority (mg_queue m) = Some (None, q) \<Longrightarrow>
    worker_step pq api cluster i m (m\<lparr>mg_queue := q, mg_workers := (mg_workers m)(i := Stopped)\<rparr>)"
| run: "mg_workers m i = Taken k \<Longrightarrow> run_state (Reconcile pq api k) (mg_server m) = (out, s) \<Longrightarrow>
    worker_step pq api cluster i m (m\<lparr>mg_server := s,
      mg_events := mg_events m \<union> woken (cluster (mg_server m)) (cluster s),
      mg_workers := (mg_workers m)(i := Returned k out)\<rparr>)"
| handle: "mg_workers m i = Returned k out \<Longrightarrow> reconcileHandler late now reserved k out (mg_queue m) = Some q \<Longrightarrow>
    worker_step pq api cluster i m (m\<lparr>mg_queue := q, mg_workers := (mg_workers m)(i := Handled k)\<rparr>)"
| finish: "mg_workers m i = Handled k \<Longrightarrow>
    worker_step pq api cluster i m (m\<lparr>mg_queue := queue_Done k (mg_queue m), mg_workers := (mg_workers m)(i := Idle)\<rparr>)"

text \<open>
  The steps of everything else: others change the stored objects, an event reaches the queue
  (perhaps more than once), the goroutine of the delaying queue receives an entry or adds the
  ready ones, and the process is told to shut down. The goroutine tests for the shutdown only at the
  beginning of a turn, so its steps may come after one; that it soon ends is not used.
\<close>

inductive outer_step :: "('s \<Rightarrow> cluster) \<Rightarrow> 's manager \<Rightarrow> 's manager \<Rightarrow> bool"
  for cluster :: "'s \<Rightarrow> cluster" where
  change: "outer_step cluster m (m\<lparr>mg_server := s,
    mg_events := mg_events m \<union> woken (cluster (mg_server m)) (cluster s)\<rparr>)"
| deliver: "k \<in> mg_events m \<Longrightarrow> E = mg_events m \<or> E = mg_events m - {k} \<Longrightarrow>
    outer_step cluster m (m\<lparr>mg_events := E, mg_queue := on_delaying (on_typed (Typed_Add k)) (mg_queue m)\<rparr>)"
| receive: "outer_step cluster m (m\<lparr>mg_queue := on_delaying (wait_receive now) (mg_queue m)\<rparr>)"
| ready: "outer_step cluster m (m\<lparr>mg_queue := on_delaying (add_ready now) (mg_queue m)\<rparr>)"
| shutdown: "outer_step cluster m (m\<lparr>mg_queue := on_delaying delaying_ShutDown (mg_queue m)\<rparr>)"

definition start_manager :: "('s \<Rightarrow> cluster) \<Rightarrow> 's \<Rightarrow> 's manager" where
  "start_manager cluster s = \<lparr>mg_server = s, mg_events = woken no_objects (cluster s),
     mg_queue = NewTypedRateLimitingQueue, mg_workers = (\<lambda>_. Idle)\<rparr>"

text \<open>Runs with \<open>n\<close> workers, counting the steps the workers make.\<close>

inductive manager_run :: "quantity_parser \<Rightarrow> 's client \<Rightarrow> ('s \<Rightarrow> cluster) \<Rightarrow> nat \<Rightarrow> 's manager \<Rightarrow> nat \<Rightarrow> 's manager \<Rightarrow> bool"
  for pq :: quantity_parser and api :: "'s client" and cluster :: "'s \<Rightarrow> cluster" and n :: nat and m :: "'s manager" where
  begin_run: "manager_run pq api cluster n m 0 m"
| outer: "manager_run pq api cluster n m c m1 \<Longrightarrow> outer_step cluster m1 m2 \<Longrightarrow> manager_run pq api cluster n m c m2"
| work: "manager_run pq api cluster n m c m1 \<Longrightarrow> i < n \<Longrightarrow> worker_step pq api cluster i m1 m2 \<Longrightarrow>
    manager_run pq api cluster n m (Suc c) m2"

inductive_cases worker_stepE: "worker_step pq api cluster i m m'"
inductive_cases outer_stepE: "outer_step cluster m m'"

abbreviation inner :: "'k rateLimitingType \<Rightarrow> 'k delayingType" where
  "inner q \<equiv> rl_TypedDelayingInterface q"

subsection \<open>What each queue operation does to the pending requests\<close>

lemma GetWithPriority_item:
  assumes "GetWithPriority q = Some (Some k, q')" and "delaying_inv (inner q)"
  shows "delaying_inv (inner q')"
    and "k \<in> wq_dirty (dt_TypedInterface (inner q))"
    and "k \<notin> processing (inner q)"
    and "processing (inner q') = insert k (processing (inner q))"
    and "insert k (pending (inner q')) = pending (inner q)"
    and "wq_dirty (dt_TypedInterface (inner q')) =
      wq_dirty (dt_TypedInterface (inner q)) - {k}"
    and "shut (inner q') = shut (inner q)"
    and "dt_stopped (inner q') = dt_stopped (inner q)"
    and "wq_queue (dt_TypedInterface (inner q)) =
      k # wq_queue (dt_TypedInterface (inner q'))"
proof -
  let ?d = "inner q"
  obtain t where t: "Typed_Get (dt_TypedInterface ?d) = Some (Some k, t)"
    and q': "q' = on_delaying (\<lambda>d. d\<lparr>dt_TypedInterface := t\<rparr>) q"
    using assms(1) by (auto simp: GetWithPriority_def)
  note inv = delaying_invD(1) [OF assms(2)]
  note get = Get_item [OF inv t]
  show "delaying_inv (inner q')"
    using delaying_inv_typed [OF assms(2) typed_inv_Get [OF inv t]] by (simp add: q')
  show "insert k (pending (inner q')) = pending ?d"
    using get(1,3) by (auto simp: q' pending_def)
  show "k \<in> wq_dirty (dt_TypedInterface ?d)" "k \<notin> processing ?d"
    "processing (inner q') = insert k (processing ?d)"
    "wq_dirty (dt_TypedInterface (inner q')) = wq_dirty (dt_TypedInterface ?d) - {k}"
    "shut (inner q') = shut ?d"
    "dt_stopped (inner q') = dt_stopped ?d"
    "wq_queue (dt_TypedInterface ?d) = k # wq_queue (dt_TypedInterface (inner q'))"
    using get by (simp_all add: q')
qed

lemma GetWithPriority_none_iff:
  "GetWithPriority q = Some (None, q') \<longleftrightarrow> shut (inner q) \<and>
     wq_queue (dt_TypedInterface (inner q)) = [] \<and> q' = q"
  by (auto simp: GetWithPriority_def Get_shutdown_iff prod_eq_iff)

lemma GetWithPriority_closed:
  "shut (inner q) \<Longrightarrow> \<exists>r q'. GetWithPriority q = Some (r, q')"
  using Get_waits_iff [of "dt_TypedInterface (inner q)"]
  by (cases "Typed_Get (dt_TypedInterface (inner q))") (auto simp: GetWithPriority_def)

lemma Forget_keeps [simp]: "inner (rateLimiting_Forget k q) = inner q"
  by (simp add: rateLimiting_Forget_def)

lemma AddWithOpts_last [simp]: "Option.bind x (AddWithOpts late now reserved opts []) = x"
  by (cases x) simp_all

text \<open>The handler is at most one call of \<^verbatim>\<open>AddAfter\<close>, made exactly when the request is to come back.\<close>

lemma reconcileHandler_adds:
  "\<exists>duration. map_option rl_TypedDelayingInterface (reconcileHandler late now reserved k out q) =
     (if requeued out then AddAfter late now k duration (inner q)
      else Some (inner q))"
proof (cases "requeued out")
  case False
  then obtain res where "out = Returns (res, None)" "\<not> res_RequeueAfter res > 0"
    unfolding not_requeued_iff by blast
  then show ?thesis using False by (simp add: reconcileHandler_def runtime_Reconcile_def)
next
  case True
  obtain res err where r: "runtime_Reconcile out = (res, err)" by force
  show ?thesis
  proof (cases "err = None")
    case noerr: True
    then have "res_RequeueAfter res > 0"
      using True r by (cases out) (auto simp: requeued_def runtime_Reconcile_def)
    then show ?thesis using True r noerr
      by (auto simp: reconcileHandler_def option.map_comp o_def option.map_ident)
  next
    case False
    then show ?thesis using True r
      by (auto simp: reconcileHandler_def AddRateLimited_def Let_def option.map_comp o_def option.map_ident)
  qed
qed

lemma reconcileHandler_keeps:
  assumes "reconcileHandler late now reserved k out q = Some q'" and "delaying_inv (inner q)"
  shows "delaying_inv (inner q')"
    and "\<not> shut (inner q) \<Longrightarrow> \<not> dt_stopped (inner q) \<Longrightarrow>
      pending (inner q') =
      (if requeued out then {k} else {}) \<union> pending (inner q)"
    and "processing (inner q') = processing (inner q)"
    and "shut (inner q') = shut (inner q)"
    and "dt_stopped (inner q') = dt_stopped (inner q)"
    and "shut (inner q) \<Longrightarrow> dt_TypedInterface (inner q') = dt_TypedInterface (inner q)"
proof -
  let ?d = "inner q" and ?d' = "inner q'"
  obtain duration where h: "(if requeued out then AddAfter late now k duration ?d else Some ?d) = Some ?d'"
    using reconcileHandler_adds [of late now reserved k out q] assms(1) by auto
  have "delaying_inv ?d' \<and> processing ?d' = processing ?d \<and> shut ?d' = shut ?d \<and>
    dt_stopped ?d' = dt_stopped ?d \<and> (shut ?d \<longrightarrow> dt_TypedInterface ?d' = dt_TypedInterface ?d) \<and>
    (\<not> shut ?d \<longrightarrow> \<not> dt_stopped ?d \<longrightarrow> pending ?d' = (if requeued out then {k} else {}) \<union> pending ?d)"
  proof (cases "requeued out")
    case True
    with h have "AddAfter late now k duration ?d = Some ?d'" by simp
    note AddAfter_keeps [OF assms(2) this]
    with True show ?thesis by (simp only: if_True) blast
  next
    case False
    with h assms(2) show ?thesis by simp
  qed
  then show "delaying_inv ?d'" "processing ?d' = processing ?d" "shut ?d' = shut ?d" "dt_stopped ?d' = dt_stopped ?d"
    "shut ?d \<Longrightarrow> dt_TypedInterface ?d' = dt_TypedInterface ?d"
    "\<not> shut ?d \<Longrightarrow> \<not> dt_stopped ?d \<Longrightarrow> pending ?d' = (if requeued out then {k} else {}) \<union> pending ?d"
    by blast+
qed

lemma reconcileHandler_closed:
  "shut (inner q) \<Longrightarrow> dt_stopped (inner q) \<Longrightarrow> \<exists>q'. reconcileHandler late now reserved k out q = Some q'"
  using reconcileHandler_adds [of late now reserved k out q] by (auto simp: AddAfter_def Let_def split: if_splits)

lemma queue_Done_keeps:
  shows "delaying_inv (inner q) \<Longrightarrow> k \<in> processing (inner q) \<Longrightarrow>
      delaying_inv (inner (queue_Done k q))"
    and "pending (inner (queue_Done k q)) = pending (inner q)"
    and "processing (inner (queue_Done k q)) = processing (inner q) - {k}"
    and "shut (inner (queue_Done k q)) = shut (inner q)"
    and "dt_stopped (inner (queue_Done k q)) = dt_stopped (inner q)"
    and "wq_dirty (dt_TypedInterface (inner (queue_Done k q))) =
      wq_dirty (dt_TypedInterface (inner q))"
proof -
  show "delaying_inv (inner (queue_Done k q))"
    if "delaying_inv (inner q)" "k \<in> processing (inner q)"
    using that delaying_invD(1) [OF that(1)] by (simp add: queue_Done_def delaying_inv_typed)
qed (simp_all add: queue_Done_def pending_def)

subsection \<open>The invariant of queue and workers\<close>

fun held :: "worker \<Rightarrow> NamespacedName option" where
  "held (Taken k) = Some k"
| "held (Returned k out) = Some k"
| "held (Handled k) = Some k"
| "held w = None"

definition manager_inv :: "nat \<Rightarrow> 's manager \<Rightarrow> bool" where
  "manager_inv n m \<longleftrightarrow> delaying_inv (delaying m) \<and>
     processing (delaying m) = {k. \<exists>i < n. held (mg_workers m i) = Some k} \<and>
     (\<forall>i < n. \<forall>j < n. \<forall>k. held (mg_workers m i) = Some k \<longrightarrow> held (mg_workers m j) = Some k \<longrightarrow> i = j) \<and>
     (dt_stopped (delaying m) \<longleftrightarrow> shut (delaying m)) \<and>
     (\<forall>i < n. mg_workers m i = Stopped \<longrightarrow> shut (delaying m))"

lemma manager_inv_start: "manager_inv n (start_manager cluster s)"
  by (simp add: manager_inv_def start_manager_def NewTypedRateLimitingQueue_def)
    (simp add: newDelayingQueue_def newQueue_def)

lemma manager_inv_outer:
  assumes "outer_step cluster m m'" and "manager_inv n m"
  shows "manager_inv n m'"
proof -
  have d: "delaying_inv (delaying m)" using assms(2) by (simp add: manager_inv_def)
  have t: "delaying_inv (on_typed (Typed_Add k) (delaying m))" for k
    using delaying_inv_typed [OF d] delaying_invD(1) [OF d] by simp
  from assms(1) show ?thesis
  proof (cases rule: outer_step.cases)
    case (receive now)
    with wait_receive_keeps [OF d] assms(2) show ?thesis by (simp add: manager_inv_def)
  next
    case (ready now)
    with add_ready_keeps [OF d] assms(2) show ?thesis by (simp add: manager_inv_def)
  next
    case (deliver k)
    with t assms(2) show ?thesis by (simp add: manager_inv_def)
  next
    case shutdown
    have "dt_stopped (delaying_ShutDown (delaying m)) \<and> shut (delaying_ShutDown (delaying m))"
      using assms(2) by (simp add: delaying_ShutDown_def manager_inv_def)
    with shutdown assms(2) show ?thesis by (simp add: manager_inv_def)
  qed (use assms(2) in \<open>simp add: manager_inv_def\<close>)
qed

text \<open>A worker that keeps its request, or exchanges it when nobody else holds the new one.\<close>

lemma held_update:
  assumes "i < n" and "\<forall>i < n. \<forall>j < n. \<forall>k. held (f i) = Some k \<longrightarrow> held (f j) = Some k \<longrightarrow> i = j"
    and "\<And>k. held w = Some k \<Longrightarrow> held (f i) = Some k \<or> (\<forall>j < n. held (f j) \<noteq> Some k)"
  shows "\<forall>a < n. \<forall>b < n. \<forall>k. held ((f(i := w)) a) = Some k \<longrightarrow> held ((f(i := w)) b) = Some k \<longrightarrow> a = b"
proof (intro allI impI)
  fix a b k
  assume ab: "a < n" "b < n" "held ((f(i := w)) a) = Some k" "held ((f(i := w)) b) = Some k"
  have c: "held w = Some k \<Longrightarrow> c < n \<Longrightarrow> held (f c) = Some k \<Longrightarrow> c = i" for c
    using assms by blast
  show "a = b"
  proof (cases "a = i \<or> b = i")
    case True
    with ab c [of a] c [of b] show ?thesis by (auto split: if_splits)
  next
    case False
    with ab assms(2) show ?thesis by simp
  qed
qed

lemma held_set_update:
  assumes "i < n" and "\<forall>i < n. \<forall>j < n. \<forall>k. held (f i) = Some k \<longrightarrow> held (f j) = Some k \<longrightarrow> i = j"
  shows "{k. \<exists>j < n. held ((f(i := w)) j) = Some k} =
    {k. \<exists>j < n. held (f j) = Some k} - {k. held (f i) = Some k} \<union> {k. held w = Some k}"
proof (intro set_eqI iffI)
  fix k assume "k \<in> {k. \<exists>j < n. held ((f(i := w)) j) = Some k}"
  then obtain j where "j < n" "held ((f(i := w)) j) = Some k" by blast
  with assms show "k \<in> {k. \<exists>j < n. held (f j) = Some k} - {k. held (f i) = Some k} \<union> {k. held w = Some k}"
    by (cases "j = i") auto
next
  fix k assume "k \<in> {k. \<exists>j < n. held (f j) = Some k} - {k. held (f i) = Some k} \<union> {k. held w = Some k}"
  with assms(1) show "k \<in> {k. \<exists>j < n. held ((f(i := w)) j) = Some k}" by force
qed

lemma manager_inv_worker:
  assumes "worker_step pq api cluster i m m'" and "i < n" and "manager_inv n m"
  shows "manager_inv n m'"
proof -
  have inv: "delaying_inv (delaying m)"
      "processing (delaying m) = {k. \<exists>i < n. held (mg_workers m i) = Some k}"
      "\<forall>i < n. \<forall>j < n. \<forall>k. held (mg_workers m i) = Some k \<longrightarrow> held (mg_workers m j) = Some k \<longrightarrow> i = j"
      "dt_stopped (delaying m) \<longleftrightarrow> shut (delaying m)"
      "\<forall>i < n. mg_workers m i = Stopped \<longrightarrow> shut (delaying m)"
    using assms(3) by (simp_all add: manager_inv_def)
  note sets = held_set_update [OF assms(2) inv(3)] and one = held_update [OF assms(2) inv(3)]
  from assms(1) show ?thesis
  proof (cases rule: worker_step.cases)
    case (take k q)
    note g = GetWithPriority_item [OF take(3) inv(1)]
    have free: "\<forall>j < n. held (mg_workers m j) \<noteq> Some k" using g(3) inv(2) by auto
    let ?w = "(mg_workers m)(i := Taken k)"
    have "{k. \<exists>j < n. held (?w j) = Some k} = insert k {k. \<exists>j < n. held (mg_workers m j) = Some k}"
      unfolding sets using take(2) by auto
    moreover have "\<forall>a < n. \<forall>b < n. \<forall>k. held (?w a) = Some k \<longrightarrow> held (?w b) = Some k \<longrightarrow> a = b"
      using free by (intro one) simp
    moreover have "\<forall>i < n. ?w i = Stopped \<longrightarrow> shut (inner q)" using inv(5) g(7) by simp
    ultimately show ?thesis
      using g(1,4,7,8) inv(2,4) unfolding take(1) manager_inv_def by simp
  next
    case (stop q)
    then show ?thesis
      using inv sets [of Stopped] one [of Stopped] unfolding stop(1) manager_inv_def
      by (auto simp: GetWithPriority_none_iff)
  next
    case (run k out s)
    have "held (((mg_workers m)(i := Returned k out)) j) = held (mg_workers m j)" for j using run(2) by simp
    then show ?thesis using inv unfolding run(1) manager_inv_def by simp
  next
    case (handle k out late now reserved q)
    note h = reconcileHandler_keeps [OF handle(3) inv(1)]
    have "held (((mg_workers m)(i := Handled k)) j) = held (mg_workers m j)" for j using handle(2) by simp
    then show ?thesis using h(1,3,4,5) inv unfolding handle(1) manager_inv_def by simp
  next
    case (finish k)
    have "k \<in> processing (delaying m)" using inv(2) finish(2) assms(2) by force
    note f = queue_Done_keeps(1) [OF inv(1) this] queue_Done_keeps(3-5) [of k "mg_queue m"]
    show ?thesis
      using f inv sets [of Idle] one [of Idle] finish(2) unfolding finish(1) manager_inv_def by auto
  qed
qed

lemma manager_run_inv: "manager_run pq api cluster n m c m' \<Longrightarrow> manager_inv n m \<Longrightarrow> manager_inv n m'"
  by (induction rule: manager_run.induct) (auto intro: manager_inv_outer manager_inv_worker)

subsection \<open>The queue and its workers refine the set of pending requests\<close>

fun will_add :: "worker \<Rightarrow> NamespacedName set" where
  "will_add (Taken k) = {k}"
| "will_add (Returned k out) = (if requeued out then {k} else {})"
| "will_add w = {}"

text \<open>
  Where a request can be: in an event on its way, in the queue or among the delayed entries, or
  with a worker that has not called the reconciler yet or is about to add it again.
\<close>

definition outstanding :: "nat \<Rightarrow> 's manager \<Rightarrow> NamespacedName set" where
  "outstanding n m = mg_events m \<union> pending (delaying m) \<union> (\<Union>i < n. will_add (mg_workers m i))"

lemma outstanding_at:
  "i < n \<Longrightarrow> outstanding n m = mg_events m \<union> pending (delaying m) \<union> will_add (mg_workers m i) \<union>
     (\<Union>j \<in> {..<n} - {i}. will_add (mg_workers m j))"
  by (auto simp: outstanding_def)

lemma outstanding_update:
  "i < n \<Longrightarrow> mg_workers m' = (mg_workers m)(i := w) \<Longrightarrow>
   outstanding n m' = mg_events m' \<union> pending (delaying m') \<union> will_add w \<union>
     (\<Union>j \<in> {..<n} - {i}. will_add (mg_workers m j))"
  by (simp add: outstanding_at)

lemma outer_closed: "outer_step cluster m m' \<Longrightarrow> manager_inv n m \<Longrightarrow> shut (delaying m) \<Longrightarrow> shut (delaying m')"
  by (erule outer_stepE) (auto simp: delaying_ShutDown_def manager_inv_def waiting_closed)

lemma worker_closed:
  assumes "worker_step pq api cluster i m m'" and "manager_inv n m"
  shows "shut (delaying m') = shut (delaying m)"
  using assms(1)
proof (cases rule: worker_step.cases)
  case (take k q)
  with GetWithPriority_item(7) [OF take(3)] assms(2) show ?thesis by (simp add: manager_inv_def)
next
  case (handle k out late now reserved q)
  with reconcileHandler_keeps(4) [OF handle(3)] assms(2) show ?thesis by (simp add: manager_inv_def)
qed (simp_all add: GetWithPriority_none_iff queue_Done_keeps(4))

lemma outer_refines:
  assumes "outer_step cluster m m'" and "manager_inv n m" and "\<not> shut (delaying m')" and "Q \<subseteq> outstanding n m"
  shows "mg_server m' = mg_server m \<and> Q \<subseteq> outstanding n m' \<or>
    (\<exists>Q'. system_step pq api cluster (mg_server m, Q) (mg_server m', Q') \<and> Q' \<subseteq> outstanding n m')"
proof -
  have d: "delaying_inv (delaying m)" "\<not> shut (delaying m)"
    using assms(2) outer_closed [OF assms(1,2)] assms(3) by (auto simp: manager_inv_def)
  from assms(1) show ?thesis
  proof (cases rule: outer_step.cases)
    case (change s)
    have "system_step pq api cluster (mg_server m, Q) (s, Q \<union> woken (cluster (mg_server m)) (cluster s))"
      by (rule system_step.outside)
    with assms(4) change show ?thesis by (auto simp: outstanding_def)
  next
    case (deliver k E)
    have "pending (delaying m') = insert k (pending (delaying m))" using Add_pending [OF d(2), of k] deliver(1) by simp
    then have "outstanding n m \<subseteq> outstanding n m'" using deliver(1,3) by (auto simp: outstanding_def)
    with assms(4) deliver(1) show ?thesis by auto
  next
    case (receive now)
    with wait_receive_keeps(2) [OF d] assms(4) show ?thesis by (simp add: outstanding_def)
  next
    case (ready now)
    with add_ready_keeps(2) [OF d] assms(4) show ?thesis by (simp add: outstanding_def)
  next
    case shutdown
    with assms(2,3) show ?thesis by (simp add: delaying_ShutDown_def manager_inv_def split: if_splits)
  qed
qed

lemma worker_refines:
  assumes "worker_step pq api cluster i m m'" and "i < n" and "manager_inv n m" and "\<not> shut (delaying m')"
    and "Q \<subseteq> outstanding n m"
  shows "mg_server m' = mg_server m \<and> Q \<subseteq> outstanding n m' \<or>
    (\<exists>Q'. system_step pq api cluster (mg_server m, Q) (mg_server m', Q') \<and> Q' \<subseteq> outstanding n m')"
proof -
  have d: "delaying_inv (delaying m)" "\<not> shut (delaying m)" "\<not> dt_stopped (delaying m)"
    using assms(3) worker_closed [OF assms(1,3)] assms(4) by (auto simp: manager_inv_def)
  note Q = assms(5) [unfolded outstanding_at [OF assms(2)]] and upd = outstanding_update [OF assms(2), of m' m]
  from assms(1) show ?thesis
  proof (cases rule: worker_step.cases)
    case (take k q)
    note p = GetWithPriority_item(5) [OF take(3) d(1)]
    have "outstanding n m' = mg_events m \<union> pending (inner q) \<union> {k} \<union> (\<Union>j \<in> {..<n} - {i}. will_add (mg_workers m j))"
      using upd [of "Taken k"] take(1) by simp
    then have "Q \<subseteq> outstanding n m'" using Q take(2) unfolding p [symmetric] by simp
    then show ?thesis using take(1) by auto
  next
    case (stop q)
    with d(2) show ?thesis by (simp add: GetWithPriority_none_iff)
  next
    case (run k out s)
    let ?w = "woken (cluster (mg_server m)) (cluster s)"
    have new: "outstanding n m' = mg_events m \<union> ?w \<union> pending (delaying m) \<union> will_add (Returned k out) \<union>
        (\<Union>j \<in> {..<n} - {i}. will_add (mg_workers m j))"
      using upd [of "Returned k out"] run(1) by simp
    show ?thesis
    proof (cases "k \<in> Q")
      case True
      have "system_step pq api cluster (mg_server m, Q)
          (s, Q - {k} \<union> ?w \<union> (if requeued out then {k} else {}))"
        by (rule system_step.work [OF True run(3)])
      moreover have "Q - {k} \<union> ?w \<union> (if requeued out then {k} else {}) \<subseteq> outstanding n m'"
        using Q run(2) unfolding new by auto
      ultimately show ?thesis using run(1) by auto
    next
      case False
      have "system_step pq api cluster (mg_server m, Q) (s, Q \<union> ?w)" by (rule system_step.outside)
      moreover have "Q \<union> ?w \<subseteq> outstanding n m'" using Q False run(2) unfolding new by auto
      ultimately show ?thesis using run(1) by auto
    qed
  next
    case (handle k out late now reserved q)
    note p = reconcileHandler_keeps(2) [OF handle(3) d]
    have "outstanding n m' = mg_events m \<union> pending (inner q) \<union> (\<Union>j \<in> {..<n} - {i}. will_add (mg_workers m j))"
      using upd [of "Handled k"] handle(1) by simp
    then have "Q \<subseteq> outstanding n m'" using Q handle(2) unfolding p by auto
    then show ?thesis using handle(1) by auto
  next
    case (finish k)
    have "Q \<subseteq> outstanding n m'"
      using Q finish(2) upd [of Idle] finish(1) by (simp add: queue_Done_keeps(2))
    then show ?thesis using finish(1) by auto
  qed
qed

lemma manager_refines_system:
  assumes "manager_run pq api cluster n (start_manager cluster s) c m" and "\<not> shut (delaying m)"
  shows "\<exists>Q. reachable pq api cluster (mg_server m, Q) \<and> Q \<subseteq> outstanding n m"
  using assms
proof (induction c m rule: manager_run.induct)
  case begin_run
  have "woken no_objects (cluster s) \<subseteq> outstanding n (start_manager cluster s)"
    by (auto simp: outstanding_def start_manager_def)
  moreover have "reachable pq api cluster (mg_server (start_manager cluster s), woken no_objects (cluster s))"
    unfolding start_manager_def by (simp add: reachable.start)
  ultimately show ?case by blast
next
  case (outer c m1 m2)
  have inv: "manager_inv n m1" using manager_run_inv [OF outer.hyps(1) manager_inv_start] .
  with outer_closed [OF outer.hyps(2)] outer.prems outer.IH obtain Q where
    Q: "reachable pq api cluster (mg_server m1, Q)" "Q \<subseteq> outstanding n m1" by blast
  from outer_refines [OF outer.hyps(2) inv outer.prems Q(2), of pq api] reachable.step [OF Q(1)] Q(1)
  show ?case by auto
next
  case (work c m1 i m2)
  have inv: "manager_inv n m1" using manager_run_inv [OF work.hyps(1) manager_inv_start] .
  with worker_closed [OF work.hyps(3)] work.prems work.IH obtain Q where
    Q: "reachable pq api cluster (mg_server m1, Q)" "Q \<subseteq> outstanding n m1" by blast
  from worker_refines [OF work.hyps(3,2) inv work.prems Q(2)] reachable.step [OF Q(1)] Q(1)
  show ?case by auto
qed

subsection \<open>After the shutdown signal\<close>

fun steps_left :: "worker \<Rightarrow> nat" where
  "steps_left Idle = 1"
| "steps_left (Taken k) = 4"
| "steps_left (Returned k out) = 3"
| "steps_left (Handled k) = 2"
| "steps_left Stopped = 0"

abbreviation dirty :: "'s manager \<Rightarrow> NamespacedName set" where
  "dirty m \<equiv> wq_dirty (dt_TypedInterface (delaying m))"

text \<open>Four steps for every request that is still to be done, and what each worker has to finish.\<close>

definition work_left :: "nat \<Rightarrow> 's manager \<Rightarrow> nat" where
  "work_left n m = 4 * card (dirty m) + (\<Sum>i < n. steps_left (mg_workers m i))"

lemma sum_update:
  "i < (n::nat) \<Longrightarrow> (\<Sum>j < n. g ((f(i := w)) j)) + g (f i) = (\<Sum>j < n. g (f j)) + (g w :: nat)"
proof -
  assume i: "i < n"
  have "(\<Sum>j \<in> {..<n} - {i}. g ((f(i := w)) j)) = (\<Sum>j \<in> {..<n} - {i}. g (f j))" by (rule sum.cong) auto
  with i show ?thesis
    using sum.remove [OF finite_lessThan, of i n "\<lambda>j. g ((f(i := w)) j)"]
      sum.remove [OF finite_lessThan, of i n "\<lambda>j. g (f j)"] by simp
qed

lemma finite_dirty:
  assumes "manager_inv n m"
  shows "finite (dirty m)"
proof -
  have "{k. \<exists>i < n. held (mg_workers m i) = Some k} \<subseteq> (\<lambda>i. the (held (mg_workers m i))) ` {..<n}" by force
  then have "finite (processing (delaying m))" using assms by (auto simp: manager_inv_def intro: finite_subset)
  moreover have "finite (dirty m - processing (delaying m))"
    using delaying_invD(1) assms by (metis List.finite_set manager_inv_def typed_inv_def)
  ultimately show ?thesis by simp
qed

lemma worker_uses_work:
  assumes "worker_step pq api cluster i m m'" and "i < n" and "manager_inv n m" and "shut (delaying m)"
  shows "work_left n m' < work_left n m"
proof -
  note sum = sum_update [OF assms(2), of steps_left "mg_workers m"]
  have d: "delaying_inv (delaying m)" using assms(3) by (simp add: manager_inv_def)
  from assms(1) show ?thesis
  proof (cases rule: worker_step.cases)
    case (take k q)
    note g = GetWithPriority_item(2,6) [OF take(3) d]
    have "card (dirty m - {k}) < card (dirty m)" using g(1) finite_dirty [OF assms(3)] by (meson card_Diff1_less)
    with sum [of "Taken k"] take(1,2) g(2) show ?thesis by (simp add: work_left_def)
  next
    case (stop q)
    with sum [of Stopped] show ?thesis by (simp add: work_left_def GetWithPriority_none_iff)
  next
    case (run k out s)
    with sum [of "Returned k out"] show ?thesis by (simp add: work_left_def)
  next
    case (handle k out late now reserved q)
    with sum [of "Handled k"] reconcileHandler_keeps(6) [OF handle(3) d assms(4)] show ?thesis
      by (simp add: work_left_def)
  next
    case (finish k)
    with sum [of Idle] show ?thesis by (simp add: work_left_def queue_Done_keeps(6))
  qed
qed

lemma outer_after_shutdown:
  assumes "outer_step cluster m m'" and "manager_inv n m" and "shut (delaying m)"
  shows "dt_TypedInterface (delaying m') = dt_TypedInterface (delaying m)" and "mg_workers m' = mg_workers m"
  using assms by (auto elim!: outer_stepE simp: delaying_ShutDown_def manager_inv_def waiting_closed)

lemma shutdown_uses_work:
  assumes "manager_run pq api cluster n m c m'" and "manager_inv n m" and "shut (delaying m)"
  shows "shut (delaying m') \<and> c + work_left n m' \<le> work_left n m"
  using assms
proof (induction c m' rule: manager_run.induct)
  case (outer c m1 m2)
  note inv = manager_run_inv [OF outer.hyps(1) outer.prems(1)]
  with outer outer_after_shutdown [OF outer.hyps(2) inv] show ?case by (simp add: work_left_def)
next
  case (work c m1 i m2)
  note inv = manager_run_inv [OF work.hyps(1) work.prems(1)]
  with work worker_uses_work [OF work.hyps(3,2) inv] worker_closed [OF work.hyps(3) inv] show ?case by simp
qed simp

lemma manager_run_trans:
  assumes "manager_run pq api cluster n m c m1" and "manager_run pq api cluster n m1 c' m2"
  shows "manager_run pq api cluster n m (c' + c) m2"
  using assms(2,1)
proof (induction c' m2 rule: manager_run.induct)
  case (outer c' m1' m2)
  then show ?case using manager_run.outer by blast
next
  case (work c' m1' i m2)
  then show ?case unfolding add_Suc using manager_run.work by blast
qed simp

lemma worker_can_step:
  assumes "shut (delaying m)" and "mg_workers m i \<noteq> Stopped" and "dt_stopped (delaying m)"
  shows "\<exists>m'. worker_step pq api cluster i m m'"
proof (cases "mg_workers m i")
  case Idle
  obtain r q where g: "GetWithPriority (mg_queue m) = Some (r, q)" using GetWithPriority_closed [OF assms(1)] by blast
  then show ?thesis using worker_step.take [OF Idle] worker_step.stop [OF Idle] by (cases r) blast+
next
  case (Taken k)
  obtain out s where "run_state (Reconcile pq api k) (mg_server m) = (out, s)" by force
  with worker_step.run [OF Taken] show ?thesis by blast
next
  case (Returned k out)
  obtain q where "reconcileHandler False 0 0 k out (mg_queue m) = Some q"
    using reconcileHandler_closed [OF assms(1,3)] by blast
  with worker_step.handle [OF Returned] show ?thesis by blast
next
  case (Handled k)
  with worker_step.finish show ?thesis by blast
qed (use assms(2) in simp)

text \<open>The last worker to stop has seen an empty queue.\<close>

lemma all_stopped_queue:
  assumes "manager_run pq api cluster n (start_manager cluster s) c m" and "\<forall>i < n. mg_workers m i = Stopped" and "0 < n"
  shows "wq_queue (dt_TypedInterface (delaying m)) = []"
  using assms(1,2)
proof (induction c m rule: manager_run.induct)
  case begin_run
  then show ?case using assms(3) by (simp add: start_manager_def)
next
  case (outer c m1 m2)
  note inv = manager_run_inv [OF outer.hyps(1) manager_inv_start]
  have w: "mg_workers m2 = mg_workers m1" using outer.hyps(2) by (rule outer_stepE) simp_all
  then have "shut (delaying m1)" using inv outer.prems assms(3) by (auto simp: manager_inv_def)
  with outer_after_shutdown [OF outer.hyps(2) inv] outer w show ?case by simp
next
  case (work c m1 i m2)
  from work.hyps(3) show ?case
  proof (cases rule: worker_step.cases)
    case (stop q)
    then show ?thesis by (simp add: GetWithPriority_none_iff)
  qed (use work.prems work.hyps(2) in auto)
qed

subsection \<open>One turn of the loop after the shutdown signal\<close>

lemma worker_loop_end:
  assumes "shut (inner q)" and "wq_queue (dt_TypedInterface (inner q)) = []"
  shows "worker_loop pq api env i (s, q) = Some (s, q)"
  using assms by (subst worker_loop.simps) (simp add: processNextWorkItem_def GetWithPriority_none_iff [THEN iffD2])

lemma worker_loop_turn:
  assumes "delaying_inv (inner q)" and "shut (inner q)" and "dt_stopped (inner q)"
    and "wq_queue (dt_TypedInterface (inner q)) = k # ks"
  obtains q' where "worker_loop pq api env i (s, q) = worker_loop pq api env (Suc i) (snd (run_state (Reconcile pq api k) s), q')"
    and "delaying_inv (inner q')" and "shut (inner q')" and "dt_stopped (inner q')" and "wq_queue (dt_TypedInterface (inner q')) = ks"
    and "processing (inner q') = processing (inner q)"
    and "wq_dirty (dt_TypedInterface (inner q')) = wq_dirty (dt_TypedInterface (inner q)) - {k}"
    and "k \<notin> processing (inner q)"
proof -
  obtain q1 where g: "GetWithPriority q = Some (Some k, q1)"
    using assms(4) by (simp add: GetWithPriority_def Typed_Get_def)
  note g1 = GetWithPriority_item [OF g assms(1)]
  obtain out s1 where r: "run_state (Reconcile pq api k) s = (out, s1)" by force
  have c: "shut (inner q1)" "dt_stopped (inner q1)" using g1(7,8) assms(2,3) by simp_all
  then obtain q2 where h: "reconcileHandler (fst (env i)) (fst (snd (env i))) (snd (snd (env i))) k out q1 = Some q2"
    using reconcileHandler_closed by blast
  note h2 = reconcileHandler_keeps [OF h g1(1)]
  note t = h2(6) [OF c(1)]
  let ?q = "queue_Done k q2"
  have kd: "k \<notin> wq_dirty (dt_TypedInterface (inner q1))" "k \<in> processing (inner q1)" using g1(4,6) by auto
  show thesis
  proof (rule that [of ?q])
    show "worker_loop pq api env i (s, q) = worker_loop pq api env (Suc i) (snd (run_state (Reconcile pq api k) s), ?q)"
      using g r h by (subst worker_loop.simps) (simp add: processNextWorkItem_def)
    show "wq_queue (dt_TypedInterface (inner ?q)) = ks"
      using kd g1(9) assms(4) by (simp add: queue_Done_def t Typed_Done_def Let_def)
    show "delaying_inv (inner ?q)" "shut (inner ?q)" "dt_stopped (inner ?q)"
      using queue_Done_keeps(1) [of q2 k] queue_Done_keeps(4,5) [of k q2] h2(1,5) t kd(2) c by simp_all
    show "processing (inner ?q) = processing (inner q)"
      using queue_Done_keeps(3) [of k q2] t g1(3,4) by auto
    show "wq_dirty (dt_TypedInterface (inner ?q)) = wq_dirty (dt_TypedInterface (inner q)) - {k}"
      using queue_Done_keeps(6) [of k q2] t g1(6) by simp
    show "k \<notin> processing (inner q)" by (rule g1(3))
  qed
qed

lemma worker_loop_drains:
  assumes "delaying_inv (inner q)" and "shut (inner q)" and "dt_stopped (inner q)"
  shows "\<exists>q'. worker_loop pq api env i (s, q) =
      Some (fold (\<lambda>k s. snd (run_state (Reconcile pq api k) s)) (wq_queue (dt_TypedInterface (inner q))) s, q') \<and>
    wq_queue (dt_TypedInterface (inner q')) = [] \<and> processing (inner q') = processing (inner q) \<and>
    wq_dirty (dt_TypedInterface (inner q')) = wq_dirty (dt_TypedInterface (inner q)) \<inter> processing (inner q)"
  using assms
proof (induction "wq_queue (dt_TypedInterface (inner q))" arbitrary: i s q)
  case Nil
  then have "wq_dirty (dt_TypedInterface (inner q)) \<subseteq> processing (inner q)"
    using delaying_invD(1) [OF Nil.prems(1)] by (simp add: typed_inv_def)
  with worker_loop_end [OF Nil.prems(2), of pq api env i s] Nil.hyps show ?case by auto
next
  case (Cons k ks)
  obtain q1 where q1: "worker_loop pq api env i (s, q) =
        worker_loop pq api env (Suc i) (snd (run_state (Reconcile pq api k) s), q1)"
      "delaying_inv (inner q1)" "shut (inner q1)" "dt_stopped (inner q1)" "wq_queue (dt_TypedInterface (inner q1)) = ks"
      "processing (inner q1) = processing (inner q)"
      "wq_dirty (dt_TypedInterface (inner q1)) = wq_dirty (dt_TypedInterface (inner q)) - {k}" "k \<notin> processing (inner q)"
    using worker_loop_turn [OF Cons.prems Cons.hyps(2) [symmetric]] by metis
  have "wq_dirty (dt_TypedInterface (inner q1)) \<inter> processing (inner q1) =
      wq_dirty (dt_TypedInterface (inner q)) \<inter> processing (inner q)"
    using q1(6,7,8) by auto
  with Cons.hyps(1) [OF q1(5) [symmetric] q1(2,3,4), of "Suc i" "snd (run_state (Reconcile pq api k) s)"] q1(1,5,6)
  show ?case by (simp add: Cons.hyps(2) [symmetric])
qed

end
