(* ===== verification/Interference.thy ===== *)
theory Interference
  imports Reconcile_Contract
begin

section \<open>Reconciliation while others write\<close>

text \<open>
  The controller is not alone: users, the REST server, the RBG operator and the garbage
  collector write between any two calls of one reconciliation. And it does not see the server
  itself: the client of the manager (\<^verbatim>\<open>mgr.GetClient()\<close> in \<^verbatim>\<open>cmd/main.go\<close>) answers reads from
  a cache that the watches fill, which may lag behind, also behind the controller's own writes.

  Because every operation of the program takes its client as an argument, both are a matter of the
  client: \<open>interfering\<close> takes the next step of a script, lets the others act, performs the call
  and logs the states before and after it. A write goes to the server; a read is answered from any
  state the server has been in, chosen by the script. Reading the clock is not a call.

  The one law of the API server used (\<open>versions_ok\<close>) is that, over all states of the run, a
  resource version of an object stands for one specification. The result is that a reconciliation
  loses no update, however it is interleaved and however stale the cache is.
\<close>

type_synonym 's script = "(('s \<Rightarrow> 's) \<times> nat) list"
type_synonym 's interleaving = "'s \<times> 's list \<times> 's script \<times> ('s \<times> 's) list"

definition others_act :: "'s script \<Rightarrow> 's \<Rightarrow> 's" where
  "others_act script s = (case script of [] \<Rightarrow> s | (f, _) # _ \<Rightarrow> f s)"

definition cache_shows :: "'s script \<Rightarrow> 's \<Rightarrow> 's list \<Rightarrow> 's" where
  "cache_shows script s past = (case script of
     [] \<Rightarrow> s
   | (_, n) # _ \<Rightarrow> if n < length (s # past) then (s # past) ! n else s)"

definition interleaved :: "('s, 'a) state \<Rightarrow> ('s interleaving, 'a) state" where
  "interleaved m = State (\<lambda>(s, past, script, calls).
     let s1 = others_act script s in
     case run_state m s1 of (x, s2) \<Rightarrow> (x, s2, s2 # s1 # past, tl script, (s1, s2) # calls))"

definition cached :: "('s, 'a) state \<Rightarrow> ('s interleaving, 'a) state" where
  "cached m = State (\<lambda>(s, past, script, calls).
     let s1 = others_act script s in
     (fst (run_state m (cache_shows script s1 past)), s1, s1 # past, tl script, (s1, s1) # calls))"

definition clocked :: "('s, 'a) state \<Rightarrow> ('s interleaving, 'a) state" where
  "clocked m = State (\<lambda>(s, past, script, calls). case run_state m s of (x, s2) \<Rightarrow> (x, s2, s2 # past, script, calls))"

definition interfering :: "'s client \<Rightarrow> 's interleaving client" where
  "interfering api = \<lparr>
     Get_PDIS = (\<lambda>k. cached (Get_PDIS api k)),
     Get_Profile = (\<lambda>k. cached (Get_Profile api k)),
     Get_RBG = (\<lambda>k. cached (Get_RBG api k)),
     List_PDIS = (\<lambda>ns. cached (List_PDIS api ns)),
     List_Profile = (\<lambda>ns. cached (List_Profile api ns)),
     Create_PDIS = (\<lambda>p. interleaved (Create_PDIS api p)),
     Create_Profile = (\<lambda>f. interleaved (Create_Profile api f)),
     Create_RBG = (\<lambda>g. interleaved (Create_RBG api g)),
     Update_PDIS = (\<lambda>p. interleaved (Update_PDIS api p)),
     Update_Profile = (\<lambda>f. interleaved (Update_Profile api f)),
     Update_RBG = (\<lambda>g. interleaved (Update_RBG api g)),
     Status_Update_PDIS = (\<lambda>p. interleaved (Status_Update_PDIS api p)),
     Delete_PDIS = (\<lambda>p. interleaved (Delete_PDIS api p)),
     Delete_Profile = (\<lambda>f. interleaved (Delete_Profile api f)),
     Now = clocked (Now api)\<rparr>"

lemma interfering_calls [simp]:
  "Get_PDIS (interfering api) k = cached (Get_PDIS api k)"
  "Get_Profile (interfering api) k = cached (Get_Profile api k)"
  "Get_RBG (interfering api) k = cached (Get_RBG api k)"
  "Create_RBG (interfering api) g = interleaved (Create_RBG api g)"
  "Update_PDIS (interfering api) p = interleaved (Update_PDIS api p)"
  "Update_RBG (interfering api) g = interleaved (Update_RBG api g)"
  "Status_Update_PDIS (interfering api) p = interleaved (Status_Update_PDIS api p)"
  "Now (interfering api) = clocked (Now api)"
  by (simp_all add: interfering_def)

lemma cache_shows_past: "cache_shows script s past \<in> insert s (set past)"
  by (auto simp: cache_shows_def nth_Cons' split: list.split)

text \<open>The law of resource versions, over the states the server has been in.\<close>

definition versions_ok :: "('s \<Rightarrow> cluster) \<Rightarrow> 's set \<Rightarrow> bool" where
  "versions_ok cluster A \<longleftrightarrow> (\<forall>a \<in> A. \<forall>b \<in> A. \<forall>k.
     (\<forall>p q. cl_pdis (cluster a) k = Some p \<longrightarrow> cl_pdis (cluster b) k = Some q \<longrightarrow>
        om_ResourceVersion (pd_ObjectMeta q) = om_ResourceVersion (pd_ObjectMeta p) \<longrightarrow> pd_Spec q = pd_Spec p) \<and>
     (\<forall>g h. cl_rbgs (cluster a) k = Some g \<longrightarrow> cl_rbgs (cluster b) k = Some h \<longrightarrow>
        om_ResourceVersion (rbg_ObjectMeta h) = om_ResourceVersion (rbg_ObjectMeta g) \<longrightarrow> rbg_Spec h = rbg_Spec g))"

lemma versions_ok_mono: "versions_ok cluster B \<Longrightarrow> A \<subseteq> B \<Longrightarrow> versions_ok cluster A"
  unfolding versions_ok_def by blast

lemma version_pdis:
  assumes "versions_ok cluster A" and "a \<in> A" "b \<in> A"
    and "cl_pdis (cluster a) k = Some p" and "cl_pdis (cluster b) k = Some q"
    and "om_ResourceVersion (pd_ObjectMeta q) = om_ResourceVersion (pd_ObjectMeta p)"
  shows "pd_Spec q = pd_Spec p"
  using assms unfolding versions_ok_def by blast

lemma version_rbg:
  assumes "versions_ok cluster A" and "a \<in> A" "b \<in> A"
    and "cl_rbgs (cluster a) k = Some g" and "cl_rbgs (cluster b) k = Some h"
    and "om_ResourceVersion (rbg_ObjectMeta h) = om_ResourceVersion (rbg_ObjectMeta g)"
  shows "rbg_Spec h = rbg_Spec g"
  using assms unfolding versions_ok_def by blast

text \<open>
  What one call may do to what others wrote: it creates no service and changes no
  specification of one (beyond mutating admission), touches no profile, and of a stored group
  it replaces the role list only.
\<close>

definition keeps_foreign :: "(PDInferenceServiceSpec \<Rightarrow> PDInferenceServiceSpec) \<Rightarrow> cluster \<Rightarrow> cluster \<Rightarrow> bool" where
  "keeps_foreign admit c c' \<longleftrightarrow> cl_profiles c' = cl_profiles c \<and>
     (\<forall>k q. cl_pdis c' k = Some q \<longrightarrow>
        (\<exists>p. cl_pdis c k = Some p \<and> (pd_Spec q = pd_Spec p \<or> pd_Spec q = admit (pd_Spec p)))) \<and>
     (\<forall>k g h. cl_rbgs c k = Some g \<longrightarrow> cl_rbgs c' k = Some h \<longrightarrow>
        rbg_Status h = rbg_Status g \<and> rbg_Spec h = (rbg_Spec g)\<lparr>rgs_Roles := rgs_Roles (rbg_Spec h)\<rparr>)"

lemma keeps_foreign_refl [simp]: "keeps_foreign admit c c"
  by (simp add: keeps_foreign_def)

lemma keeps_foreign_pdis:
  assumes "only_pdis k c c'"
    and "\<And>q. cl_pdis c' k = Some q \<Longrightarrow>
      \<exists>p. cl_pdis c k = Some p \<and> (pd_Spec q = pd_Spec p \<or> pd_Spec q = admit (pd_Spec p))"
  shows "keeps_foreign admit c c'"
  unfolding keeps_foreign_def
proof (intro conjI allI impI)
  fix j q assume "cl_pdis c' j = Some q"
  then show "\<exists>p. cl_pdis c j = Some p \<and> (pd_Spec q = pd_Spec p \<or> pd_Spec q = admit (pd_Spec p))"
    using assms by (cases "j = k") (auto simp: only_pdis_def)
qed (use assms(1) in \<open>auto simp: only_pdis_def\<close>)

lemma keeps_foreign_rbg:
  assumes "only_rbg k c c'"
    and "\<And>g h. cl_rbgs c k = Some g \<Longrightarrow> cl_rbgs c' k = Some h \<Longrightarrow>
      rbg_Status h = rbg_Status g \<and> rbg_Spec h = (rbg_Spec g)\<lparr>rgs_Roles := rgs_Roles (rbg_Spec h)\<rparr>"
  shows "keeps_foreign admit c c'"
  unfolding keeps_foreign_def
proof (intro conjI allI impI)
  fix j g h assume j: "cl_rbgs c j = Some g" "cl_rbgs c' j = Some h"
  have "rbg_Status h = rbg_Status g \<and> rbg_Spec h = (rbg_Spec g)\<lparr>rgs_Roles := rgs_Roles (rbg_Spec h)\<rparr>"
  proof (cases "j = k")
    case True
    with assms(2) j show ?thesis by blast
  next
    case False
    with assms(1) j have "h = g" by (simp add: only_rbg_def)
    then show ?thesis by simp
  qed
  then show "rbg_Status h = rbg_Status g" "rbg_Spec h = (rbg_Spec g)\<lparr>rgs_Roles := rgs_Roles (rbg_Spec h)\<rparr>"
    by blast+
qed (use assms(1) in \<open>auto simp: only_rbg_def\<close>)

subsection \<open>Triples over interleaved programs\<close>

text \<open>
  A triple speaks of the states the server has been in before and after a program, and says that
  every call of the program is in the relation \<open>K\<close>. Its precondition is typically that an object
  was stored in one of the states.
\<close>

abbreviation good_calls :: "('s \<Rightarrow> cluster) \<Rightarrow> (cluster \<Rightarrow> cluster \<Rightarrow> bool) \<Rightarrow> ('s \<times> 's) list \<Rightarrow> bool" where
  "good_calls cluster K calls \<equiv> list_all (\<lambda>(b, a). K (cluster b) (cluster a)) calls"

definition triple :: "('s \<Rightarrow> cluster) \<Rightarrow> (cluster \<Rightarrow> cluster \<Rightarrow> bool) \<Rightarrow>
    ('s set \<Rightarrow> bool) \<Rightarrow> ('s interleaving, 'a) state \<Rightarrow> ('a \<Rightarrow> 's set \<Rightarrow> bool) \<Rightarrow> bool" where
  "triple cluster K P m Q \<longleftrightarrow> (\<forall>s past script calls x s' past' script' calls'.
     run_state m (s, past, script, calls) = (x, s', past', script', calls') \<longrightarrow>
     set past \<subseteq> set past' \<and>
     (P (set past) \<longrightarrow> versions_ok cluster (set past') \<longrightarrow> good_calls cluster K calls \<longrightarrow>
        Q x (set past') \<and> good_calls cluster K calls'))"

lemma triple_return: "(\<And>A. P A \<Longrightarrow> Q x A) \<Longrightarrow> triple cluster K P (State_Monad.return x) Q"
  by (simp add: triple_def)

lemma triple_bind:
  assumes "triple cluster K P m R" and "\<And>x. triple cluster K (R x) (f x) Q"
  shows "triple cluster K P (State_Monad.bind m f) Q"
  unfolding triple_def
proof (intro allI impI)
  fix s past script calls y s' past' script' calls'
  assume r: "run_state (State_Monad.bind m f) (s, past, script, calls) = (y, s', past', script', calls')"
  obtain x s1 past1 script1 calls1 where
    m: "run_state m (s, past, script, calls) = (x, s1, past1, script1, calls1)" by (metis prod_cases5)
  with r have f: "run_state (f x) (s1, past1, script1, calls1) = (y, s', past', script', calls')" by simp
  note 1 = assms(1) [unfolded triple_def, rule_format, OF m]
    and 2 = assms(2) [unfolded triple_def, rule_format, OF f]
  show "set past \<subseteq> set past' \<and>
     (P (set past) \<longrightarrow> versions_ok cluster (set past') \<longrightarrow> good_calls cluster K calls \<longrightarrow>
        Q y (set past') \<and> good_calls cluster K calls')"
    using 1 2 versions_ok_mono [of cluster "set past'" "set past1"] by blast
qed

lemma triple_weaken:
  assumes "triple cluster K P m Q" and "\<And>A. P' A \<Longrightarrow> P A" and "\<And>x A. Q x A \<Longrightarrow> Q' x A"
  shows "triple cluster K P' m Q'"
  using assms unfolding triple_def by blast

text \<open>A call to the server after an action of somebody else, and a read from the cache.\<close>

lemma triple_call:
  assumes "\<And>A s x s'. P A \<Longrightarrow> versions_ok cluster (insert s (insert s' A)) \<Longrightarrow> run_state m s = (x, s') \<Longrightarrow>
      K (cluster s) (cluster s')"
  shows "triple cluster K P (interleaved m) (\<lambda>_ _. True)"
  unfolding triple_def
proof (intro allI impI)
  fix s past script calls x s' past' script' calls'
  assume "run_state (interleaved m) (s, past, script, calls) = (x, s', past', script', calls')"
  then have r: "run_state m (others_act script s) = (x, s')" "past' = s' # others_act script s # past"
      "calls' = (others_act script s, s') # calls"
    by (auto simp: interleaved_def Let_def split: prod.splits)
  then show "set past \<subseteq> set past' \<and>
     (P (set past) \<longrightarrow> versions_ok cluster (set past') \<longrightarrow> good_calls cluster K calls \<longrightarrow>
        True \<and> good_calls cluster K calls')"
    using assms [OF _ _ r(1), of "set past"] by (auto simp: insert_commute)
qed

lemma triple_read:
  assumes "\<And>c. K c c" and "\<And>A c x c'. c \<in> A \<Longrightarrow> run_state m c = (x, c') \<Longrightarrow> Q x A"
  shows "triple cluster K P (cached m) Q"
  unfolding triple_def
proof (intro allI impI)
  fix s past script calls x s' past' script' calls'
  assume "run_state (cached m) (s, past, script, calls) = (x, s', past', script', calls')"
  then have r: "x = fst (run_state m (cache_shows script (others_act script s) past))"
      "past' = others_act script s # past" "calls' = (others_act script s, others_act script s) # calls"
    by (auto simp: cached_def Let_def)
  then show "set past \<subseteq> set past' \<and>
     (P (set past) \<longrightarrow> versions_ok cluster (set past') \<longrightarrow> good_calls cluster K calls \<longrightarrow>
        Q x (set past') \<and> good_calls cluster K calls')"
    using assms(1) assms(2) [OF _ prod.collapse [symmetric], of "cache_shows script (others_act script s) past" "set past'"]
      cache_shows_past [of script "others_act script s" past] by auto
qed

abbreviation any_past :: "'s set \<Rightarrow> bool" where
  "any_past \<equiv> \<lambda>_. True"
abbreviation any_answer :: "'a \<Rightarrow> 's set \<Rightarrow> bool" where
  "any_answer \<equiv> \<lambda>_ _. True"

text \<open>An object was stored at some time.\<close>

definition pdis_seen :: "('s \<Rightarrow> cluster) \<Rightarrow> PDInferenceService \<Rightarrow> 's set \<Rightarrow> bool" where
  "pdis_seen cluster p A \<longleftrightarrow> (\<exists>c \<in> A. cl_pdis (cluster c) (pdis_key p) = Some p)"

definition rbg_seen :: "('s \<Rightarrow> cluster) \<Rightarrow> RoleBasedGroup \<Rightarrow> 's set \<Rightarrow> bool" where
  "rbg_seen cluster g A \<longleftrightarrow> (\<exists>c \<in> A. cl_rbgs (cluster c) (rbg_key g) = Some g)"

context kube_versioned
begin

lemma call_now: "triple cluster (keeps_foreign admit) any_past (clocked (Now api)) any_answer"
  by (auto simp: triple_def clocked_def split: prod.splits)

lemma call_get_profile: "triple cluster (keeps_foreign admit) any_past (cached (Get_Profile api k)) any_answer"
  by (rule triple_read [OF keeps_foreign_refl]) simp

lemma call_get_pdis:
  "triple cluster (keeps_foreign admit) any_past (cached (Get_PDIS api k)) (\<lambda>r A. \<forall>p. r = Inr p \<longrightarrow> pdis_seen cluster p A)"
  by (rule triple_read [OF keeps_foreign_refl]) (auto simp: pdis_seen_def dest!: get_pdis_found)

lemma call_get_rbg:
  "triple cluster (keeps_foreign admit) any_past (cached (Get_RBG api k)) (\<lambda>r A. \<forall>g. r = Inr g \<longrightarrow> rbg_seen cluster g A)"
  by (rule triple_read [OF keeps_foreign_refl]) (auto simp: rbg_seen_def dest!: get_rbg_found)

lemma call_create_rbg: "triple cluster (keeps_foreign admit) any_past (interleaved (Create_RBG api g)) any_answer"
  by (rule triple_call)
     (auto dest: create_rbg_existing intro!: keeps_foreign_rbg [OF create_rbg_frame])

lemma call_status_update: "triple cluster (keeps_foreign admit) any_past (interleaved (Status_Update_PDIS api p)) any_answer"
  by (rule triple_call)
     (auto dest: status_update_versioned intro!: keeps_foreign_pdis [OF status_update_pdis_frame])

text \<open>An update is safe when it sends back what was read, but for metadata.\<close>

lemma call_update_pdis:
  assumes "pdis_key p' = pdis_key p" and "pd_Spec p' = pd_Spec p"
    and "om_ResourceVersion (pd_ObjectMeta p') = om_ResourceVersion (pd_ObjectMeta p)"
  shows "triple cluster (keeps_foreign admit) (pdis_seen cluster p) (interleaved (Update_PDIS api p')) any_answer"
proof (rule triple_call)
  fix A s r s'
  assume p: "pdis_seen cluster p A" and v: "versions_ok cluster (insert s (insert s' A))"
    and u: "run_state (Update_PDIS api p') s = (r, s')"
  from p obtain c where c: "c \<in> insert s (insert s' A)" "cl_pdis (cluster c) (pdis_key p) = Some p"
    by (auto simp: pdis_seen_def)
  show "keeps_foreign admit (cluster s) (cluster s')"
  proof (rule keeps_foreign_pdis [OF update_pdis_frame [OF u]])
    fix q assume "cl_pdis (cluster s') (pdis_key p') = Some q"
    from update_pdis_versioned [OF u this]
    show "\<exists>old. cl_pdis (cluster s) (pdis_key p') = Some old \<and>
        (pd_Spec q = pd_Spec old \<or> pd_Spec q = admit (pd_Spec old))"
      using version_pdis [OF v c(1) _ c(2), of s] assms by auto
  qed
qed

lemma call_update_rbg:
  "triple cluster (keeps_foreign admit) (rbg_seen cluster g) (interleaved (Update_RBG api (with_roles g roles))) any_answer"
proof (rule triple_call)
  fix A s r s'
  assume g: "rbg_seen cluster g A" and v: "versions_ok cluster (insert s (insert s' A))"
    and u: "run_state (Update_RBG api (with_roles g roles)) s = (r, s')"
  from g obtain c where c: "c \<in> insert s (insert s' A)" "cl_rbgs (cluster c) (rbg_key g) = Some g"
    by (auto simp: rbg_seen_def)
  show "keeps_foreign admit (cluster s) (cluster s')"
  proof (rule keeps_foreign_rbg [OF update_rbg_frame [OF u]])
    fix old h assume h: "cl_rbgs (cluster s) (rbg_key (with_roles g roles)) = Some old"
      "cl_rbgs (cluster s') (rbg_key (with_roles g roles)) = Some h"
    from update_rbg_versioned [OF u h(2)] h(1)
    consider "h = old" | "om_ResourceVersion (rbg_ObjectMeta old) = om_ResourceVersion (rbg_ObjectMeta g)"
      "rbg_Spec h = rbg_Spec (with_roles g roles)" "rbg_Status h = rbg_Status old" by auto
    then show "rbg_Status h = rbg_Status old \<and> rbg_Spec h = (rbg_Spec old)\<lparr>rgs_Roles := rgs_Roles (rbg_Spec h)\<rparr>"
    proof cases
      case 2
      with version_rbg [OF v c(1) _ c(2), of s old] h(1) show ?thesis by (simp add: with_roles_def)
    qed simp
  qed
qed

subsubsection \<open>The program\<close>

lemma triple_Resolve: "triple cluster (keeps_foreign admit) any_past (Resolve (interfering api) p) any_answer"
  unfolding Resolve_def
  by (auto intro!: triple_return triple_bind [OF call_get_profile] split: sum.split)

lemma triple_setFailedStatus: "triple cluster (keeps_foreign admit) any_past (setFailedStatus (interfering api) p r m) any_answer"
  unfolding setFailedStatus_def by (auto intro!: triple_return triple_bind [OF call_status_update])

lemma triple_writeStatus: "triple cluster (keeps_foreign admit) any_past (writeStatus (interfering api) g p) any_answer"
  unfolding writeStatus_def
  by (auto intro!: triple_return triple_bind [OF call_now] triple_bind [OF call_status_update] split: sum.split)

lemma triple_top: "triple cluster (keeps_foreign admit) any_past m any_answer \<Longrightarrow> triple cluster (keeps_foreign admit) P m any_answer"
  by (rule triple_weaken) simp_all

lemma triple_syncStatus: "triple cluster (keeps_foreign admit) any_past (syncStatus (interfering api) p) any_answer"
  unfolding syncStatus_def
  by (auto intro!: triple_return triple_bind [OF call_get_rbg] triple_top [OF triple_writeStatus] split: sum.split)

lemma triple_applyRBG: "triple cluster (keeps_foreign admit) any_past (applyRBG (interfering api) p d) any_answer"
  unfolding applyRBG_def interfering_calls
proof (rule triple_bind [OF call_get_rbg])
  fix r
  show "triple cluster (keeps_foreign admit) (\<lambda>A. \<forall>g. r = Inr g \<longrightarrow> rbg_seen cluster g A)
      (case r of
         Inl err \<Rightarrow> if IsNotFound err
           then do { c \<leftarrow> interleaved (Create_RBG api d); State_Monad.return (err_of c) }
           else State_Monad.return (Some (WrapError ''get RBG: '' err))
       | Inr existing \<Rightarrow> do {
           u \<leftarrow> interleaved (Update_RBG api (with_roles existing (rgs_Roles (rbg_Spec d))));
           State_Monad.return (err_of u)
         }) any_answer"
  proof (cases r)
    case (Inl e)
    then show ?thesis
      by (auto intro!: triple_return triple_bind [OF triple_top [OF call_create_rbg]])
  next
    case (Inr g)
    have "triple cluster (keeps_foreign admit) (rbg_seen cluster g)
        (do { u \<leftarrow> interleaved (Update_RBG api (with_roles g (rgs_Roles (rbg_Spec d))));
              State_Monad.return (err_of u) }) any_answer"
      by (rule triple_bind [OF call_update_rbg]) (simp add: triple_return)
    then show ?thesis using Inr by simp
  qed
qed

lemma triple_returning: "triple cluster (keeps_foreign admit) P m any_answer \<Longrightarrow> triple cluster (keeps_foreign admit) P (returning m) any_answer"
  unfolding returning_def by (erule triple_bind) (simp add: triple_return)

lemma triple_applyAndSync: "triple cluster (keeps_foreign admit) any_past (applyAndSync (interfering api) p d) any_answer"
  unfolding applyAndSync_def
  by (auto intro!: triple_return triple_syncStatus triple_bind [OF triple_applyRBG] split: option.split)

lemma triple_reconcileLive: "triple cluster (keeps_foreign admit) any_past (reconcileLive pq (interfering api) p) any_answer"
  unfolding reconcileLive_def
  by (auto intro!: triple_bind [OF triple_Resolve] triple_return triple_returning triple_setFailedStatus
      triple_applyAndSync split: sum.split outcome.split)

lemma triple_ensureFinalizer:
  "triple cluster (keeps_foreign admit) (pdis_seen cluster p) (ensureFinalizer (interfering api) p) any_answer"
  unfolding ensureFinalizer_def interfering_calls
  by (auto intro!: triple_return call_update_pdis)

lemma triple_handleDeletion:
  "triple cluster (keeps_foreign admit) (pdis_seen cluster p) (handleDeletion (interfering api) p) any_answer"
  unfolding handleDeletion_def interfering_calls
  by (auto intro!: triple_return triple_bind [OF call_update_pdis] split: sum.split)

lemma triple_Reconcile: "triple cluster (keeps_foreign admit) any_past (Reconcile pq (interfering api) k) any_answer"
  unfolding Reconcile_def interfering_calls
proof (rule triple_bind [OF call_get_pdis])
  fix r
  show "triple cluster (keeps_foreign admit) (\<lambda>A. \<forall>p. r = Inr p \<longrightarrow> pdis_seen cluster p A)
      (case r of
         Inl err \<Rightarrow> State_Monad.return (Returns (no_requeue, IgnoreNotFound err))
       | Inr pdis \<Rightarrow>
           if \<not> Time_IsZero (om_DeletionTimestamp (pd_ObjectMeta pdis))
           then returning (handleDeletion (interfering api) pdis)
           else do {
             f \<leftarrow> ensureFinalizer (interfering api) pdis;
             (case f of
                Inl err \<Rightarrow> State_Monad.return (Returns (no_requeue, Some err))
              | Inr pdis \<Rightarrow> reconcileLive pq (interfering api) pdis)
           }) any_answer"
  proof (cases r)
    case (Inr p)
    then show ?thesis
      by (auto intro!: triple_returning triple_handleDeletion triple_bind [OF triple_ensureFinalizer]
          triple_return triple_reconcileLive split: sum.split)
  qed (simp add: triple_return)
qed

lemma interleaved_keeps_foreign:
  assumes "run_state (Reconcile pq (interfering api) k) (s, past, script, []) = (out, s', past', script', calls)"
    and "versions_ok cluster (set past')" and "(b, a) \<in> set calls"
  shows "keeps_foreign admit (cluster b) (cluster a)"
  using triple_Reconcile [unfolded triple_def, rule_format, OF assms(1)] assms(2,3)
  by (auto simp: list_all_iff)

end

subsection \<open>The number of calls\<close>

text \<open>No program of the controller loops over calls: each makes a bounded number, whatever it is answered.\<close>

definition calls_at_most :: "nat \<Rightarrow> ('s interleaving, 'a) state \<Rightarrow> bool" where
  "calls_at_most n m \<longleftrightarrow> (\<forall>s past script calls x s' past' script' calls'.
     run_state m (s, past, script, calls) = (x, s', past', script', calls') \<longrightarrow> length calls' \<le> length calls + n)"

lemma calls_return: "calls_at_most n (State_Monad.return x)"
  by (simp add: calls_at_most_def)

lemma calls_bind:
  assumes "calls_at_most i m" and "\<And>x. calls_at_most j (f x)" and "i + j \<le> n"
  shows "calls_at_most n (State_Monad.bind m f)"
  unfolding calls_at_most_def
proof (intro allI impI)
  fix s past script calls y s' past' script' calls'
  assume r: "run_state (State_Monad.bind m f) (s, past, script, calls) = (y, s', past', script', calls')"
  obtain x s1 past1 script1 calls1 where
    m: "run_state m (s, past, script, calls) = (x, s1, past1, script1, calls1)" by (metis prod_cases5)
  with r have f: "run_state (f x) (s1, past1, script1, calls1) = (y, s', past', script', calls')" by simp
  show "length calls' \<le> length calls + n"
    using assms(1) [unfolded calls_at_most_def, rule_format, OF m]
      assms(2) [unfolded calls_at_most_def, rule_format, OF f] assms(3) by linarith
qed

lemma calls_one: "1 \<le> n \<Longrightarrow> calls_at_most n (interleaved m)" "1 \<le> n \<Longrightarrow> calls_at_most n (cached m)"
  by (auto simp: calls_at_most_def interleaved_def cached_def Let_def split: prod.splits)

lemma calls_clock: "calls_at_most n (clocked m)"
  by (auto simp: calls_at_most_def clocked_def split: prod.splits)

lemma calls_syncStatus: "calls_at_most 2 (syncStatus (interfering api) p)"
proof -
  have "calls_at_most 1 (writeStatus (interfering api) g p)" for g
    unfolding writeStatus_def interfering_calls
    by (intro calls_bind [OF calls_clock [of 0]]) (auto intro!: calls_bind [where i = "Suc 0" and j = 0]
        calls_one calls_return split: sum.split)
  then show ?thesis
    unfolding syncStatus_def interfering_calls
    by (auto intro!: calls_bind [where i = "Suc 0" and j = "Suc 0" and n = 2] calls_one calls_return split: sum.split)
qed

lemma calls_applyAndSync: "calls_at_most 4 (applyAndSync (interfering api) p d)"
proof -
  have "calls_at_most 2 (applyRBG (interfering api) p d)"
    unfolding applyRBG_def interfering_calls
    by (auto intro!: calls_bind [where i = "Suc 0" and j = "Suc 0" and n = 2]
        calls_bind [where i = "Suc 0" and j = 0 and n = "Suc 0"] calls_one calls_return split: sum.split)
  then show ?thesis
    unfolding applyAndSync_def
    by (auto intro!: calls_bind [where i = 2 and j = 2 and n = 4] calls_return calls_syncStatus split: option.split)
qed

lemma calls_returning: "calls_at_most n m \<Longrightarrow> calls_at_most n (returning m)"
  unfolding returning_def by (rule calls_bind [where i = n and j = 0]) (simp_all add: calls_return)

lemma calls_reconcileLive: "calls_at_most 5 (reconcileLive pq (interfering api) p)"
proof -
  have "calls_at_most 1 (Resolve (interfering api) p)"
    unfolding Resolve_def interfering_calls
    by (auto intro!: calls_bind [where i = "Suc 0" and j = 0 and n = "Suc 0"] calls_one calls_return split: sum.split)
  moreover have "calls_at_most 4 (setFailedStatus (interfering api) p r m)" for r m
    unfolding setFailedStatus_def interfering_calls
    by (auto intro!: calls_bind [where i = 1 and j = 0 and n = 4] calls_one calls_return)
  ultimately show ?thesis
    unfolding reconcileLive_def
    by (auto intro!: calls_bind [where i = "Suc 0" and j = 4 and n = 5] calls_return calls_returning
        calls_applyAndSync split: sum.split outcome.split)
qed

lemma calls_Reconcile: "calls_at_most 7 (Reconcile pq (interfering api) k)"
proof -
  have "calls_at_most 1 (ensureFinalizer (interfering api) p)" for p
    unfolding ensureFinalizer_def interfering_calls by (auto intro!: calls_one calls_return)
  moreover have "calls_at_most 6 (handleDeletion (interfering api) p)" for p
    unfolding handleDeletion_def interfering_calls
    by (auto intro!: calls_bind [where i = 1 and j = 0 and n = 6] calls_one calls_return split: sum.split)
  ultimately show ?thesis
    unfolding Reconcile_def interfering_calls
    by (auto intro!: calls_bind [where i = "Suc 0" and j = 6 and n = 7]
        calls_bind [where i = "Suc 0" and j = 5 and n = 6] calls_one calls_return calls_returning
        calls_reconcileLive split: sum.split)
qed

end
