(* ===== verification/Rest_Interference.thy ===== *)
theory Rest_Interference
  imports Interference Rest_Api
begin

section \<open>Scaling requests while others write\<close>

text \<open>
  A PUT request reads a service and writes it back with other replica counts; the reconciler, other
  requests and users may write in between. The logic of \<open>Interference\<close> applies to the handler as it
  does to the reconciler, with another relation on the calls. The handler's reader bypasses the cache
  (\<^verbatim>\<open>mgr.GetAPIReader()\<close> in \<^verbatim>\<open>cmd/main.go\<close>); its reads are those of scripts that choose the
  current state, and the result does not depend on it.
\<close>

definition scales_only :: "(PDInferenceServiceSpec \<Rightarrow> PDInferenceServiceSpec) \<Rightarrow> cluster \<Rightarrow> cluster \<Rightarrow> bool" where
  "scales_only admit c c' \<longleftrightarrow> cl_profiles c' = cl_profiles c \<and> cl_rbgs c' = cl_rbgs c \<and>
     (\<forall>k q. cl_pdis c' k = Some q \<longrightarrow> (\<exists>p. cl_pdis c k = Some p \<and> (pd_Spec q = pd_Spec p \<or>
        (\<exists>spec. pd_Spec q = admit spec \<and> clear_replicas spec = clear_replicas (pd_Spec p)))))"

lemma scales_only_refl: "scales_only admit c c"
  by (auto simp: scales_only_def)

lemma scales_only_pdis:
  assumes "only_pdis k c c'"
    and "\<And>q. cl_pdis c' k = Some q \<Longrightarrow> \<exists>p. cl_pdis c k = Some p \<and> (pd_Spec q = pd_Spec p \<or>
      (\<exists>spec. pd_Spec q = admit spec \<and> clear_replicas spec = clear_replicas (pd_Spec p)))"
  shows "scales_only admit c c'"
  unfolding scales_only_def
proof (intro conjI allI impI)
  fix j q assume "cl_pdis c' j = Some q"
  then show "\<exists>p. cl_pdis c j = Some p \<and> (pd_Spec q = pd_Spec p \<or>
      (\<exists>spec. pd_Spec q = admit spec \<and> clear_replicas spec = clear_replicas (pd_Spec p)))"
    using assms by (cases "j = k") (auto simp: only_pdis_def)
qed (use assms(1) in \<open>auto simp: only_pdis_def\<close>)

context kube_versioned
begin

lemma call_scale:
  assumes "clear_replicas spec = clear_replicas (pd_Spec p)"
  shows "triple cluster (scales_only admit) (pdis_seen cluster p) (interleaved (Update_PDIS api (p\<lparr>pd_Spec := spec\<rparr>))) any_answer"
proof (rule triple_call)
  fix A s r s'
  assume p: "pdis_seen cluster p A" and v: "versions_ok cluster (insert s (insert s' A))"
    and u: "run_state (Update_PDIS api (p\<lparr>pd_Spec := spec\<rparr>)) s = (r, s')"
  from p obtain c where c: "c \<in> insert s (insert s' A)" "cl_pdis (cluster c) (pdis_key p) = Some p"
    by (auto simp: pdis_seen_def)
  show "scales_only admit (cluster s) (cluster s')"
  proof (rule scales_only_pdis [OF update_pdis_frame [OF u]])
    fix q assume "cl_pdis (cluster s') (pdis_key (p\<lparr>pd_Spec := spec\<rparr>)) = Some q"
    from update_pdis_versioned [OF u this]
    show "\<exists>old. cl_pdis (cluster s) (pdis_key (p\<lparr>pd_Spec := spec\<rparr>)) = Some old \<and> (pd_Spec q = pd_Spec old \<or>
        (\<exists>spec. pd_Spec q = admit spec \<and> clear_replicas spec = clear_replicas (pd_Spec old)))"
      using version_pdis [OF v c(1) _ c(2), of s] assms by auto
  qed
qed

lemma triple_Update:
  "triple cluster (scales_only admit) any_past (Update dec (New (interfering api) (interfering api)) name body) any_answer"
proof -
  have fetch: "triple cluster (scales_only admit) any_past (cached (Get_PDIS api k))
      (\<lambda>r A. \<forall>p. r = Inr p \<longrightarrow> pdis_seen cluster p A)" for k
    by (rule triple_read [OF scales_only_refl]) (auto simp: pdis_seen_def dest!: get_pdis_found)
  have store: "triple cluster (scales_only admit) (pdis_seen cluster q)
      (do { u \<leftarrow> interleaved (Update_PDIS api (q\<lparr>pd_Spec := setReplicas req (pd_Spec q)\<rparr>));
            (case u of
               Inl err \<Rightarrow> State_Monad.return (http_Error (Error err) StatusInternalServerError)
             | Inr updated \<Rightarrow> State_Monad.return (write_json StatusOK (JsonPDIS updated))) }) any_answer" for q req
    by (rule triple_bind [OF call_scale])
       (auto simp: setReplicas_effect intro!: triple_return split: sum.split)
  show ?thesis
    unfolding Update_def New_fields interfering_calls
    by (auto intro!: triple_return triple_bind [OF fetch] store split: sum.split)
qed

lemma interleaved_scales_only:
  assumes "run_state (Update dec (New (interfering api) (interfering api)) name body) (s, past, script, []) =
      (rp, s', past', script', calls)"
    and "versions_ok cluster (set past')" and "(b, a) \<in> set calls"
  shows "scales_only admit (cluster b) (cluster a)"
  using triple_Update [unfolded triple_def, rule_format, OF assms(1)] assms(2,3)
  by (auto simp: list_all_iff)

end

end
