(* ===== verification/Admission.thy ===== *)
theory Admission
  imports Webhook Fake_Client
begin

section \<open>A server that calls the webhooks\<close>

text \<open>
  The webhooks are registered for creations and updates of services, not for their status
  subresource and not for deletions (the \<^verbatim>\<open>+kubebuilder:webhook\<close> markers of
  \<^verbatim>\<open>pdinferenceservice_webhook.go\<close>). \<open>admitting\<close> puts them in front of a server: a creation
  or an update is defaulted, validated, and passed on when accepted. \<open>denied\<close> is what the
  server makes of a refusal.

  The client interfaces carry over: when they hold of a server without webhooks, they hold of
  the server with them, with the defaulter as mutating admission and an invariant that says
  that every stored service is defaulted. So what is proved of reconciliations and REST
  requests over the interfaces holds with the webhooks switched on, in particular that no
  update of the controller is ever refused.
\<close>

subsection \<open>Admission\<close>

definition mutate :: "PDInferenceService \<Rightarrow> PDInferenceService" where
  "mutate p = (case Default (PDISObject p) of Inr (PDISObject p') \<Rightarrow> p' | _ \<Rightarrow> p)"

definition admitted_create :: "(go_error \<Rightarrow> go_error) \<Rightarrow> 's client \<Rightarrow> PDInferenceService \<Rightarrow>
    ('s, go_error + PDInferenceService) state" where
  "admitted_create denied api p = do {
     let p' = mutate p;
     e \<leftarrow> ValidateCreate api (PDISObject p');
     (case e of
        Some err \<Rightarrow> State_Monad.return (Inl (denied err))
      | None \<Rightarrow> Create_PDIS api p')
   }"

definition admitted_update :: "(go_error \<Rightarrow> go_error) \<Rightarrow> 's client \<Rightarrow> PDInferenceService \<Rightarrow>
    ('s, go_error + PDInferenceService) state" where
  "admitted_update denied api p = do {
     r \<leftarrow> Get_PDIS api (pdis_key p);
     (case r of
        Inl err \<Rightarrow> State_Monad.return (Inl err)
      | Inr old \<Rightarrow>
          (let p' = mutate p in
           case ValidateUpdate (PDISObject old) (PDISObject p') of
             Some err \<Rightarrow> State_Monad.return (Inl (denied err))
           | None \<Rightarrow> Update_PDIS api p'))
   }"

definition admitting :: "(go_error \<Rightarrow> go_error) \<Rightarrow> 's client \<Rightarrow> 's client" where
  "admitting denied api = api\<lparr>Create_PDIS := admitted_create denied api, Update_PDIS := admitted_update denied api\<rparr>"

lemma admitting_calls [simp]:
  "Create_PDIS (admitting denied api) = admitted_create denied api"
  "Update_PDIS (admitting denied api) = admitted_update denied api"
  "Get_PDIS (admitting denied api) = Get_PDIS api"
  "Get_Profile (admitting denied api) = Get_Profile api"
  "Get_RBG (admitting denied api) = Get_RBG api"
  "List_PDIS (admitting denied api) = List_PDIS api"
  "List_Profile (admitting denied api) = List_Profile api"
  "Create_Profile (admitting denied api) = Create_Profile api"
  "Create_RBG (admitting denied api) = Create_RBG api"
  "Update_Profile (admitting denied api) = Update_Profile api"
  "Update_RBG (admitting denied api) = Update_RBG api"
  "Status_Update_PDIS (admitting denied api) = Status_Update_PDIS api"
  "Delete_PDIS (admitting denied api) = Delete_PDIS api"
  "Delete_Profile (admitting denied api) = Delete_Profile api"
  "Now (admitting denied api) = Now api"
  by (simp_all add: admitting_def)

lemma mutate_fields [simp]:
  "pd_ObjectMeta (mutate p) = pd_ObjectMeta p" "pd_Spec (mutate p) = defaultSpec (pd_Spec p)"
  by (simp_all add: mutate_def Default_def)

text \<open>The outcomes of an admitted write.\<close>

lemma admitted_create_cases:
  assumes "run_state (admitted_create denied api p) s = (r, s')"
  obtains (refused) err where "r = Inl (denied err)" and "s' = snd (run_state (ValidateCreate api (PDISObject (mutate p))) s)"
  | (passed) s1 where "run_state (ValidateCreate api (PDISObject (mutate p))) s = (None, s1)"
      and "run_state (Create_PDIS api (mutate p)) s1 = (r, s')"
  using assms by (auto simp: admitted_create_def Let_def split: prod.splits option.splits)

lemma admitted_update_cases:
  assumes "run_state (admitted_update denied api p) s = (r, s')"
  obtains (failed) x err where "run_state (Get_PDIS api (pdis_key p)) s = (x, s')" and "r = Inl err"
  | (passed) old s1 where "run_state (Get_PDIS api (pdis_key p)) s = (Inr old, s1)"
      and "frozen (defaultSpec (pd_Spec p)) = frozen (pd_Spec old)"
      and "run_state (Update_PDIS api (mutate p)) s1 = (r, s')"
proof (cases "run_state (Get_PDIS api (pdis_key p)) s")
  case (Pair x s1)
  show thesis
  proof (cases x)
    case (Inl e)
    with assms Pair show thesis by (auto simp: admitted_update_def intro: failed)
  next
    case (Inr old)
    show thesis
    proof (cases "ValidateUpdate (PDISObject old) (PDISObject (mutate p))")
      case None
      with assms Pair Inr show thesis
        by (intro passed [of old s1]) (auto simp: admitted_update_def Let_def ValidateUpdate_frozen)
    next
      case (Some e)
      with assms Pair Inr show thesis by (auto simp: admitted_update_def Let_def intro: failed)
    qed
  qed
qed

definition all_defaulted :: "cluster \<Rightarrow> bool" where
  "all_defaulted c \<longleftrightarrow> (\<forall>k p. cl_pdis c k = Some p \<longrightarrow> defaulted (pd_Spec p))"

lemma all_defaulted_same: "cl_pdis c' = cl_pdis c \<Longrightarrow> all_defaulted c' = all_defaulted c"
  by (simp add: all_defaulted_def)

lemma all_defaulted_at:
  assumes "only_pdis k c c'" and "all_defaulted c"
    and "\<And>q. cl_pdis c' k = Some q \<Longrightarrow> defaulted (pd_Spec q)"
  shows "all_defaulted c'"
  unfolding all_defaulted_def
proof (intro allI impI)
  fix j q assume "cl_pdis c' j = Some q"
  with assms show "defaulted (pd_Spec q)" by (cases "j = k") (auto simp: all_defaulted_def only_pdis_def)
qed

subsection \<open>The interfaces carry over\<close>

text \<open>
  A server without webhooks: it stores specifications as sent. Two more laws say what a
  creation and a deletion leave under their key, whatever they answer.
\<close>

locale kube_plain = kube_rest api cluster "\<lambda>spec. spec" ok + kube_versioned api cluster "\<lambda>spec. spec"
  for api :: "'s client" and cluster :: "'s \<Rightarrow> cluster" and ok :: "'s \<Rightarrow> bool" +
  fixes denied :: "go_error \<Rightarrow> go_error"
  assumes create_pdis_leaves: "run_state (Create_PDIS api p) s = (r, s') \<Longrightarrow>
          cl_pdis (cluster s') (pdis_key p) = Some q \<Longrightarrow>
          cl_pdis (cluster s) (pdis_key p) = Some q \<or>
          cl_pdis (cluster s) (pdis_key p) = None \<and> pd_Spec q = pd_Spec p"
    and delete_pdis_leaves: "run_state (Delete_PDIS api p) s = (e, s') \<Longrightarrow>
          cl_pdis (cluster s') (pdis_key p) = Some q \<Longrightarrow>
          \<exists>old. cl_pdis (cluster s) (pdis_key p) = Some old \<and> pd_Spec q = pd_Spec old"
begin

abbreviation ok_defaulted :: "'s \<Rightarrow> bool" where
  "ok_defaulted s \<equiv> ok s \<and> all_defaulted (cluster s)"

lemma get_profile_keeps: "ok s \<Longrightarrow> ok (snd (run_state (Get_Profile api k) s))"
  using get_profile_stored [of s k] get_profile_absent [of s k]
  by (cases "cl_profiles (cluster s) k") auto

lemma get_pdis_keeps: "ok s \<Longrightarrow> ok (snd (run_state (Get_PDIS api k) s))"
  using get_pdis_stored [of s k] get_pdis_absent [of s k]
  by (cases "cl_pdis (cluster s) k") auto

lemma validate_frame:
  "cluster (snd (run_state (ValidateCreate api (PDISObject p)) s)) = cluster s"
  "ok s \<Longrightarrow> ok (snd (run_state (ValidateCreate api (PDISObject p)) s))"
  unfolding ValidateCreate_asks using get_profile_frame [OF prod.collapse [symmetric]] get_profile_keeps by auto

text \<open>Creations.\<close>

lemma create_admitted_frame:
  assumes "run_state (admitted_create denied api p) s = (r, s')"
  shows "only_pdis (pdis_key p) (cluster s) (cluster s')"
  using assms
proof (cases rule: admitted_create_cases)
  case (passed s1)
  with validate_frame(1) [of "mutate p" s] create_pdis_frame [OF passed(2)] show ?thesis by simp
qed (simp add: validate_frame only_pdis_def)

lemma create_admitted_ok:
  assumes "run_state (admitted_create denied api p) s = (Inr p', s')"
  shows "cl_pdis (cluster s) (pdis_key p) = None \<and>
    cluster s' = (cluster s)\<lparr>cl_pdis := (cl_pdis (cluster s))(pdis_key p \<mapsto> p')\<rparr> \<and>
    same_identity (pd_ObjectMeta p) (pd_ObjectMeta p') \<and>
    om_DeletionTimestamp (pd_ObjectMeta p') = None \<and> pd_Spec p' = defaultSpec (pd_Spec p)"
  using assms
proof (cases rule: admitted_create_cases)
  case (passed s1)
  with validate_frame(1) [of "mutate p" s] create_pdis_ok [OF passed(2)] show ?thesis by simp
qed simp

lemma create_admitted_keeps:
  assumes "ok_defaulted s"
  shows "ok_defaulted (snd (run_state (admitted_create denied api p) s))"
proof (cases "run_state (admitted_create denied api p) s")
  case (Pair r s')
  from Pair show ?thesis
  proof (cases rule: admitted_create_cases)
    case (refused err)
    with Pair assms show ?thesis by (simp add: validate_frame)
  next
    case (passed s1)
    then have s1: "cluster s1 = cluster s" "ok s1"
      using validate_frame(1) [of "mutate p" s] validate_frame(2) [of s "mutate p"] assms by auto
    have "all_defaulted (cluster s')"
    proof (rule all_defaulted_at [OF create_admitted_frame [OF Pair]])
      fix q assume "cl_pdis (cluster s') (pdis_key p) = Some q"
      with create_pdis_leaves [OF passed(2), of q] s1(1) assms show "defaulted (pd_Spec q)"
        by (auto simp: all_defaulted_def defaultSpec_defaulted)
    qed (use assms in simp)
    moreover have "ok s'" using rest_keeps_ok(1) [OF s1(2), of "mutate p"] passed(2) by simp
    ultimately show ?thesis using Pair by simp
  qed
qed

text \<open>Updates.\<close>

lemma update_admitted_frame:
  assumes "run_state (admitted_update denied api p) s = (r, s')"
  shows "only_pdis (pdis_key p) (cluster s) (cluster s')"
  using assms
proof (cases rule: admitted_update_cases)
  case (passed old s1)
  with get_pdis_frame [OF passed(1)] update_pdis_frame [OF passed(3)] show ?thesis by simp
qed (auto dest: get_pdis_frame simp: only_pdis_def)

lemma update_admitted_passed:
  assumes "run_state (admitted_update denied api p) s = (Inr p', s')"
  obtains s1 where "cluster s1 = cluster s" and "run_state (Update_PDIS api (mutate p)) s1 = (Inr p', s')"
  using assms
proof (cases rule: admitted_update_cases)
  case (passed old s1)
  with get_pdis_frame [OF passed(1)] that show ?thesis by simp
qed simp

lemma update_admitted_leaves:
  assumes "run_state (admitted_update denied api p) s = (r, s')"
    and "cl_pdis (cluster s') (pdis_key p) = Some q"
  shows "cl_pdis (cluster s) (pdis_key p) = Some q \<or>
    (\<exists>old. cl_pdis (cluster s) (pdis_key p) = Some old \<and>
       om_ResourceVersion (pd_ObjectMeta old) = om_ResourceVersion (pd_ObjectMeta p) \<and>
       pd_Spec q = defaultSpec (pd_Spec p) \<and> frozen (pd_Spec q) = frozen (pd_Spec old))"
  using assms(1)
proof (cases rule: admitted_update_cases)
  case (failed x e)
  with get_pdis_frame [OF failed(1)] assms(2) show ?thesis by simp
next
  case (passed old s1)
  from get_pdis_frame [OF passed(1)] get_pdis_found [OF passed(1)]
    update_pdis_versioned [OF passed(3), of q] assms(2) passed(2)
  show ?thesis by auto
qed

lemma update_admitted_keeps:
  assumes "ok_defaulted s"
  shows "ok_defaulted (snd (run_state (admitted_update denied api p) s))"
proof (cases "run_state (admitted_update denied api p) s")
  case (Pair r s')
  have "all_defaulted (cluster s')"
  proof (rule all_defaulted_at [OF update_admitted_frame [OF Pair]])
    fix q assume "cl_pdis (cluster s') (pdis_key p) = Some q"
    from update_admitted_leaves [OF Pair this] assms show "defaulted (pd_Spec q)"
      by (auto simp: all_defaulted_def defaultSpec_defaulted)
  qed (use assms in simp)
  moreover from Pair have "ok s'"
  proof (cases rule: admitted_update_cases)
    case (failed x e)
    with get_pdis_keeps [of s "pdis_key p"] assms show ?thesis by simp
  next
    case (passed old s1)
    with get_pdis_keeps [of s "pdis_key p"] rest_keeps_ok(2) [of s1 "mutate p"] assms show ?thesis by simp
  qed
  ultimately show ?thesis using Pair by simp
qed

text \<open>An update of a stored, defaulted service that keeps its specification is not refused.\<close>

lemma update_admitted_accepted:
  assumes "ok_defaulted s" and "cl_pdis (cluster s) (pdis_key p) = Some old"
    and "pd_ObjectMeta p = (pd_ObjectMeta old)\<lparr>om_Finalizers := om_Finalizers (pd_ObjectMeta p)\<rparr>"
    and "pd_Spec p = pd_Spec old"
  shows "\<exists>p' s'. run_state (admitted_update denied api p) s = (Inr p', s') \<and> ok_defaulted s'"
proof -
  from get_pdis_stored [of s "pdis_key p" old] assms(1,2) obtain s1 where
      g: "run_state (Get_PDIS api (pdis_key p)) s = (Inr old, s1)" "ok s1" by blast
  have d: "defaultSpec (pd_Spec p) = pd_Spec old"
    using assms(1,2,4) by (auto simp: all_defaulted_def defaultSpec_id)
  from get_pdis_frame [OF g(1)] assms(2-4) d obtain p' s' where
      u: "run_state (Update_PDIS api (mutate p)) s1 = (Inr p', s')"
    using update_pdis_accepted [OF g(2), of "mutate p" old] by auto
  have "ValidateUpdate (PDISObject old) (PDISObject (mutate p)) = None"
    using d by (simp add: ValidateUpdate_frozen)
  with g(1) u have r: "run_state (admitted_update denied api p) s = (Inr p', s')"
    by (simp add: admitted_update_def Let_def)
  with update_admitted_keeps [OF assms(1), of p] show ?thesis by auto
qed

end

text \<open>The laws of the calls that are passed through.\<close>

sublocale kube_plain \<subseteq> webhooks: kube_reader "admitting denied api" cluster
  by (unfold_locales, unfold admitting_calls)
     (fact now_frame get_pdis_frame get_pdis_found get_pdis_missing get_profile_frame get_profile_found
        get_profile_missing get_rbg_frame get_rbg_found get_rbg_missing)+

sublocale kube_plain \<subseteq> webhooks: kube_writer "admitting denied api" cluster defaultSpec
proof (unfold_locales, unfold admitting_calls, goal_cases)
  case (7 p s p' s')
  from 7(1) obtain s1 where "cluster s1 = cluster s" "run_state (Update_PDIS api (mutate p)) s1 = (Inr p', s')"
    by (rule update_admitted_passed)
  with update_pdis_ok [of "mutate p" s1 p' s'] 7(2) show ?case by simp
next
  case (8 p s p' s')
  from 8(1) obtain s1 where "cluster s1 = cluster s" "run_state (Update_PDIS api (mutate p)) s1 = (Inr p', s')"
    by (rule update_admitted_passed)
  with update_pdis_gone [of "mutate p" s1 p' s'] 8(2) show ?case by simp
qed (fact create_rbg_frame update_rbg_frame update_admitted_frame status_update_pdis_frame create_rbg_ok
    update_rbg_ok status_update_pdis_ok)+

sublocale kube_plain \<subseteq> webhooks: kube_versioned "admitting denied api" cluster defaultSpec
proof (unfold_locales, unfold admitting_calls, goal_cases)
  case (1 p s r s' q)
  from update_admitted_leaves [OF this] show ?case by blast
qed (fact status_update_versioned update_rbg_versioned create_rbg_existing)+

context kube_plain
begin

lemma defaulted_pdis_kept:
  "all_defaulted (cluster s) \<Longrightarrow> cl_pdis (cluster s') = cl_pdis (cluster s) \<Longrightarrow> all_defaulted (cluster s')"
  by (simp add: all_defaulted_def)

lemma defaulted_frames:
  assumes "all_defaulted (cluster s)"
  shows "cluster s' = cluster s \<Longrightarrow> all_defaulted (cluster s')"
    and "only_rbg k (cluster s) (cluster s') \<Longrightarrow> all_defaulted (cluster s')"
    and "only_profile k (cluster s) (cluster s') \<Longrightarrow> all_defaulted (cluster s')"
  using assms by (simp_all add: all_defaulted_def only_rbg_def only_profile_def)

lemma status_keeps_defaulted:
  assumes "all_defaulted (cluster s)" and "run_state (Status_Update_PDIS api p) s = (r, s')"
  shows "all_defaulted (cluster s')"
proof (rule all_defaulted_at [OF status_update_pdis_frame [OF assms(2)] assms(1)])
  fix q assume "cl_pdis (cluster s') (pdis_key p) = Some q"
  from status_update_versioned [OF assms(2) this] assms(1) show "defaulted (pd_Spec q)"
    by (auto simp: all_defaulted_def)
qed

lemma delete_keeps_defaulted:
  assumes "all_defaulted (cluster s)" and "run_state (Delete_PDIS api p) s = (e, s')"
  shows "all_defaulted (cluster s')"
proof (rule all_defaulted_at [OF delete_pdis_frame [OF assms(2)] assms(1)])
  fix q assume "cl_pdis (cluster s') (pdis_key p) = Some q"
  from delete_pdis_leaves [OF assms(2) this] assms(1) show "defaulted (pd_Spec q)"
    by (auto simp: all_defaulted_def)
qed

lemma keeps_defaulted:
  assumes "ok_defaulted s"
  shows "ok_defaulted (snd (run_state (Delete_PDIS api p) s))"
    and "ok_defaulted (snd (run_state (Create_Profile api f) s))"
    and "ok_defaulted (snd (run_state (Update_Profile api f) s))"
    and "ok_defaulted (snd (run_state (Delete_Profile api f) s))"
  using assms rest_keeps_ok(3-6) [of s] delete_keeps_defaulted [OF _ prod.collapse [symmetric], of s p]
    defaulted_frames(3) [OF _ create_profile_frame [OF prod.collapse [symmetric]], of s f]
    defaulted_frames(3) [OF _ update_profile_frame [OF prod.collapse [symmetric]], of s f]
    defaulted_frames(3) [OF _ delete_profile_frame [OF prod.collapse [symmetric]], of s f]
  by simp_all

end

sublocale kube_plain \<subseteq> webhooks: kube_reliable "admitting denied api" cluster defaultSpec
    "\<lambda>s. ok s \<and> all_defaulted (cluster s)"
proof (unfold_locales, unfold admitting_calls, goal_cases)
  case (1 s)
  with now_total [of s] show ?case by (metis now_frame)
next
  case (2 s k p)
  with get_pdis_stored [of s k p] show ?case by (metis get_pdis_frame)
next
  case (3 s k f)
  with get_profile_stored [of s k f] show ?case by (metis get_profile_frame)
next
  case (4 s k)
  with get_profile_absent [of s k] show ?case by (metis get_profile_frame)
next
  case (5 s k g)
  with get_rbg_stored [of s k g] show ?case by (metis get_rbg_frame)
next
  case (6 s k)
  with get_rbg_absent [of s k] show ?case by (metis get_rbg_frame)
next
  case (7 s k p)
  with stored_named [of s k p] show ?case by simp
next
  case (8 s g)
  with create_rbg_accepted [of s g] show ?case by (metis create_rbg_frame defaulted_frames(2))
next
  case (9 s g h)
  with update_rbg_accepted [of s g h] show ?case by (metis update_rbg_frame defaulted_frames(2))
next
  case (10 s p old)
  then show ?case by (rule update_admitted_accepted)
next
  case (11 s p old)
  with status_update_accepted [of s p old] show ?case by (metis status_keeps_defaulted)
qed

sublocale kube_plain \<subseteq> webhooks: kube_rest "admitting denied api" cluster defaultSpec
    "\<lambda>s. ok s \<and> all_defaulted (cluster s)"
proof (unfold_locales, unfold admitting_calls, goal_cases)
  case (3 s ns)
  with list_pdis_total [of s ns] show ?case by (metis list_pdis_frame)
next
  case (4 s ns)
  with list_profile_total [of s ns] show ?case by (metis list_profile_frame)
next
  case (5 s k)
  with get_pdis_absent [of s k] show ?case by (metis get_pdis_frame)
next
  case (10 s p old)
  with delete_pdis_accepted [of s p old] show ?case by simp
qed (fact list_pdis_frame list_profile_frame create_admitted_frame create_admitted_ok delete_pdis_frame
    delete_pdis_ok create_profile_frame create_profile_ok update_profile_frame update_profile_ok
    delete_profile_frame delete_profile_ok create_admitted_keeps update_admitted_keeps keeps_defaulted)+

subsection \<open>Any sequence of calls\<close>

text \<open>One call to the server with webhooks, by anybody, and what it leaves.\<close>

inductive api_call :: "(go_error \<Rightarrow> go_error) \<Rightarrow> 's client \<Rightarrow> 's \<Rightarrow> 's \<Rightarrow> bool"
  for denied :: "go_error \<Rightarrow> go_error" and api :: "'s client" where
  create_pdis: "run_state (Create_PDIS (admitting denied api) p) s = (r, s') \<Longrightarrow> api_call denied api s s'"
| update_pdis: "run_state (Update_PDIS (admitting denied api) p) s = (r, s') \<Longrightarrow> api_call denied api s s'"
| status_update_pdis: "run_state (Status_Update_PDIS (admitting denied api) p) s = (r, s') \<Longrightarrow> api_call denied api s s'"
| delete_pdis: "run_state (Delete_PDIS (admitting denied api) p) s = (e, s') \<Longrightarrow> api_call denied api s s'"
| create_profile: "run_state (Create_Profile (admitting denied api) f) s = (rf, s') \<Longrightarrow> api_call denied api s s'"
| update_profile: "run_state (Update_Profile (admitting denied api) f) s = (rf, s') \<Longrightarrow> api_call denied api s s'"
| delete_profile: "run_state (Delete_Profile (admitting denied api) f) s = (e, s') \<Longrightarrow> api_call denied api s s'"
| create_rbg: "run_state (Create_RBG (admitting denied api) g) s = (rg, s') \<Longrightarrow> api_call denied api s s'"
| update_rbg: "run_state (Update_RBG (admitting denied api) g) s = (rg, s') \<Longrightarrow> api_call denied api s s'"
| get_pdis: "run_state (Get_PDIS (admitting denied api) k) s = (r, s') \<Longrightarrow> api_call denied api s s'"
| get_profile: "run_state (Get_Profile (admitting denied api) k) s = (rf, s') \<Longrightarrow> api_call denied api s s'"
| get_rbg: "run_state (Get_RBG (admitting denied api) k) s = (rg, s') \<Longrightarrow> api_call denied api s s'"
| list_pdis: "run_state (List_PDIS (admitting denied api) ns) s = (rl, s') \<Longrightarrow> api_call denied api s s'"
| list_profile: "run_state (List_Profile (admitting denied api) ns) s = (rp, s') \<Longrightarrow> api_call denied api s s'"
| now: "run_state (Now (admitting denied api)) s = (t, s') \<Longrightarrow> api_call denied api s s'"

text \<open>
  What a call does to the service under a key: it appears with a specification that passed
  both webhooks, or it had the same immutable fields before and is defaulted if it was.
\<close>

definition call_leaves :: "PDInferenceService option \<Rightarrow> PDInferenceService \<Rightarrow> bool" where
  "call_leaves old q = (case old of
     None \<Rightarrow> defaulted (pd_Spec q) \<and> spec_valid (pd_Spec q)
   | Some p \<Rightarrow> frozen (pd_Spec q) = frozen (pd_Spec p) \<and> (pd_Spec q = pd_Spec p \<or> defaulted (pd_Spec q)))"

lemma call_leaves_same [simp]: "call_leaves (Some q) q"
  by (simp add: call_leaves_def)

lemma only_pdis_leaves:
  assumes "only_pdis k c c'" and "\<And>q. cl_pdis c' k = Some q \<Longrightarrow> call_leaves (cl_pdis c k) q"
    and "cl_pdis c' j = Some q"
  shows "call_leaves (cl_pdis c j) q"
  using assms by (cases "j = k") (auto simp: only_pdis_def)

context kube_plain
begin

lemma create_call_leaves:
  assumes "run_state (admitted_create denied api p) s = (r, s')"
    and "cl_pdis (cluster s') (pdis_key p) = Some q"
  shows "call_leaves (cl_pdis (cluster s) (pdis_key p)) q"
  using assms(1)
proof (cases rule: admitted_create_cases)
  case (refused err)
  with validate_frame(1) [of "mutate p" s] assms(2) show ?thesis by simp
next
  case (passed s1)
  from passed(1) have v: "spec_valid (defaultSpec (pd_Spec p))"
    using ValidateCreate_accepts [of api "mutate p" s] by simp
  have c: "cluster s1 = cluster s" using validate_frame(1) [of "mutate p" s] passed(1) by simp
  from create_pdis_leaves [OF passed(2), of q] assms(2) c v show ?thesis
    by (auto simp: call_leaves_def defaultSpec_defaulted)
qed

lemma update_call_leaves:
  assumes "run_state (admitted_update denied api p) s = (r, s')"
    and "cl_pdis (cluster s') (pdis_key p) = Some q"
  shows "call_leaves (cl_pdis (cluster s) (pdis_key p)) q"
  using update_admitted_leaves [OF assms] by (auto simp: call_leaves_def defaultSpec_defaulted)

lemma status_call_leaves:
  assumes "run_state (Status_Update_PDIS api p) s = (r, s')"
    and "cl_pdis (cluster s') (pdis_key p) = Some q"
  shows "call_leaves (cl_pdis (cluster s) (pdis_key p)) q"
  using status_update_versioned [OF assms] by (auto simp: call_leaves_def)

lemma delete_call_leaves:
  assumes "run_state (Delete_PDIS api p) s = (e, s')"
    and "cl_pdis (cluster s') (pdis_key p) = Some q"
  shows "call_leaves (cl_pdis (cluster s) (pdis_key p)) q"
  using delete_pdis_leaves [OF assms] by (auto simp: call_leaves_def)

lemma no_pdis_leaves:
  assumes "cl_pdis (cluster s') k = Some q"
  shows "cluster s' = cluster s \<Longrightarrow> call_leaves (cl_pdis (cluster s) k) q"
    and "only_rbg j (cluster s) (cluster s') \<Longrightarrow> call_leaves (cl_pdis (cluster s) k) q"
    and "only_profile j (cluster s) (cluster s') \<Longrightarrow> call_leaves (cl_pdis (cluster s) k) q"
  using assms by (simp_all add: only_rbg_def only_profile_def)

lemma api_call_leaves:
  assumes "api_call denied api s s'" and "cl_pdis (cluster s') k = Some q"
  shows "call_leaves (cl_pdis (cluster s) k) q"
  using assms(1)
proof cases
  case (create_pdis p r)
  then have r: "run_state (admitted_create denied api p) s = (r, s')" by simp
  from only_pdis_leaves [OF create_admitted_frame [OF r] create_call_leaves [OF r] assms(2)] show ?thesis .
next
  case (update_pdis p r)
  then have r: "run_state (admitted_update denied api p) s = (r, s')" by simp
  from only_pdis_leaves [OF update_admitted_frame [OF r] update_call_leaves [OF r] assms(2)] show ?thesis .
next
  case (status_update_pdis p r)
  then have r: "run_state (Status_Update_PDIS api p) s = (r, s')" by simp
  from only_pdis_leaves [OF status_update_pdis_frame [OF r] status_call_leaves [OF r] assms(2)] show ?thesis .
next
  case (delete_pdis p e)
  then have r: "run_state (Delete_PDIS api p) s = (e, s')" by simp
  from only_pdis_leaves [OF delete_pdis_frame [OF r] delete_call_leaves [OF r] assms(2)] show ?thesis .
qed (auto intro: no_pdis_leaves [OF assms(2)]
    dest!: create_profile_frame update_profile_frame delete_profile_frame create_rbg_frame update_rbg_frame
      get_pdis_frame get_profile_frame get_rbg_frame list_pdis_frame list_profile_frame now_frame)

lemma webhooks_laws:
  "kube_rest (admitting denied api) cluster defaultSpec (\<lambda>s. ok s \<and> all_defaulted (cluster s))"
  "kube_versioned (admitting denied api) cluster defaultSpec"
  by unfold_locales

text \<open>A stored specification that passed the webhooks once.\<close>

lemma api_calls_admitted:
  assumes "(api_call denied api)\<^sup>*\<^sup>* s s'"
    and "\<And>k p. cl_pdis (cluster s) k = Some p \<Longrightarrow> defaulted (pd_Spec p) \<and> sp_Model (pd_Spec p) \<noteq> ''''"
    and "cl_pdis (cluster s') k = Some q"
  shows "defaulted (pd_Spec q) \<and> sp_Model (pd_Spec q) \<noteq> ''''"
  using assms(1,3)
proof (induction arbitrary: q rule: rtranclp_induct)
  case base
  with assms(2) show ?case by blast
next
  case (step s1 s2)
  from api_call_leaves [OF step.hyps(2) step.prems] step.IH show ?case
    by (cases "cl_pdis (cluster s1) k") (auto simp: call_leaves_def spec_valid_def frozen_def)
qed

end

subsection \<open>The in-memory server with webhooks\<close>

interpretation fake_plain: kube_plain fakeClient fake_cluster fake_ok denied for denied
proof (unfold_locales, goal_cases)
  case (1 p s r s' q)
  show ?case
  proof (cases r)
    case (Inr p')
    with 1(1) have "run_state (Create_PDIS fakeClient p) s = (Inr p', s')" by (simp only:)
    from fake_create_pdis_ok [OF this] 1(2) show ?thesis by simp
  next
    case (Inl e)
    with 1(1) have "s' = s" using pdis_kind.Create_error [of p "fk_pdis s"] by (auto simp: prod_eq_iff)
    with 1(2) show ?thesis by simp
  qed
next
  case (2 p s e s' q)
  show ?case
  proof (cases e)
    case None
    with fake_delete_ok(1) [of p s s'] 2 show ?thesis by (auto simp: pdis_after_delete_def)
  next
    case (Some err)
    with 2(1) have "fk_pdis s' = fk_pdis s"
      using pdis_kind.Delete_error [of "int (fk_now s) + 1" p "fk_pdis s" err] by (auto simp: prod_eq_iff)
    with 2(2) show ?thesis by simp
  qed
qed

end
