(* ===== verification/Entry_Point.thy ===== *)
theory Entry_Point
  imports Apimachinery
begin

section \<open>The entry point (\<^verbatim>\<open>cmd/main.go\<close>) and the life of the REST server\<close>

text \<open>
  \<^verbatim>\<open>main\<close> reads flags and one environment variable, computes the options of two TLS servers and
  of the manager, and makes a sequence of calls into controller-runtime, each of which may fail.
  The model has the flags as a record with the declared defaults, Go's \<^verbatim>\<open>flag\<close> package as the
  parser, and the run as the list of calls made with the exit code, for any pattern of failures.
  A file path is the pair of arguments given to \<^verbatim>\<open>filepath.Join\<close>.
\<close>

subsection \<open>Flags\<close>

record Flags =
  metricsAddr :: string
  probeAddr :: string
  apiAddr :: string
  enableLeaderElection :: bool
  secureMetrics :: bool
  webhookCertPath :: string
  webhookCertName :: string
  webhookCertKey :: string
  metricsCertPath :: string
  metricsCertName :: string
  metricsCertKey :: string
  enableHTTP2 :: bool

definition default_flags :: Flags where
  "default_flags = \<lparr>metricsAddr = ''0'', probeAddr = '':8081'', apiAddr = '':8080'',
     enableLeaderElection = False, secureMetrics = True, webhookCertPath = '''', webhookCertName = ''tls.crt'',
     webhookCertKey = ''tls.key'', metricsCertPath = '''', metricsCertName = ''tls.crt'',
     metricsCertKey = ''tls.key'', enableHTTP2 = False\<rparr>"

text \<open>A declared flag: what \<^verbatim>\<open>Set\<close> does with a text. \<open>None\<close> is a value it refuses.\<close>

datatype flag =
    StringVar "string \<Rightarrow> Flags \<Rightarrow> Flags"
  | BoolVar "bool \<Rightarrow> Flags \<Rightarrow> Flags"

definition declared_flags :: "(string \<times> flag) list" where
  "declared_flags =
     [(''metrics-bind-address'', StringVar (\<lambda>v f. f\<lparr>metricsAddr := v\<rparr>)),
      (''health-probe-bind-address'', StringVar (\<lambda>v f. f\<lparr>probeAddr := v\<rparr>)),
      (''api-bind-address'', StringVar (\<lambda>v f. f\<lparr>apiAddr := v\<rparr>)),
      (''leader-elect'', BoolVar (\<lambda>v f. f\<lparr>enableLeaderElection := v\<rparr>)),
      (''metrics-secure'', BoolVar (\<lambda>v f. f\<lparr>secureMetrics := v\<rparr>)),
      (''webhook-cert-path'', StringVar (\<lambda>v f. f\<lparr>webhookCertPath := v\<rparr>)),
      (''webhook-cert-name'', StringVar (\<lambda>v f. f\<lparr>webhookCertName := v\<rparr>)),
      (''webhook-cert-key'', StringVar (\<lambda>v f. f\<lparr>webhookCertKey := v\<rparr>)),
      (''metrics-cert-path'', StringVar (\<lambda>v f. f\<lparr>metricsCertPath := v\<rparr>)),
      (''metrics-cert-name'', StringVar (\<lambda>v f. f\<lparr>metricsCertName := v\<rparr>)),
      (''metrics-cert-key'', StringVar (\<lambda>v f. f\<lparr>metricsCertKey := v\<rparr>)),
      (''enable-http2'', BoolVar (\<lambda>v f. f\<lparr>enableHTTP2 := v\<rparr>))]"

definition ParseBool :: "string \<Rightarrow> bool option" where
  "ParseBool s =
     (if s \<in> {''1'', ''t'', ''T'', ''true'', ''TRUE'', ''True''} then Some True
      else if s \<in> {''0'', ''f'', ''F'', ''false'', ''FALSE'', ''False''} then Some False
      else None)"

text \<open>The text of one argument: a flag name with or without a value, the end of the flags, or an error.\<close>

datatype argument = NotAFlag | EndOfFlags | BadSyntax | Named string "string option"

definition split_name :: "string \<Rightarrow> argument" where
  "split_name name =
     (if name = '''' \<or> hd name = CHR ''-'' \<or> hd name = CHR ''='' then BadSyntax
      else let n = takeWhile (\<lambda>c. c \<noteq> CHR ''='') name; rest = dropWhile (\<lambda>c. c \<noteq> CHR ''='') name in
        Named n (if rest = [] then None else Some (tl rest)))"

definition read_argument :: "string \<Rightarrow> argument" where
  "read_argument s =
     (if length s < 2 \<or> hd s \<noteq> CHR ''-'' then NotAFlag
      else if s ! 1 = CHR ''-'' then (if length s = 2 then EndOfFlags else split_name (drop 2 s))
      else split_name (drop 1 s))"

text \<open>
  \<^verbatim>\<open>flag.Parse\<close> on the process arguments with \<^verbatim>\<open>ExitOnError\<close>: the flags, or the code the
  process exits with. \<open>other\<close> stands for the flags that other packages declare (the logger's,
  \<^verbatim>\<open>kubeconfig\<close>): whether such a flag is boolean, and which values it accepts; they do not
  touch the variables of \<^verbatim>\<open>main\<close>.
\<close>

type_synonym other_flags = "string \<Rightarrow> (bool \<times> (string \<Rightarrow> bool)) option"

definition is_bool_flag :: "other_flags \<Rightarrow> string \<Rightarrow> bool option" where
  "is_bool_flag other name = (case map_of declared_flags name of
     Some (StringVar _) \<Rightarrow> Some False
   | Some (BoolVar _) \<Rightarrow> Some True
   | None \<Rightarrow> map_option fst (other name))"

definition set_flag :: "other_flags \<Rightarrow> string \<Rightarrow> string \<Rightarrow> Flags \<Rightarrow> Flags option" where
  "set_flag other name v f = (case map_of declared_flags name of
     Some (StringVar upd) \<Rightarrow> Some (upd v f)
   | Some (BoolVar upd) \<Rightarrow> map_option (\<lambda>b. upd b f) (ParseBool v)
   | None \<Rightarrow> (case other name of Some (_, ok) \<Rightarrow> if ok v then Some f else None | None \<Rightarrow> None))"

fun Parse :: "other_flags \<Rightarrow> string list \<Rightarrow> Flags \<Rightarrow> nat + Flags" where
  "Parse other [] f = Inr f"
| "Parse other (s # args) f = (case read_argument s of
     NotAFlag \<Rightarrow> Inr f
   | EndOfFlags \<Rightarrow> Inr f
   | BadSyntax \<Rightarrow> Inl 2
   | Named name value \<Rightarrow> (case is_bool_flag other name of
       None \<Rightarrow> if name = ''help'' \<or> name = ''h'' then Inl 0 else Inl 2
     | Some True \<Rightarrow> (case set_flag other name (case value of Some v \<Rightarrow> v | None \<Rightarrow> ''true'') f of
         None \<Rightarrow> Inl 2 | Some f' \<Rightarrow> Parse other args f')
     | Some False \<Rightarrow> (case value of
         Some v \<Rightarrow> (case set_flag other name v f of None \<Rightarrow> Inl 2 | Some f' \<Rightarrow> Parse other args f')
       | None \<Rightarrow> (case args of
           [] \<Rightarrow> Inl 2
         | v # args' \<Rightarrow> (case set_flag other name v f of None \<Rightarrow> Inl 2 | Some f' \<Rightarrow> Parse other args' f')))))"

subsection \<open>TLS and server options\<close>

text \<open>
  Both servers start from the same slice \<^verbatim>\<open>tlsOpts\<close>. It is empty or was grown by one append
  to a nil slice, so it has no spare capacity and each further append makes a new array: the
  two option lists share nothing, and lists model them.
\<close>

datatype tls_option = DisableHTTP2 | ServeCertificate "string \<times> string" "string \<times> string"

record tls_config =
  NextProtos :: "string list"
  GetCertificate :: "((string \<times> string) \<times> (string \<times> string)) option"

primrec tls_apply :: "tls_option \<Rightarrow> tls_config \<Rightarrow> tls_config" where
  "tls_apply DisableHTTP2 c = c\<lparr>NextProtos := [''http/1.1'']\<rparr>"
| "tls_apply (ServeCertificate cert key) c = c\<lparr>GetCertificate := Some (cert, key)\<rparr>"

definition tlsOpts :: "Flags \<Rightarrow> tls_option list" where
  "tlsOpts f = (if \<not> enableHTTP2 f then [DisableHTTP2] else [])"

definition webhookTLSOpts :: "Flags \<Rightarrow> tls_option list" where
  "webhookTLSOpts f =
     (if length (webhookCertPath f) > 0
      then tlsOpts f @ [ServeCertificate (webhookCertPath f, webhookCertName f) (webhookCertPath f, webhookCertKey f)]
      else tlsOpts f)"

record MetricsOptions =
  mo_BindAddress :: string
  mo_SecureServing :: bool
  mo_TLSOpts :: "tls_option list"
  mo_FilterProvider :: "string option"

definition metricsServerOptions :: "Flags \<Rightarrow> MetricsOptions" where
  "metricsServerOptions f =
     (let o0 = \<lparr>mo_BindAddress = metricsAddr f, mo_SecureServing = secureMetrics f, mo_TLSOpts = tlsOpts f,
                mo_FilterProvider = None\<rparr>;
          o1 = (if secureMetrics f then o0\<lparr>mo_FilterProvider := Some ''WithAuthenticationAndAuthorization''\<rparr> else o0)
      in if length (metricsCertPath f) > 0
         then o1\<lparr>mo_TLSOpts := mo_TLSOpts o1 @
           [ServeCertificate (metricsCertPath f, metricsCertName f) (metricsCertPath f, metricsCertKey f)]\<rparr>
         else o1)"

text \<open>The scheme \<^verbatim>\<open>init\<close> builds: three groups of types.\<close>

definition scheme :: "string list" where
  "scheme = [''clientgoscheme'', ''pdai.pdai.io/v1alpha1'', ''workloads.x-k8s.io/v1alpha1'']"

record ManagerOptions =
  mg_Scheme :: "string list"
  mg_Metrics :: MetricsOptions
  mg_WebhookServer :: "tls_option list"
  mg_HealthProbeBindAddress :: string
  mg_LeaderElection :: bool
  mg_LeaderElectionID :: string

definition managerOptions :: "Flags \<Rightarrow> ManagerOptions" where
  "managerOptions f = \<lparr>mg_Scheme = scheme, mg_Metrics = metricsServerOptions f,
     mg_WebhookServer = webhookTLSOpts f, mg_HealthProbeBindAddress = probeAddr f,
     mg_LeaderElection = enableLeaderElection f, mg_LeaderElectionID = ''27281c4e.pdai.io''\<rparr>"

subsection \<open>The run\<close>

datatype runnable = APIServer string | MetricsCertWatcher | WebhookCertWatcher

datatype call =
    NewCertWatcher runnable "string \<times> string" "string \<times> string"
  | GetConfigOrDie
  | NewManager ManagerOptions
  | SetupController
  | Add runnable
  | SetupWebhook
  | AddHealthzCheck string
  | AddReadyzCheck string
  | StartManager

text \<open>A call whose error is reported and ends the process with code 1; a call made only under a condition.\<close>

definition attempt :: "(call \<Rightarrow> bool) \<Rightarrow> call \<Rightarrow> call list \<times> nat \<Rightarrow> call list \<times> nat" where
  "attempt fails c k = (if fails c then ([c], 1) else (c # fst k, snd k))"

definition attempt_if :: "bool \<Rightarrow> (call \<Rightarrow> bool) \<Rightarrow> call \<Rightarrow> call list \<times> nat \<Rightarrow> call list \<times> nat" where
  "attempt_if b fails c k = (if b then attempt fails c k else k)"

definition main :: "(call \<Rightarrow> bool) \<Rightarrow> string \<Rightarrow> Flags \<Rightarrow> call list \<times> nat" where
  "main fails enableWebhooks f =
     attempt_if (length (webhookCertPath f) > 0) fails
       (NewCertWatcher WebhookCertWatcher (webhookCertPath f, webhookCertName f) (webhookCertPath f, webhookCertKey f)) (
     attempt_if (length (metricsCertPath f) > 0) fails
       (NewCertWatcher MetricsCertWatcher (metricsCertPath f, metricsCertName f) (metricsCertPath f, metricsCertKey f)) (
     attempt fails GetConfigOrDie (
     attempt fails (NewManager (managerOptions f)) (
     attempt fails SetupController (
     attempt fails (Add (APIServer (apiAddr f))) (
     attempt_if (enableWebhooks \<noteq> ''false'') fails SetupWebhook (
     attempt_if (length (metricsCertPath f) > 0) fails (Add MetricsCertWatcher) (
     attempt_if (length (webhookCertPath f) > 0) fails (Add WebhookCertWatcher) (
     attempt fails (AddHealthzCheck ''healthz'') (
     attempt fails (AddReadyzCheck ''readyz'') (
     attempt fails StartManager ([], 0))))))))))))"

text \<open>The process: arguments and environment to calls and exit code.\<close>

definition process :: "other_flags \<Rightarrow> string list \<Rightarrow> (call \<Rightarrow> bool) \<Rightarrow> string \<Rightarrow> call list \<times> nat" where
  "process other args fails enableWebhooks = (case Parse other args default_flags of
     Inl code \<Rightarrow> ([], code)
   | Inr f \<Rightarrow> main fails enableWebhooks f)"

subsection \<open>The REST server as a runnable (\<^verbatim>\<open>Server.Start\<close>)\<close>

text \<open>
  The state of the listening goroutine, and the \<^verbatim>\<open>select\<close> that waits for its error or for the
  end of the context: when both are ready either branch may run. \<^verbatim>\<open>ListenAndServe\<close> always
  returns an error; \<^verbatim>\<open>ErrServerClosed\<close> is not sent to the channel.
\<close>

datatype listen_state = Listening | ServerClosed | ListenFailed go_error

inductive Start_returns :: "listen_state \<Rightarrow> bool \<Rightarrow> go_error option \<Rightarrow> go_error option \<Rightarrow> bool" where
  listen_error: "Start_returns (ListenFailed err) done shutdown (Some err)"
| cancelled: "Start_returns l True shutdown shutdown"

inductive_cases Start_returnsE: "Start_returns l done shutdown r"

inductive_simps Start_returns_iff: "Start_returns l done shutdown r"

text \<open>It blocks exactly while the server listens (or was closed) and the context lives.\<close>

lemma Start_blocks_iff: "(\<nexists>r. Start_returns l done shutdown r) \<longleftrightarrow> \<not> done \<and> (\<forall>e. l \<noteq> ListenFailed e)"
  by (cases l) (auto simp: Start_returns_iff)

lemma Start_nil: "Start_returns l done shutdown None \<Longrightarrow> done \<and> shutdown = None"
  by (erule Start_returnsE) simp_all

subsection \<open>The run as a plan\<close>

text \<open>The calls of a run in which nothing fails.\<close>

definition only_if :: "bool \<Rightarrow> call \<Rightarrow> call list" where
  "only_if b c = (if b then [c] else [])"

definition plan :: "string \<Rightarrow> Flags \<Rightarrow> call list" where
  "plan enableWebhooks f =
     only_if (webhookCertPath f \<noteq> '''')
       (NewCertWatcher WebhookCertWatcher (webhookCertPath f, webhookCertName f) (webhookCertPath f, webhookCertKey f)) @
     only_if (metricsCertPath f \<noteq> '''')
       (NewCertWatcher MetricsCertWatcher (metricsCertPath f, metricsCertName f) (metricsCertPath f, metricsCertKey f)) @
     [GetConfigOrDie, NewManager (managerOptions f), SetupController, Add (APIServer (apiAddr f))] @
     only_if (enableWebhooks \<noteq> ''false'') SetupWebhook @
     only_if (metricsCertPath f \<noteq> '''') (Add MetricsCertWatcher) @
     only_if (webhookCertPath f \<noteq> '''') (Add WebhookCertWatcher) @
     [AddHealthzCheck ''healthz'', AddReadyzCheck ''readyz'', StartManager]"

definition run_plan :: "(call \<Rightarrow> bool) \<Rightarrow> call list \<Rightarrow> call list \<times> nat" where
  "run_plan fails p = foldr (attempt fails) p ([], 0)"

lemma run_plan_simps [simp]:
  "run_plan fails [] = ([], 0)"
  "run_plan fails (c # p) = attempt fails c (run_plan fails p)"
  by (simp_all add: run_plan_def)

lemma attempt_if_plan: "attempt_if b fails c (run_plan fails p) = run_plan fails (only_if b c @ p)"
  by (simp add: attempt_if_def only_if_def)

lemma attempt_plan: "attempt fails c (run_plan fails p) = run_plan fails ([c] @ p)"
  by simp

lemma main_plan: "main fails w f = run_plan fails (plan w f)"
proof -
  have "([], 0) = run_plan fails []" by simp
  then show ?thesis
    unfolding main_def plan_def by (simp only: attempt_plan attempt_if_plan length_greater_0_conv) simp
qed

lemma run_plan_eq:
  "run_plan fails p = (let done = takeWhile (\<lambda>c. \<not> fails c) p in
     if done = p then (p, 0) else (done @ [hd (drop (length done) p)], 1))"
  by (induction p) (auto simp: attempt_def Let_def)

text \<open>
  C39: The process does its calls in a fixed order and stops at the first that fails. For every
  pattern of failures, the calls made are those of the plan up to and including the first
  failing one, with exit code 1; when none fails all are made and the code is 0. So the manager
  starts only when everything before it succeeded, and the webhooks are registered unless the
  environment says \<^verbatim>\<open>false\<close>.
\<close>

theorem main_stops_at_first_failure:
  "main fails w f = (let done = takeWhile (\<lambda>c. \<not> fails c) (plan w f) in
     if done = plan w f then (plan w f, 0)
     else (done @ [hd (drop (length done) (plan w f))], 1)) \<and>
   last (plan w f) = StartManager \<and> distinct (plan w f) \<and>
   (SetupWebhook \<in> set (plan w f) \<longleftrightarrow> w \<noteq> ''false'')"
proof -
  have "last (plan w f) = StartManager" "distinct (plan w f)" "SetupWebhook \<in> set (plan w f) \<longleftrightarrow> w \<noteq> ''false''"
    by (auto simp: plan_def only_if_def)
  then show ?thesis unfolding main_plan run_plan_eq [of fails "plan w f"] by blast
qed

subsection \<open>Hardening\<close>

definition tls_result :: "tls_option list \<Rightarrow> tls_config \<Rightarrow> tls_config" where
  "tls_result opts c = fold tls_apply opts c"

lemma run_plan_calls: "set (fst (run_plan fails p)) \<subseteq> set p"
  by (induction p) (auto simp: attempt_def)

lemma manager_call:
  assumes "NewManager m \<in> set (fst (process other args fails w))"
  shows "\<exists>f. Parse other args default_flags = Inr f \<and> m = managerOptions f"
proof (cases "Parse other args default_flags")
  case (Inr f)
  with assms run_plan_calls [of fails "plan w f"] show ?thesis
    by (auto simp: process_def main_plan plan_def only_if_def split: if_splits)
qed (use assms in \<open>simp add: process_def\<close>)

text \<open>
  C40: HTTP/2 stays off and the metrics are guarded. Whatever the arguments, the environment and
  the failures, a manager that is created gets a webhook server and a metrics server whose TLS
  configuration offers HTTP/1.1 only, unless the parsed flags enable HTTP/2; its metrics endpoint
  asks for authentication and authorisation exactly when it is served securely; each server
  serves the certificate of its own flags, or keeps the generated one.
\<close>

theorem servers_hardened:
  assumes "NewManager m \<in> set (fst (process other args fails w))"
  shows "\<exists>f. Parse other args default_flags = Inr f \<and>
     (\<not> enableHTTP2 f \<longrightarrow> NextProtos (tls_result (mg_WebhookServer m) c) = [''http/1.1''] \<and>
        NextProtos (tls_result (mo_TLSOpts (mg_Metrics m)) c) = [''http/1.1'']) \<and>
     (mo_FilterProvider (mg_Metrics m) \<noteq> None \<longleftrightarrow> mo_SecureServing (mg_Metrics m)) \<and>
     GetCertificate (tls_result (mg_WebhookServer m) c) =
       (if webhookCertPath f = '''' then GetCertificate c
        else Some ((webhookCertPath f, webhookCertName f), (webhookCertPath f, webhookCertKey f))) \<and>
     GetCertificate (tls_result (mo_TLSOpts (mg_Metrics m)) c) =
       (if metricsCertPath f = '''' then GetCertificate c
        else Some ((metricsCertPath f, metricsCertName f), (metricsCertPath f, metricsCertKey f)))"
proof -
  from manager_call [OF assms] obtain f where f: "Parse other args default_flags = Inr f" "m = managerOptions f"
    by blast
  then show ?thesis
    by (intro exI [of _ f])
       (simp add: managerOptions_def webhookTLSOpts_def metricsServerOptions_def tlsOpts_def tls_result_def Let_def)
qed

theorem servers_hardened_witness:
  "NextProtos (tls_result (mg_WebhookServer (managerOptions default_flags))
     \<lparr>NextProtos = [''h2''], GetCertificate = None\<rparr>) = [''http/1.1'']"
proof -
  have "NewManager (managerOptions default_flags) \<in>
      set (fst (process (\<lambda>_. None) [] (\<lambda>c. c = SetupController) ''true''))"
    by (simp add: process_def main_plan plan_def only_if_def attempt_def default_flags_def)
  from servers_hardened [OF this, of "\<lparr>NextProtos = [''h2''], GetCertificate = None\<rparr>"]
  show ?thesis by (simp add: default_flags_def)
qed

subsection \<open>Every configuration can be asked for\<close>

definition bool_text :: "bool \<Rightarrow> string" where
  "bool_text b = (if b then ''true'' else ''false'')"

definition flag_text :: "string \<Rightarrow> string \<Rightarrow> string" where
  "flag_text name v = ''--'' @ name @ ''='' @ v"

definition render :: "Flags \<Rightarrow> string list" where
  "render f =
     [flag_text ''metrics-bind-address'' (metricsAddr f), flag_text ''health-probe-bind-address'' (probeAddr f),
      flag_text ''api-bind-address'' (apiAddr f), flag_text ''leader-elect'' (bool_text (enableLeaderElection f)),
      flag_text ''metrics-secure'' (bool_text (secureMetrics f)),
      flag_text ''webhook-cert-path'' (webhookCertPath f), flag_text ''webhook-cert-name'' (webhookCertName f),
      flag_text ''webhook-cert-key'' (webhookCertKey f), flag_text ''metrics-cert-path'' (metricsCertPath f),
      flag_text ''metrics-cert-name'' (metricsCertName f), flag_text ''metrics-cert-key'' (metricsCertKey f),
      flag_text ''enable-http2'' (bool_text (enableHTTP2 f))]"

lemma split_at_equals:
  assumes "CHR ''='' \<notin> set name"
  shows "takeWhile (\<lambda>c. c \<noteq> CHR ''='') (name @ CHR ''='' # v) = name"
    and "dropWhile (\<lambda>c. c \<noteq> CHR ''='') (name @ CHR ''='' # v) = CHR ''='' # v"
  using assms by (induction name) auto

lemma read_flag_text:
  assumes "name \<noteq> ''''" and "hd name \<noteq> CHR ''-''" and "CHR ''='' \<notin> set name"
  shows "read_argument (flag_text name v) = Named name (Some v)"
proof -
  have "hd (name @ ''='' @ v) = hd name" using assms(1) by simp
  moreover have "hd name \<noteq> CHR ''=''" using assms(1,3) by (metis hd_in_set)
  ultimately show ?thesis
    using assms by (simp add: read_argument_def flag_text_def split_name_def split_at_equals)
qed

lemma ParseBool_text [simp]: "ParseBool (bool_text b) = Some b"
  by (simp add: ParseBool_def bool_text_def)

lemma Parse_flag_text:
  assumes "name \<noteq> ''''" and "hd name \<noteq> CHR ''-''" and "CHR ''='' \<notin> set name"
  shows "map_of declared_flags name = Some (StringVar upd) \<Longrightarrow>
      Parse other (flag_text name v # args) f = Parse other args (upd v f)"
    and "map_of declared_flags name = Some (BoolVar updb) \<Longrightarrow>
      Parse other (flag_text name (bool_text b) # args) f = Parse other args (updb b f)"
  using read_flag_text [OF assms] by (simp_all add: is_bool_flag_def set_flag_def)

text \<open>
  Flags round-trip. Writing out any configuration as \<^verbatim>\<open>--name=value\<close> arguments and parsing
  them gives that configuration, whatever the defaults were and whatever other packages declare,
  also when values contain dashes, spaces or equality signs.
\<close>

lemma Parse_render: "Parse other (render f) g = Inr f"
  by (simp add: render_def Parse_flag_text declared_flags_def del: Parse.simps(2))

end
