(* ===== verification/Type_Scheme.thy ===== *)
theory Type_Scheme
  imports Go_Prelude
begin

section \<open>The scheme (\<^verbatim>\<open>api/v1alpha1/groupversion_info.go\<close>, \<^verbatim>\<open>cmd/main.go\<close>)\<close>

text \<open>
  The client and the manager find the kind of an object by its Go type in a \<^verbatim>\<open>runtime.Scheme\<close>.
  This theory models the scheme's registrations, the builders the API packages fill in their
  \<^verbatim>\<open>init\<close> functions, and \<^verbatim>\<open>init\<close> of the command, which adds three groups of types to one
  scheme. The types of client-go are a parameter, a function that adds to the scheme; the
  registration of conversions and defaulting functions is left out.

  The lemmas reduce a run of registrations to a list of pairs of kinds and types, and say when it
  goes through without a panic and what the scheme knows afterwards.
\<close>

type_synonym GroupVersion = "string \<times> string"
type_synonym GVK = "GroupVersion \<times> string"

text \<open>A Go struct type: package and name.\<close>

type_synonym GoType = "string \<times> string"

record Scheme =
  sch_gvkToType :: "GVK \<rightharpoonup> GoType"
  sch_typeToGVK :: "GoType \<Rightarrow> GVK list"
  sch_unversionedTypes :: "GoType \<rightharpoonup> GVK"
  sch_unversionedKinds :: "string \<rightharpoonup> GoType"
  sch_observedVersions :: "GroupVersion list"

definition NewScheme :: Scheme where
  "NewScheme = \<lparr>sch_gvkToType = Map.empty, sch_typeToGVK = (\<lambda>_. []), sch_unversionedTypes = Map.empty,
     sch_unversionedKinds = Map.empty, sch_observedVersions = []\<rparr>"

definition APIVersionInternal :: string where "APIVersionInternal = ''__internal''"

definition addObservedVersion :: "GroupVersion \<Rightarrow> Scheme \<Rightarrow> Scheme" where
  "addObservedVersion version s =
     (if snd version = '''' \<or> snd version = APIVersionInternal \<or> version \<in> set (sch_observedVersions s) then s
      else s\<lparr>sch_observedVersions := sch_observedVersions s @ [version]\<rparr>)"

definition AddKnownTypeWithName :: "GVK \<Rightarrow> GoType \<Rightarrow> Scheme \<Rightarrow> Scheme outcome" where
  "AddKnownTypeWithName gvk t s =
     (let s = addObservedVersion (fst gvk) s in
      if snd (fst gvk) = '''' then Panic ''version is required on all types''
      else if sch_gvkToType s gvk \<noteq> None \<and> sch_gvkToType s gvk \<noteq> Some t
      then Panic ''Double registration of different types''
      else let s = s\<lparr>sch_gvkToType := (sch_gvkToType s)(gvk \<mapsto> t)\<rparr> in
        if gvk \<in> set (sch_typeToGVK s t) then Returns s
        else Returns (s\<lparr>sch_typeToGVK := (sch_typeToGVK s)(t := sch_typeToGVK s t @ [gvk])\<rparr>))"

fun AddKnownTypes :: "GroupVersion \<Rightarrow> GoType list \<Rightarrow> Scheme \<Rightarrow> Scheme outcome" where
  "AddKnownTypes gv [] s = Returns (addObservedVersion gv s)"
| "AddKnownTypes gv (t # ts) s =
     and_then (AddKnownTypeWithName (gv, snd t) t (addObservedVersion gv s)) (AddKnownTypes gv ts)"

fun markUnversioned :: "GroupVersion \<Rightarrow> GoType list \<Rightarrow> Scheme \<Rightarrow> Scheme outcome" where
  "markUnversioned gv [] s = Returns s"
| "markUnversioned gv (t # ts) s =
     (let s = s\<lparr>sch_unversionedTypes := (sch_unversionedTypes s)(t \<mapsto> (gv, snd t))\<rparr> in
      if sch_unversionedKinds s (snd t) \<noteq> None \<and> sch_unversionedKinds s (snd t) \<noteq> Some t
      then Panic ''has already been registered as unversioned kind''
      else markUnversioned gv ts (s\<lparr>sch_unversionedKinds := (sch_unversionedKinds s)(snd t \<mapsto> t)\<rparr>))"

definition AddUnversionedTypes :: "GroupVersion \<Rightarrow> GoType list \<Rightarrow> Scheme \<Rightarrow> Scheme outcome" where
  "AddUnversionedTypes gv ts s = and_then (AddKnownTypes gv ts (addObservedVersion gv s)) (markUnversioned gv ts)"

subsection \<open>What every group version gets (\<^verbatim>\<open>meta/v1/register.go\<close>)\<close>

definition meta_type :: "string \<Rightarrow> GoType" where
  "meta_type n = (''k8s.io/apimachinery/pkg/apis/meta/v1'', n)"

definition optionsTypes :: "GoType list" where
  "optionsTypes = map meta_type [''ListOptions'', ''GetOptions'', ''DeleteOptions'', ''CreateOptions'',
     ''UpdateOptions'', ''PatchOptions'']"

definition unversionedMeta :: "GoType list" where
  "unversionedMeta = map meta_type [''Status'', ''APIVersions'', ''APIGroupList'', ''APIGroup'', ''APIResourceList'']"

definition Unversioned :: GroupVersion where "Unversioned = ('''', ''v1'')"
definition WatchEventKind :: string where "WatchEventKind = ''WatchEvent''"

definition AddToGroupVersion :: "GroupVersion \<Rightarrow> Scheme \<Rightarrow> Scheme outcome" where
  "AddToGroupVersion gv s =
     and_then (AddKnownTypeWithName (gv, WatchEventKind) (meta_type ''WatchEvent'') s) (\<lambda>s.
     and_then (AddKnownTypeWithName ((fst gv, APIVersionInternal), WatchEventKind) (meta_type ''InternalEvent'') s) (\<lambda>s.
     and_then (AddKnownTypes gv optionsTypes s)
       (AddUnversionedTypes Unversioned unversionedMeta)))"

subsection \<open>Builders\<close>

text \<open>
  A builder keeps the registered functions; each of them adds the objects of one call of
  \<^verbatim>\<open>Register\<close>, which is what is stored here. A package's \<^verbatim>\<open>AddToScheme\<close> is bound to the builder's
  address, so it sees the registrations made later by the \<^verbatim>\<open>init\<close> functions of the package.
\<close>

record Builder =
  bld_GroupVersion :: GroupVersion
  bld_registered :: "GoType list list"

definition Register :: "GoType list \<Rightarrow> Builder \<Rightarrow> Builder" where
  "Register objects b = b\<lparr>bld_registered := bld_registered b @ [objects]\<rparr>"

fun run_registered :: "GroupVersion \<Rightarrow> GoType list list \<Rightarrow> Scheme \<Rightarrow> Scheme outcome" where
  "run_registered gv [] s = Returns s"
| "run_registered gv (ts # rest) s =
     and_then (AddKnownTypes gv ts s) (\<lambda>s. and_then (AddToGroupVersion gv s) (run_registered gv rest))"

definition AddToScheme :: "Builder \<Rightarrow> Scheme \<Rightarrow> Scheme outcome" where
  "AddToScheme b = run_registered (bld_GroupVersion b) (bld_registered b)"

definition pdai_type :: "string \<Rightarrow> GoType" where
  "pdai_type n = (''github.com/pd-ai/pd-manager/api/v1alpha1'', n)"

definition pdai_GroupVersion :: GroupVersion where
  "pdai_GroupVersion = (''pdai.pdai.io'', ''v1alpha1'')"

text \<open>
  The \<^verbatim>\<open>init\<close> functions of the API package, in the order of the file names, and its builder after
  they ran.
\<close>

definition init_pdengineprofile_types :: "Builder \<Rightarrow> Builder" where
  "init_pdengineprofile_types = Register [pdai_type ''PDEngineProfile'', pdai_type ''PDEngineProfileList'']"

definition init_pdinferenceservice_types :: "Builder \<Rightarrow> Builder" where
  "init_pdinferenceservice_types = Register [pdai_type ''PDInferenceService'', pdai_type ''PDInferenceServiceList'']"

definition pdai_SchemeBuilder :: Builder where
  "pdai_SchemeBuilder = init_pdinferenceservice_types (init_pdengineprofile_types
     \<lparr>bld_GroupVersion = pdai_GroupVersion, bld_registered = []\<rparr>)"

definition rbg_type :: "string \<Rightarrow> GoType" where
  "rbg_type n = (''sigs.k8s.io/rbgs/api/workloads/v1alpha1'', n)"

definition rbg_GroupVersion :: GroupVersion where
  "rbg_GroupVersion = (''workloads.x-k8s.io'', ''v1alpha1'')"

definition rbg_SchemeBuilder :: Builder where
  "rbg_SchemeBuilder = fold (\<lambda>n. Register [rbg_type n, rbg_type (n @ ''List'')])
     [''ClusterEngineRuntimeProfile'', ''Instance'', ''InstanceSet'', ''RoleBasedGroupScalingAdapter'',
      ''RoleBasedGroup'', ''RoleBasedGroupSet'']
     \<lparr>bld_GroupVersion = rbg_GroupVersion, bld_registered = []\<rparr>"

text \<open>\<^verbatim>\<open>init\<close> of the command; \<open>clientgo\<close> is \<^verbatim>\<open>clientgoscheme.AddToScheme\<close>.\<close>

definition init :: "(Scheme \<Rightarrow> Scheme outcome) \<Rightarrow> Scheme outcome" where
  "init clientgo =
     and_then (clientgo NewScheme) (\<lambda>s.
     and_then (AddToScheme pdai_SchemeBuilder s)
       (AddToScheme rbg_SchemeBuilder))"

subsection \<open>Registrations as a list of kinds and types\<close>

type_synonym registration = "GVK \<times> GoType"

primrec reg_ok :: "(GVK \<rightharpoonup> GoType) \<Rightarrow> registration list \<Rightarrow> bool" where
  "reg_ok m [] = True"
| "reg_ok m (r # rs) \<longleftrightarrow> snd (fst (fst r)) \<noteq> '''' \<and> (m (fst r) = None \<or> m (fst r) = Some (snd r)) \<and>
     reg_ok (m(fst r \<mapsto> snd r)) rs"

primrec add_types :: "registration list \<Rightarrow> (GVK \<rightharpoonup> GoType) \<Rightarrow> GVK \<rightharpoonup> GoType" where
  "add_types [] m = m"
| "add_types (r # rs) m = add_types rs (m(fst r \<mapsto> snd r))"

primrec add_kinds :: "registration list \<Rightarrow> (GoType \<Rightarrow> GVK list) \<Rightarrow> GoType \<Rightarrow> GVK list" where
  "add_kinds [] k = k"
| "add_kinds (r # rs) k =
     add_kinds rs (if fst r \<in> set (k (snd r)) then k else k(snd r := k (snd r) @ [fst r]))"

definition adds :: "registration list \<Rightarrow> Scheme \<Rightarrow> Scheme \<Rightarrow> bool" where
  "adds rs s s' \<longleftrightarrow> sch_gvkToType s' = add_types rs (sch_gvkToType s) \<and>
     sch_typeToGVK s' = add_kinds rs (sch_typeToGVK s)"

lemma reg_ok_append: "reg_ok m (rs @ qs) \<longleftrightarrow> reg_ok m rs \<and> reg_ok (add_types rs m) qs"
  by (induction rs arbitrary: m) auto

lemma add_types_append: "add_types (rs @ qs) m = add_types qs (add_types rs m)"
  by (induction rs arbitrary: m) auto

lemma add_kinds_append: "add_kinds (rs @ qs) k = add_kinds qs (add_kinds rs k)"
  by (induction rs arbitrary: k) auto

lemma adds_trans: "adds rs s s1 \<Longrightarrow> adds qs s1 s2 \<Longrightarrow> adds (rs @ qs) s s2"
  by (simp add: adds_def add_types_append add_kinds_append)

lemma addObservedVersion_fields [simp]:
  "sch_gvkToType (addObservedVersion gv s) = sch_gvkToType s"
  "sch_typeToGVK (addObservedVersion gv s) = sch_typeToGVK s"
  "sch_unversionedKinds (addObservedVersion gv s) = sch_unversionedKinds s"
  by (simp_all add: addObservedVersion_def)

text \<open>
  Programs that add given registrations, when the scheme has no other type under their kinds and
  no other type under the unversioned kinds.
\<close>

definition meta_free :: "Scheme \<Rightarrow> bool" where
  "meta_free s \<longleftrightarrow> (\<forall>t \<in> set unversionedMeta.
     sch_unversionedKinds s (snd t) = None \<or> sch_unversionedKinds s (snd t) = Some t)"

definition registers :: "registration list \<Rightarrow> (Scheme \<Rightarrow> Scheme outcome) \<Rightarrow> bool" where
  "registers rs f \<longleftrightarrow> (\<forall>s. reg_ok (sch_gvkToType s) rs \<longrightarrow> meta_free s \<longrightarrow>
     (\<exists>s'. f s = Returns s' \<and> adds rs s s' \<and> meta_free s'))"

lemma registersD:
  assumes "registers rs f" and "reg_ok (sch_gvkToType s) rs" and "meta_free s"
  obtains s' where "f s = Returns s'" and "adds rs s s'" and "meta_free s'"
  using assms unfolding registers_def by blast

lemma registers_seq:
  assumes "registers rs f" and "registers qs g"
  shows "registers (rs @ qs) (\<lambda>s. and_then (f s) g)"
  unfolding registers_def
proof (intro allI impI)
  fix s :: Scheme assume ok: "reg_ok (sch_gvkToType s) (rs @ qs)" and u: "meta_free s"
  from ok have r: "reg_ok (sch_gvkToType s) rs" by (simp add: reg_ok_append)
  obtain s1 where s1: "f s = Returns s1" "adds rs s s1" "meta_free s1" by (rule registersD [OF assms(1) r u])
  then have q: "reg_ok (sch_gvkToType s1) qs" using ok by (simp add: reg_ok_append adds_def)
  obtain s2 where "g s1 = Returns s2" "adds qs s1 s2" "meta_free s2" by (rule registersD [OF assms(2) q s1(3)])
  with s1 adds_trans show "\<exists>s'. and_then (f s) g = Returns s' \<and> adds (rs @ qs) s s' \<and> meta_free s'" by auto
qed

lemma registers_one: "registers [(gvk, t)] (AddKnownTypeWithName gvk t)"
  by (auto simp: registers_def AddKnownTypeWithName_def adds_def Let_def meta_free_def)

lemma registers_none:
  assumes "\<And>s. meta_free s \<Longrightarrow> \<exists>s'. f s = Returns s' \<and> sch_gvkToType s' = sch_gvkToType s \<and>
      sch_typeToGVK s' = sch_typeToGVK s \<and> meta_free s'"
  shows "registers [] f"
  using assms by (auto simp: registers_def adds_def)

lemma registers_observed:
  assumes "registers rs f"
  shows "registers rs (\<lambda>s. f (addObservedVersion gv s))"
  unfolding registers_def
proof (intro allI impI)
  fix s :: Scheme assume s: "reg_ok (sch_gvkToType s) rs" "meta_free s"
  have "reg_ok (sch_gvkToType (addObservedVersion gv s)) rs" "meta_free (addObservedVersion gv s)"
    using s by (simp_all add: meta_free_def)
  then obtain s' where "f (addObservedVersion gv s) = Returns s'" "adds rs (addObservedVersion gv s) s'"
    "meta_free s'" by (rule registersD [OF assms])
  then show "\<exists>s'. f (addObservedVersion gv s) = Returns s' \<and> adds rs s s' \<and> meta_free s'" by (simp add: adds_def)
qed

definition type_regs :: "GroupVersion \<Rightarrow> GoType list \<Rightarrow> registration list" where
  "type_regs gv ts = map (\<lambda>t. ((gv, snd t), t)) ts"

lemma registers_AddKnownTypes: "registers (type_regs gv ts) (AddKnownTypes gv ts)"
proof (induction ts)
  case Nil
  show ?case unfolding type_regs_def by (auto intro!: registers_none simp: meta_free_def)
next
  case (Cons t ts)
  from registers_seq [OF registers_observed [OF registers_one] this, of "(gv, snd t)" t gv]
  show ?case by (simp add: type_regs_def)
qed

lemma unversioned_names: "t \<in> set unversionedMeta \<Longrightarrow> t' \<in> set unversionedMeta \<Longrightarrow> snd t = snd t' \<Longrightarrow> t = t'"
  by (auto simp: unversionedMeta_def meta_type_def)

lemma markUnversioned_runs:
  "set ts \<subseteq> set unversionedMeta \<Longrightarrow> registers [] (markUnversioned gv ts)"
proof (induction ts)
  case Nil
  show ?case by (rule registers_none) simp
next
  case (Cons t ts)
  show ?case
  proof (rule registers_none)
    fix s :: Scheme assume s: "meta_free s"
    define s1 where "s1 = s\<lparr>sch_unversionedTypes := (sch_unversionedTypes s)(t \<mapsto> (gv, snd t)),
        sch_unversionedKinds := (sch_unversionedKinds s)(snd t \<mapsto> t)\<rparr>"
    have t: "t \<in> set unversionedMeta" using Cons.prems by simp
    have "markUnversioned gv (t # ts) s = markUnversioned gv ts s1"
      using s t by (auto simp: meta_free_def s1_def Let_def)
    moreover have "meta_free s1" using s t unversioned_names by (auto simp: meta_free_def s1_def)
    ultimately show "\<exists>s'. markUnversioned gv (t # ts) s = Returns s' \<and> sch_gvkToType s' = sch_gvkToType s \<and>
        sch_typeToGVK s' = sch_typeToGVK s \<and> meta_free s'"
      using Cons.IH Cons.prems by (auto simp: registers_def adds_def s1_def)
  qed
qed

definition meta_regs :: "GroupVersion \<Rightarrow> registration list" where
  "meta_regs gv = [((gv, WatchEventKind), meta_type ''WatchEvent''),
     (((fst gv, APIVersionInternal), WatchEventKind), meta_type ''InternalEvent'')] @
     type_regs gv optionsTypes @ type_regs Unversioned unversionedMeta"

lemma registers_AddToGroupVersion: "registers (meta_regs gv) (AddToGroupVersion gv)"
proof -
  have "registers (type_regs Unversioned unversionedMeta @ []) (AddUnversionedTypes Unversioned unversionedMeta)"
    unfolding AddUnversionedTypes_def
    by (intro registers_seq registers_observed registers_AddKnownTypes markUnversioned_runs) simp
  then have "registers (type_regs gv optionsTypes @ type_regs Unversioned unversionedMeta)
      (\<lambda>s. and_then (AddKnownTypes gv optionsTypes s) (AddUnversionedTypes Unversioned unversionedMeta))"
    by (intro registers_seq registers_AddKnownTypes) simp
  from registers_seq [OF registers_one registers_seq [OF registers_one this]]
  show ?thesis unfolding AddToGroupVersion_def meta_regs_def by simp
qed

definition builder_regs :: "Builder \<Rightarrow> registration list" where
  "builder_regs b = concat (map (\<lambda>ts. type_regs (bld_GroupVersion b) ts @ meta_regs (bld_GroupVersion b)) (bld_registered b))"

lemma registers_AddToScheme: "registers (builder_regs b) (AddToScheme b)"
proof -
  have "registers (concat (map (\<lambda>ts. type_regs gv ts @ meta_regs gv) tss)) (run_registered gv tss)" for gv tss
  proof (induction tss)
    case Nil
    show ?case by (auto intro!: registers_none)
  next
    case (Cons ts tss)
    from registers_seq [OF registers_AddKnownTypes registers_seq [OF registers_AddToGroupVersion this]]
    show ?case by simp
  qed
  then show ?thesis by (simp add: builder_regs_def AddToScheme_def)
qed

text \<open>Registrations go through when the kinds determine the types.\<close>

lemma reg_ok_determined:
  assumes "\<forall>r \<in> set rs. snd (fst (fst r)) \<noteq> '''' \<and> snd r = ty (fst r) \<and> (m (fst r) = None \<or> m (fst r) = Some (snd r))"
  shows "reg_ok m rs"
  using assms
proof (induction rs arbitrary: m)
  case (Cons r rs)
  then have "reg_ok (m(fst r \<mapsto> snd r)) rs" by (intro Cons.IH) auto
  with Cons.prems show ?case by auto
qed simp

lemma add_types_keeps: "reg_ok m rs \<Longrightarrow> m g = Some t \<Longrightarrow> add_types rs m g = Some t"
proof (induction rs arbitrary: m)
  case (Cons r rs)
  then have "(m(fst r \<mapsto> snd r)) g = Some t" by (cases "g = fst r") auto
  with Cons.IH [of "m(fst r \<mapsto> snd r)"] Cons.prems show ?case by (simp del: fun_upd_apply)
qed simp

lemma add_types_adds: "reg_ok m rs \<Longrightarrow> (g, t) \<in> set rs \<Longrightarrow> add_types rs m g = Some t"
proof (induction rs arbitrary: m)
  case (Cons r rs)
  then show ?case by (cases "r = (g, t)") (auto simp: add_types_keeps)
qed simp

text \<open>The kinds of a type: those it had, and the new ones in the order of registration.\<close>

lemma add_kinds_of: "add_kinds rs k t = fold (\<lambda>g gs. if g \<in> set gs then gs else gs @ [g])
    (map fst (filter (\<lambda>r. snd r = t) rs)) (k t)"
  by (induction rs arbitrary: k) auto

subsection \<open>The scheme of the command\<close>

definition init_regs :: "registration list" where
  "init_regs = builder_regs pdai_SchemeBuilder @ builder_regs rbg_SchemeBuilder"

definition kind_type :: "GVK \<Rightarrow> GoType" where
  "kind_type g =
     (if snd g = WatchEventKind then meta_type (if snd (fst g) = APIVersionInternal then ''InternalEvent'' else ''WatchEvent'')
      else if snd g \<in> set (map snd (optionsTypes @ unversionedMeta)) then meta_type (snd g)
      else if fst (fst g) = fst pdai_GroupVersion then pdai_type (snd g) else rbg_type (snd g))"

lemmas scheme_eval = type_regs_def meta_regs_def optionsTypes_def unversionedMeta_def meta_type_def pdai_type_def rbg_type_def
  pdai_GroupVersion_def rbg_GroupVersion_def Unversioned_def WatchEventKind_def APIVersionInternal_def

lemma init_regs_determined:
  "list_all (\<lambda>r. snd (fst (fst r)) \<noteq> '''' \<and> snd r = kind_type (fst r) \<and>
     (fst (fst (fst r)) = fst pdai_GroupVersion \<or> fst (fst (fst r)) = fst rbg_GroupVersion \<or>
      fst (fst r) = Unversioned \<and> snd r \<in> set unversionedMeta \<and> snd (fst r) = snd (snd r))) init_regs"
  by code_simp

text \<open>The types of the objects the program passes to the client, and the kinds they are to have.\<close>

definition client_objects :: "(GoType \<times> GVK) list" where
  "client_objects = (rbg_type ''RoleBasedGroup'', (rbg_GroupVersion, ''RoleBasedGroup'')) #
     map (\<lambda>n. (pdai_type n, (pdai_GroupVersion, n)))
       [''PDInferenceService'', ''PDInferenceServiceList'', ''PDEngineProfile'', ''PDEngineProfileList'']"

lemma client_objects_kinds:
  "list_all (\<lambda>(t, gvk). map fst (filter (\<lambda>r. snd r = t) init_regs) = [gvk]) client_objects"
  by code_simp

lemma client_objects_types: "(t, gvk) \<in> set client_objects \<Longrightarrow> \<exists>n. t = pdai_type n \<or> t = rbg_type n"
  by (auto simp: client_objects_def)
text \<open>What the types of client-go leave to the program: its two groups and its own types.\<close>

definition leaves_free :: "Scheme \<Rightarrow> bool" where
  "leaves_free s \<longleftrightarrow> meta_free s \<and>
     (\<forall>g. fst (fst g) = fst pdai_GroupVersion \<or> fst (fst g) = fst rbg_GroupVersion \<longrightarrow> sch_gvkToType s g = None) \<and>
     (\<forall>t \<in> set unversionedMeta. sch_gvkToType s (Unversioned, snd t) = None \<or>
        sch_gvkToType s (Unversioned, snd t) = Some t) \<and>
     (\<forall>n. sch_typeToGVK s (pdai_type n) = [] \<and> sch_typeToGVK s (rbg_type n) = [])"

lemma init_regs_ok:
  assumes "leaves_free s"
  shows "reg_ok (sch_gvkToType s) init_regs"
proof (rule reg_ok_determined [where ty = kind_type], rule ballI)
  fix r assume "r \<in> set init_regs"
  with init_regs_determined have r: "snd (fst (fst r)) \<noteq> ''''" "snd r = kind_type (fst r)"
    "fst (fst (fst r)) = fst pdai_GroupVersion \<or> fst (fst (fst r)) = fst rbg_GroupVersion \<or>
      fst (fst r) = Unversioned \<and> snd r \<in> set unversionedMeta \<and> snd (fst r) = snd (snd r)"
    unfolding list_all_iff by blast+
  from r(3) have "sch_gvkToType s (fst r) = None \<or> sch_gvkToType s (fst r) = Some (snd r)"
  proof (elim disjE conjE)
    assume u: "fst (fst r) = Unversioned" "snd r \<in> set unversionedMeta" "snd (fst r) = snd (snd r)"
    then have "fst r = (Unversioned, snd (snd r))" by (simp add: prod_eq_iff)
    with u(2) assms show ?thesis by (auto simp: leaves_free_def)
  qed (use assms in \<open>simp_all add: leaves_free_def del: split_paired_All\<close>)
  with r show "snd (fst (fst r)) \<noteq> '''' \<and> snd r = kind_type (fst r) \<and>
      (sch_gvkToType s (fst r) = None \<or> sch_gvkToType s (fst r) = Some (snd r))" by blast
qed

text \<open>
  C38: The scheme of the command knows every object the program uses. When the types of client-go
  leave the two groups of the program alone, the registrations of \<^verbatim>\<open>init\<close> go through without a
  panic, keep what was registered before, and give each type of object that the program reads, lists or
  writes exactly one kind, under which the scheme finds the type again. (Without a kind, or with two,
  every client call on the type would fail.)
\<close>

theorem init_registers_objects:
  assumes "clientgo NewScheme = Returns s" and "leaves_free s"
  shows "\<exists>s'. init clientgo = Returns s' \<and>
    (\<forall>t gvk. (t, gvk) \<in> set client_objects \<longrightarrow> sch_typeToGVK s' t = [gvk] \<and> sch_gvkToType s' gvk = Some t) \<and>
    (\<forall>gvk t. sch_gvkToType s gvk = Some t \<longrightarrow> sch_gvkToType s' gvk = Some t)"
proof -
  have run: "init clientgo = and_then (AddToScheme pdai_SchemeBuilder s) (AddToScheme rbg_SchemeBuilder)"
    using assms(1) by (simp add: init_def)
  note ok = init_regs_ok [OF assms(2)]
  have "registers init_regs (\<lambda>s. and_then (AddToScheme pdai_SchemeBuilder s) (AddToScheme rbg_SchemeBuilder))"
    unfolding init_regs_def by (intro registers_seq registers_AddToScheme)
  then obtain s' where s': "init clientgo = Returns s'" "adds init_regs s s'"
    using ok assms(2) run by (auto elim!: registersD simp: leaves_free_def)
  have obj: "sch_typeToGVK s' t = [gvk] \<and> sch_gvkToType s' gvk = Some t"
    if g: "map fst (filter (\<lambda>r. snd r = t) init_regs) = [gvk]" and e: "sch_typeToGVK s t = []" for t gvk
  proof -
    have "(gvk, t) \<in> set init_regs"
    proof -
      have "gvk \<in> set (map fst (filter (\<lambda>r. snd r = t) init_regs))" using g by simp
      then show ?thesis by force
    qed
    then show ?thesis using s'(2) ok g e by (simp add: adds_def add_kinds_of add_types_adds)
  qed
  have "sch_typeToGVK s' t = [gvk] \<and> sch_gvkToType s' gvk = Some t" if t: "(t, gvk) \<in> set client_objects" for t gvk
  proof (rule obj)
    show "map fst (filter (\<lambda>r. snd r = t) init_regs) = [gvk]" using client_objects_kinds t by (auto simp: list_all_iff)
    show "sch_typeToGVK s t = []" using client_objects_types [OF t] assms(2) by (auto simp: leaves_free_def)
  qed
  moreover have "sch_gvkToType s' gvk = Some t" if "sch_gvkToType s gvk = Some t" for gvk t
    using that s'(2) ok by (simp add: adds_def add_types_keeps)
  ultimately show ?thesis using s'(1) by blast
qed

definition sample_clientgo :: "Scheme \<Rightarrow> Scheme outcome" where
  "sample_clientgo s = and_then (AddKnownTypes ('''', ''v1'') [(''k8s.io/api/core/v1'', ''Pod'')] s)
     (AddToGroupVersion ('''', ''v1''))"

theorem init_registers_objects_witness:
  "\<exists>s s'. sample_clientgo NewScheme = Returns s \<and> init sample_clientgo = Returns s' \<and>
     sch_typeToGVK s' (rbg_type ''RoleBasedGroup'') = [(rbg_GroupVersion, ''RoleBasedGroup'')] \<and>
     sch_gvkToType s' (('''', ''v1''), ''Pod'') = Some (''k8s.io/api/core/v1'', ''Pod'')"
proof -
  have "registers (type_regs ('''', ''v1'') [(''k8s.io/api/core/v1'', ''Pod'')] @ meta_regs ('''', ''v1'')) sample_clientgo"
    unfolding sample_clientgo_def by (intro registers_seq registers_AddKnownTypes registers_AddToGroupVersion)
  moreover have "reg_ok Map.empty (type_regs ('''', ''v1'') [(''k8s.io/api/core/v1'', ''Pod'')] @ meta_regs ('''', ''v1''))"
    by (simp add: scheme_eval)
  moreover have "meta_free NewScheme" "sch_gvkToType NewScheme = Map.empty" by (simp_all add: meta_free_def NewScheme_def)
  ultimately obtain s where s: "sample_clientgo NewScheme = Returns s" "meta_free s"
      "adds (type_regs ('''', ''v1'') [(''k8s.io/api/core/v1'', ''Pod'')] @ meta_regs ('''', ''v1'')) NewScheme s"
    by (metis registersD)
  have free: "leaves_free s"
    using s(2,3) by (auto simp: leaves_free_def adds_def scheme_eval NewScheme_def)
  have "sch_gvkToType s (('''', ''v1''), ''Pod'') = Some (''k8s.io/api/core/v1'', ''Pod'')"
    using s(3) by (simp add: adds_def scheme_eval NewScheme_def)
  moreover have "(rbg_type ''RoleBasedGroup'', (rbg_GroupVersion, ''RoleBasedGroup'')) \<in> set client_objects"
    by (simp add: client_objects_def)
  ultimately show ?thesis
    using init_registers_objects [of sample_clientgo s, OF s(1) free] s(1) by blast
qed

end
