(* ===== verification/Spec2Isabelle.thy ===== *)
theory Spec2Isabelle
  imports Webhook Reconcile_Contract Rest_Api Fake_Client Deep_Copy Worker Rest_Interference Admission Entry_Point Type_Scheme
begin

text \<open>
  A verification development for pd-manager, a Kubernetes operator that runs prefill/decode
  disaggregated LLM inference. The program has five parts of its own.

  \<^item> The custom resources \<^verbatim>\<open>PDInferenceService\<close> and \<^verbatim>\<open>PDEngineProfile\<close>
    (\<^verbatim>\<open>api/v1alpha1\<close>).
  \<^item> The admission webhooks (\<^verbatim>\<open>internal/webhook/v1alpha1\<close>), which the API server calls
    before it stores a service: a defaulter and a validator.
  \<^item> The reconciler (\<^verbatim>\<open>internal/controller\<close>), called with the key of a service. It adds a
    finalizer, merges the referenced profile with the inline fields (\<^verbatim>\<open>internal/config\<close>),
    builds a \<^verbatim>\<open>RoleBasedGroup\<close> (\<^verbatim>\<open>internal/translator\<close>), creates or updates the stored
    group, and writes a status computed from it; for a service marked for deletion it removes
    the finalizer.
  \<^item> The REST server (\<^verbatim>\<open>internal/apiserver\<close>), ten handlers behind a \<^verbatim>\<open>ServeMux\<close>.
  \<^item> The entry point (\<^verbatim>\<open>cmd/main.go\<close>), which reads flags and wires the others to a manager.

  They meet in the objects the API server stores. The server is a service, so it is a
  parameter of every definition that talks to it. Inside the process they also share memory:
  the cached client hands out deep copies of its objects, made by
  \<^verbatim>\<open>zz_generated.deepcopy.go\<close>.

  \<^bold>\<open>Theories.\<close>

  \<^descr>[Go_Prelude] Go's strings, maps, integers, panics (\<open>outcome\<close>) and time, and how
    effectful code (the state monad) runs.
  \<^descr>[Kube_Types, Api_Types] The vendored Kubernetes and RoleBasedGroup structs and the
    program's own ones, as records.
  \<^descr>[Apimachinery] API errors, field errors, error aggregation and finalizers.
  \<^descr>[Kube_Client] The record of client operations, the abstraction \<open>cluster\<close> of a server
    state to the stored objects, and the interfaces the proofs use as locales: \<open>kube_reader\<close>
    (reads), \<open>kube_writer\<close> (what successful writes store, and frames for all answers),
    \<open>kube_versioned\<close> (that a write with an outdated resource version changes nothing),
    \<open>kube_reliable\<close> (when calls succeed, with an invariant of the server) and
    \<open>kube_rest\<close> (the calls of the REST server).
  \<^descr>[Fake_Client] The vendored in-memory client over client-go's object tracker, the
    provider the repository's tests use. All five interfaces are interpreted on it, through a
    locale \<open>object_kind\<close> that is itself interpreted for the three kinds.
  \<^descr>[Config_Merger] \<^verbatim>\<open>merger.go\<close>: \<open>Resolve\<close>, and its refinement of a lookup through
    layers.
  \<^descr>[Quantity_Scanner] \<^verbatim>\<open>parseQuantityString\<close> with its indices and slices, proved equal to a
    scanner on lists, so that no access is out of range.
  \<^descr>[Quantities] \<^verbatim>\<open>resource.ParseQuantity\<close> of the vendored API machinery with the big decimals
    below it, integers wrapping where Go's do; which texts it accepts, as a grammar of its own
    (\<open>quantity_syntax\<close>, \<open>suffix_meaning\<close>), and the rational value of what it reads
    (\<open>quantity_value\<close>).
  \<^descr>[Rbg_Builder] \<^verbatim>\<open>rbg_builder.go\<close>: \<open>Build\<close> and its helpers, when they panic, the shape of
    what they return; what it relies on of the parser (\<open>quantity_contract\<close>), interpreted on
    \<open>quantity_parse\<close>.
  \<^descr>[Webhook] \<^verbatim>\<open>pdinferenceservice_webhook.go\<close>: defaulting and validation, acceptance as
    predicates.
  \<^descr>[Status] \<^verbatim>\<open>status.go\<close>: phase, role statuses, Ready condition, \<open>syncStatus\<close>.
  \<^descr>[Controller] \<^verbatim>\<open>pdinferenceservice_controller.go\<close>: \<open>Reconcile\<close> and its helpers, and the
    specification of a reconciliation over stored objects (\<open>merged_of\<close>, \<open>desired_roles\<close>,
    \<open>in_sync\<close>, \<open>applied_to\<close>).
  \<^descr>[Reconcile_Contract] The proofs about whole reconciliations, inside \<open>kube_writer\<close> (what
    holds when one succeeds, and frames for every outcome) and \<open>kube_reliable\<close> (that it
    succeeds, panics or reports a failure).
  \<^descr>[Manager] \<^verbatim>\<open>SetupWithManager\<close> and what controller-runtime makes of it: events to
    requests, the worker's decision to requeue, and the step relation of server, set of pending
    requests and other actors, with its reachable states: the abstract view of the controller.
  \<^descr>[Container_Heap] Go's \<^verbatim>\<open>container/heap\<close> over its interface, a locale with what the routines
    promise of any implementation of the five methods.
  \<^descr>[Workqueue] client-go's queue, delaying queue (channel, heap of waiting entries with
    pointers, map of known entries) and rate limiters; the heap interface interpreted on its
    priority queue, the waiting entries as a map from items to times, and the back-off.
  \<^descr>[Worker] controller-runtime's workers on that queue: \<open>reconcileHandler\<close>,
    \<open>processNextWorkItem\<close> and the loop around it, the step relations of workers and
    surroundings, their invariant, the refinement of \<open>Manager\<close>, and the measure of the work
    left after a shutdown.
  \<^descr>[Interference] Reconciliation when others write before each of its calls and reads come from a
    cache that lags behind: the client \<open>interfering\<close>, a small program logic (\<open>triple\<close>) inside
    \<open>kube_versioned\<close>, and a bound on the number of calls.
  \<^descr>[Rest_Interference] The same for the scaling request of the REST server.
  \<^descr>[Admission] A server with the webhooks in front (\<open>admitting\<close>). The interfaces of a plain
    server (\<open>kube_plain\<close>) give those of the server with webhooks, as sublocales, so every result
    over the interfaces holds for it; interpreted on the in-memory client.
  \<^descr>[Rest_Api] The handlers and the routes, and their lemmas inside \<open>kube_rest\<close>.
  \<^descr>[Entry_Point] \<^verbatim>\<open>cmd/main.go\<close>: flags and their parser, TLS and server options, the
    sequence of calls with its exits; \<^verbatim>\<open>Server.Start\<close>.
  \<^descr>[Type_Scheme] The scheme: registrations, the builders of the API packages, \<^verbatim>\<open>init\<close> of the
    command.
  \<^descr>[Go_Heap] A memory of cells for Go's pointers, slices and maps, the combinators of
    generated copy code, and the contract \<open>deep_copier\<close> (equal contents, fresh memory, the
    original kept) as a locale with a rule for each combinator.
  \<^descr>[Deep_Copy_Kube, Deep_Copy] Every generated copy function of the vendored structs that
    the custom resources contain, and of the custom resources, with the locale interpreted on
    the four root objects.
  \<^descr>[Spec2Isabelle] This theory: the properties that span components, with witnesses that
    run against the in-memory server.

  \<^bold>\<open>How state and operations correspond.\<close> A Go function that talks to the server is a
  function into the state monad, with the client record as an argument; an object passed by
  pointer and read after the call is returned. \<open>Inl\<close> is an error, \<open>None\<close> a nil error,
  \<open>Panic\<close> a run-time panic. Replica counts are 32-bit words compared as signed numbers.
  Request decoding (\<open>decoders\<close>), the clock (\<open>Now\<close>) and the types of client-go are parameters. The
  quantity parser is an argument of the builder and the reconciler, so that most results hold for any
  parser; \<open>quantity_parse\<close> is the real one, and the results on panics and all witnesses are stated with
  it. (A panic inside the parser surfaces as a panic of \<^verbatim>\<open>MustParse\<close> with the parser's message.) No
  definition needs fuel: the loops of the modelled code run over finite slices or maps and are
  total functions, with two exceptions. The loops of the quantity scanner, of the heap and of its
  client recurse on indices and on the shrinking heap, with termination proofs; the loop of a worker does not end
  by itself, so it is a partial function into options, and it is proved to return after a shutdown.

  \<^bold>\<open>What is shown.\<close> Successful reconciliations converge, are idempotent, keep to their own
  key and keep foreign fields of an existing group; on a server that answers they succeed for
  every resolvable and parseable service, finish deletions, report missing profiles, and panic
  exactly on texts that are not quantities. Each makes at most seven calls. The quantity parser accepts
  exactly the texts of a grammar, and reads their decimal value, rounded up to nano units and capped; what
  it makes of exponents of any size, which it truncates to 32 bits, is said exactly, with the texts
  on which it panics. Merging is a
  layered lookup. Built groups have the
  documented shape. Admission is characterised exactly, and what it admits builds to pods
  without dangling mounts and with images and arguments; a server that calls the webhooks keeps
  the interfaces, so they never block the controller, and its stored services stay defaulted
  and keep their immutable fields. The written phase, role counts and Ready condition are
  decided exactly by what the group reports. The REST handlers create, read, scale and delete what they say, and only
  that; posting, reconciling, deleting and reconciling again leaves no service behind.
  In the whole system, with its real queue and any number of workers, no live service is forgotten
  unless its profile could not be resolved, no two workers hold the same request, delayed requests
  come back when they are due, failing ones back off exponentially, and a shutdown ends after a
  bounded number of steps with the queue drained. What wakes the controller is characterised exactly (profiles do not), and
  interleaved writers lose no update to a reconciliation or a scaling request, also under stale
  reads. The generated copies share no memory with the original,
  with the one exception of a profile's role commands, which they do share. The process stops
  at the first failing call, and its servers are hardened as the flags say. Its scheme knows every type
  of object it uses under exactly one kind.

  \<^bold>\<open>Assumptions worth knowing.\<close> Outside \<open>Interference\<close> and \<open>Rest_Interference\<close> no other
  actor writes between the calls of one reconciliation or request, and reads return the stored object. In
  \<open>Interference\<close> other actors are arbitrary functions on the server and reads show any earlier
  state; assumed is only that over the run a resource version of an object stands for one
  specification (\<open>versions_ok\<close>). In \<open>Manager\<close> and \<open>Worker\<close> they act between reconciliations; in
  \<open>Worker\<close> events arrive at any later time, and each method of the queue is one step, as its lock
  makes it; \<^verbatim>\<open>AddAfter\<close> and the goroutine of the delaying queue hold no lock around their test for the
  shutdown, so a shutdown may overtake them in the model too. The delay the token bucket asks for and the clock are arbitrary in every step. A stored
  group marked for deletion without finalizers is excluded by \<open>rbg_settled\<close>. Results on the quantity parser bound the
  text to 2^30 characters, so that lengths and scales fit 32 bits.

  \<^bold>\<open>Not modelled.\<close> Log output, metrics and the HTTP transport. How the API server
  words a refusal is a parameter, and so is JSON decoding. Of the vendored packages only what the
  program calls is modelled: of quantities the parser, but not printing and arithmetic; of the
  manager the events, the queue and the workers, but not the floating-point token bucket, priorities,
  warm-up and leader election; of the scheme the
  types, but not conversions and defaulting functions.
\<close>

section \<open>A concrete cluster\<close>

text \<open>
  A cluster with one service, used to apply the theorems below at concrete inputs; its API
  server is the in-memory client.
\<close>

definition sample_key :: NamespacedName where
  "sample_key = mk_key ''default'' ''svc''"

definition sample_state :: "PDInferenceService \<Rightarrow> fake_state" where
  "sample_state p = \<lparr>fk_pdis = [p], fk_profiles = [], fk_rbgs = [], fk_now = 10\<rparr>"

definition empty_state :: fake_state where
  "empty_state = \<lparr>fk_pdis = [], fk_profiles = [], fk_rbgs = [], fk_now = 0\<rparr>"

lemma sample_stored:
  assumes "pd_ObjectMeta p = (pd_ObjectMeta sample_pdis)\<lparr>om_Finalizers := fs, om_DeletionTimestamp := t\<rparr>"
  shows "cl_pdis (fake_cluster (sample_state p)) sample_key = Some p" and "fake_ok (sample_state p)"
    and "rbg_settled (fake_cluster (sample_state p)) k"
proof -
  have "pdis_key p = sample_key"
    using assms by (simp add: sample_key_def meta_key_def sample_pdis_def)
  then show "cl_pdis (fake_cluster (sample_state p)) sample_key = Some p"
    by (simp add: sample_state_def tracker_lookup_def)
  have "next_version ''7'' \<noteq> None"
    by (simp add: next_version_def ParseUint_def digit_val_def)
  then show "fake_ok (sample_state p)"
    using assms by (simp add: fake_ok_def stored_ok_def sample_state_def sample_pdis_def)
  show "rbg_settled (fake_cluster (sample_state p)) k"
    by (simp add: rbg_settled_def sample_state_def tracker_lookup_def)
qed

lemma sample_meta: "pd_ObjectMeta sample_pdis = (pd_ObjectMeta sample_pdis)\<lparr>om_Finalizers := [], om_DeletionTimestamp := None\<rparr>"
  by (simp add: sample_pdis_def empty_ObjectMeta_def)

lemma sample_reconcilable:
  "reconcilable quantity_parse (\<lambda>spec. spec) (fake_cluster (sample_state sample_pdis)) sample_key sample_spec"
proof -
  note st = sample_stored [OF sample_meta]
  have "merged_of (fake_cluster (sample_state sample_pdis)) sample_pdis \<noteq> None"
    by (simp add: merged_of_def sample_pdis_def sample_spec_def zero_defs)
  with st sample_parses show ?thesis
    by (auto simp: reconcilable_def sample_pdis_def empty_ObjectMeta_def)
qed

text \<open>One reconciliation of the sample, run by the in-memory server.\<close>

lemma sample_run:
  obtains s' where "run_state (Reconcile quantity_parse fakeClient sample_key) (sample_state sample_pdis) =
      (Returns (\<lparr>res_RequeueAfter = 10 * Second\<rparr>, None), s')"
    and "fake_ok s'" and "in_sync quantity_parse (fake_cluster s') sample_key"
    and "reconcilable quantity_parse (\<lambda>spec. spec) (fake_cluster s') sample_key sample_spec"
  using kube_reliable.Reconcile_reconcilable [OF fake_server.kube_reliable_axioms
      sample_stored(2) [OF sample_meta] sample_reconcilable] by blast

lemma requeue_ne: "\<lparr>res_RequeueAfter = 10 * Second\<rparr> \<noteq> no_requeue"
  by (simp add: no_requeue_def Second_def)

section \<open>Properties of reconciliation\<close>

text \<open>
  C1: A reconciliation that asks to be requeued has converged. Against any API server that
  keeps the laws of \<open>kube_writer\<close>, when \<^verbatim>\<open>Reconcile\<close> returns a requeue and no error, the
  stored service is live and carries the finalizer, the stored group has exactly the roles the
  builder makes of the stored service and profile, and the stored status (phase, role counts
  and Ready condition) reflects the stored group. The requeue is always ten seconds.
\<close>

theorem reconcile_converges:
  assumes "kube_writer api cluster admit"
    and "run_state (Reconcile pq api req) s = (Returns (res, None), s')"
    and "res \<noteq> no_requeue" and "rbg_settled (cluster s) req"
  shows "in_sync pq (cluster s') req \<and> res = \<lparr>res_RequeueAfter = 10 * Second\<rparr> \<and>
     (\<exists>p. cl_pdis (cluster s') req = Some p \<and> status_reflects (cl_rbgs (cluster s') req) p)"
  using kube_writer.Reconcile_converges [OF assms] .

theorem reconcile_converges_witness:
  "\<exists>s' p. run_state (Reconcile quantity_parse fakeClient sample_key) (sample_state sample_pdis) =
       (Returns (\<lparr>res_RequeueAfter = 10 * Second\<rparr>, None), s') \<and>
     in_sync quantity_parse (fake_cluster s') sample_key \<and>
     cl_pdis (fake_cluster s') sample_key = Some p \<and> status_reflects (cl_rbgs (fake_cluster s') sample_key) p"
proof (rule sample_run)
  fix s' assume r: "run_state (Reconcile quantity_parse fakeClient sample_key) (sample_state sample_pdis) =
      (Returns (\<lparr>res_RequeueAfter = 10 * Second\<rparr>, None), s')"
  from reconcile_converges [OF fake_write.kube_writer_axioms r requeue_ne sample_stored(3) [OF sample_meta]] r
  show ?thesis by blast
qed

text \<open>
  C2: Progress. On a server that answers, a live service whose specification survives
  admission, whose profile is stored and whose quantities parse is brought in sync by its
  first reconciliation; every further reconciliation keeps it in sync and leaves the
  specification of the group as the first one made it.
\<close>

theorem reconcile_progress:
  assumes "kube_reliable api cluster admit ok" and "ok s" and "reconcilable pq admit (cluster s) req spec"
  shows "(\<exists>s'. run_state (Reconcile pq api req) s = (Returns (\<lparr>res_RequeueAfter = 10 * Second\<rparr>, None), s')) \<and>
     in_sync pq (cluster (reconciles pq api req (Suc n) s)) req \<and>
     reconcilable pq admit (cluster (reconciles pq api req (Suc n) s)) req spec \<and>
     map_option rbg_Spec (cl_rbgs (cluster (reconciles pq api req (Suc n) s)) req) =
       map_option rbg_Spec (cl_rbgs (cluster (reconciles pq api req 1 s)) req)"
  using kube_reliable.Reconcile_reconcilable [OF assms] kube_reliable.reconciles_stay [OF assms, of "Suc n"]
    kube_reliable.reconciles_group [OF assms, of n]
  by auto

theorem reconcile_progress_witness:
  "in_sync quantity_parse (fake_cluster (reconciles quantity_parse fakeClient sample_key 3 (sample_state sample_pdis)))
     sample_key"
  using reconcile_progress [OF fake_server.kube_reliable_axioms sample_stored(2) [OF sample_meta]
      sample_reconcilable, of 2]
  by (simp only: numeral_3_eq_3 numeral_2_eq_2)

text \<open>
  C10: A synchronised service is a fixed point. When the stored objects already agree, a
  reconciliation that succeeds leaves the specification of the service and the specification
  and status of the group as they are, and they still agree.
\<close>

theorem reconcile_stable:
  assumes "kube_writer api cluster admit"
    and "run_state (Reconcile pq api req) s = (Returns (res, None), s')"
    and "in_sync pq (cluster s) req" and "res \<noteq> no_requeue" and "rbg_settled (cluster s) req"
  shows "in_sync pq (cluster s') req \<and>
     map_option pd_Spec (cl_pdis (cluster s') req) = map_option pd_Spec (cl_pdis (cluster s) req) \<and>
     map_option rbg_Spec (cl_rbgs (cluster s') req) = map_option rbg_Spec (cl_rbgs (cluster s) req) \<and>
     map_option rbg_Status (cl_rbgs (cluster s') req) = map_option rbg_Status (cl_rbgs (cluster s) req)"
  using kube_writer.Reconcile_stable [OF assms] .

theorem reconcile_stable_witness:
  "\<exists>s1 s2. run_state (Reconcile quantity_parse fakeClient sample_key) (sample_state sample_pdis) =
       (Returns (\<lparr>res_RequeueAfter = 10 * Second\<rparr>, None), s1) \<and>
     run_state (Reconcile quantity_parse fakeClient sample_key) s1 =
       (Returns (\<lparr>res_RequeueAfter = 10 * Second\<rparr>, None), s2) \<and>
     map_option rbg_Spec (cl_rbgs (fake_cluster s2) sample_key) =
       map_option rbg_Spec (cl_rbgs (fake_cluster s1) sample_key)"
proof (rule sample_run)
  fix s1 assume a: "run_state (Reconcile quantity_parse fakeClient sample_key) (sample_state sample_pdis) =
      (Returns (\<lparr>res_RequeueAfter = 10 * Second\<rparr>, None), s1)"
    "fake_ok s1" "in_sync quantity_parse (fake_cluster s1) sample_key"
    "reconcilable quantity_parse (\<lambda>spec. spec) (fake_cluster s1) sample_key sample_spec"
  from kube_reliable.Reconcile_reconcilable [OF fake_server.kube_reliable_axioms a(2,4)] obtain s2 where
      r: "run_state (Reconcile quantity_parse fakeClient sample_key) s1 =
        (Returns (\<lparr>res_RequeueAfter = 10 * Second\<rparr>, None), s2)" by blast
  have "rbg_settled (fake_cluster s1) sample_key" using a(4) by (auto simp: reconcilable_def)
  from reconcile_stable [OF fake_write.kube_writer_axioms r a(3) requeue_ne this] a(1) r
  show ?thesis by blast
qed

text \<open>
  C11: Reconciling one service never touches another. Whatever \<^verbatim>\<open>Reconcile\<close> answers, be it a
  result, an error of any call or a panic, the profiles and the services and groups under
  every other key are unchanged.
\<close>

theorem reconcile_touches_own_key:
  assumes "kube_writer api cluster admit" and "run_state (Reconcile pq api req) s = (out, s')"
  shows "only_at req (cluster s) (cluster s')"
  using kube_writer.Reconcile_frame [OF assms] .

theorem reconcile_touches_own_key_witness:
  "\<exists>out s'. run_state (Reconcile quantity_parse fakeClient sample_key) (sample_state sample_pdis) = (out, s') \<and>
     only_at sample_key (fake_cluster (sample_state sample_pdis)) (fake_cluster s')"
  using reconcile_touches_own_key [OF fake_write.kube_writer_axioms prod.collapse [symmetric]]
  by (metis prod.collapse)

text \<open>
  C12: What an existing group keeps. When a group was already stored, a reconciliation that
  asks for a requeue changes its role list only: role templates, gang-scheduling policy,
  coordination, status and metadata stay (up to the resource version). The roles themselves
  are replaced whole: the replica counts become those of the service and no role has a scaling
  adapter, whatever another actor had set.
\<close>

theorem reconcile_resets_roles:
  assumes "kube_writer api cluster admit"
    and "run_state (Reconcile pq api req) s = (Returns (res, None), s')"
    and "res \<noteq> no_requeue" and "rbg_settled (cluster s) req" and "cl_rbgs (cluster s) req = Some h"
  shows "\<exists>g q. cl_rbgs (cluster s') req = Some g \<and> cl_pdis (cluster s') req = Some q \<and>
     rbg_Spec g = (rbg_Spec h)\<lparr>rgs_Roles := rgs_Roles (rbg_Spec g)\<rparr> \<and> rbg_Status g = rbg_Status h \<and>
     same_object_meta (rbg_ObjectMeta h) (rbg_ObjectMeta g) \<and>
     map (\<lambda>r. (rs_Name r, rs_Replicas r, rs_ScalingAdapter r)) (rgs_Roles (rbg_Spec g)) =
       [(''router'', Some (routerReplicas (sp_Router (pd_Spec q))), None),
        (''prefill'', Some (irs_Replicas (sp_Prefill (pd_Spec q))), None),
        (''decode'', Some (irs_Replicas (sp_Decode (pd_Spec q))), None)]"
  using assms(1-4)
proof (rule kube_writer.Reconcile_synced)
  fix p q q' cfg d g t1 t2
  assume a: "Build pq q cfg = Returns (Inr d)" "applied_to (cl_rbgs (cluster s) req) d g"
    "cl_pdis (cluster s') req = Some q'" "cl_rbgs (cluster s') req = Some g" "pd_Spec q' = pd_Spec q"
  from a(1) obtain router prefill decode where
      r: "buildRouterRole pq q cfg = Returns router" and
      p: "buildInferenceRole pq ''prefill'' q (sp_Prefill (pd_Spec q)) (im_Prefill (mc_Images cfg))
          (mc_PrefillCommand cfg) (mc_PrefillArgs cfg)
          (resolveEngineRuntimes (irs_EngineRuntimes (sp_Prefill (pd_Spec q)))
            (case mc_EngineRuntimes cfg of None \<Rightarrow> [] | Some er \<Rightarrow> re_Prefill er)) = Returns prefill" and
      d: "buildInferenceRole pq ''decode'' q (sp_Decode (pd_Spec q)) (im_Decode (mc_Images cfg))
          (mc_DecodeCommand cfg) (mc_DecodeArgs cfg)
          (resolveEngineRuntimes (irs_EngineRuntimes (sp_Decode (pd_Spec q)))
            (case mc_EngineRuntimes cfg of None \<Rightarrow> [] | Some er \<Rightarrow> re_Decode er)) = Returns decode" and
      roles: "rgs_Roles (rbg_Spec d) = [router, prefill, decode]"
    unfolding Build_returns_iff by blast
  have "rgs_Roles (rbg_Spec g) = [router, prefill, decode]"
    using applied_to_roles [OF a(2)] roles by simp
  moreover have "rbg_Spec g = (rbg_Spec h)\<lparr>rgs_Roles := rgs_Roles (rbg_Spec g)\<rparr>" "rbg_Status g = rbg_Status h"
      "same_object_meta (rbg_ObjectMeta h) (rbg_ObjectMeta g)"
    using a(2) assms(5) by (simp_all add: applied_to_def)
  ultimately show ?thesis
    using a(3-5) buildRouterRole_ok [OF r] buildInferenceRole_ok [OF p] buildInferenceRole_ok [OF d]
    by (intro exI [of _ g] exI [of _ q']) (simp add: role_ok_def)
qed

theorem reconcile_resets_roles_witness:
  "\<exists>s1 s2 h g. run_state (Reconcile quantity_parse fakeClient sample_key) s1 =
       (Returns (\<lparr>res_RequeueAfter = 10 * Second\<rparr>, None), s2) \<and>
     cl_rbgs (fake_cluster s1) sample_key = Some h \<and> cl_rbgs (fake_cluster s2) sample_key = Some g \<and>
     same_object_meta (rbg_ObjectMeta h) (rbg_ObjectMeta g)"
proof (rule sample_run)
  fix s1 assume a: "fake_ok s1" "in_sync quantity_parse (fake_cluster s1) sample_key"
    "reconcilable quantity_parse (\<lambda>spec. spec) (fake_cluster s1) sample_key sample_spec"
  from kube_reliable.Reconcile_reconcilable [OF fake_server.kube_reliable_axioms a(1,3)] obtain s2 where
      r: "run_state (Reconcile quantity_parse fakeClient sample_key) s1 =
        (Returns (\<lparr>res_RequeueAfter = 10 * Second\<rparr>, None), s2)" by blast
  have st: "rbg_settled (fake_cluster s1) sample_key" using a(3) by (auto simp: reconcilable_def)
  from a(2) obtain h where h: "cl_rbgs (fake_cluster s1) sample_key = Some h" by (auto simp: in_sync_def)
  from reconcile_resets_roles [OF fake_write.kube_writer_axioms r requeue_ne st h] r h
  show ?thesis by blast
qed

text \<open>
  C13: Deletion finishes. On a server that answers, reconciling a service marked for deletion
  succeeds without a requeue and without touching any group; it removes every occurrence of
  the controller's finalizer, so the object is gone iff it had no other finalizer, and keeps
  the other finalizers in order.
\<close>

theorem reconcile_deletion:
  assumes "kube_reliable api cluster admit ok" and "ok s" and "cl_pdis (cluster s) req = Some p"
    and "\<not> Time_IsZero (om_DeletionTimestamp (pd_ObjectMeta p))"
  shows "\<exists>s'. run_state (Reconcile pq api req) s = (Returns (no_requeue, None), s') \<and>
     cl_rbgs (cluster s') = cl_rbgs (cluster s) \<and>
     (case cl_pdis (cluster s') req of
        None \<Rightarrow> finalizer \<in> set (pd_Finalizers p) \<and> (\<forall>f \<in> set (pd_Finalizers p). f = finalizer)
      | Some q \<Rightarrow> pd_Finalizers q = filter (\<lambda>f. f \<noteq> finalizer) (pd_Finalizers p) \<and>
                  (finalizer \<in> set (pd_Finalizers p) \<longrightarrow> pd_Finalizers q \<noteq> []) \<and>
                  pd_Status q = pd_Status p)"
proof -
  from kube_reliable.Reconcile_finishes_deletion [OF assms] obtain s' where
      r: "run_state (Reconcile pq api req) s = (Returns (no_requeue, None), s')" by blast
  have "kube_writer api cluster admit" using assms(1) by (simp add: kube_reliable_def)
  from kube_writer.Reconcile_deleting [OF this r assms(3,4)] r show ?thesis by blast
qed

definition sample_deleted :: PDInferenceService where
  "sample_deleted = sample_pdis\<lparr>pd_ObjectMeta := (pd_ObjectMeta sample_pdis)
     \<lparr>om_Finalizers := [finalizer], om_DeletionTimestamp := Some 9\<rparr>\<rparr>"

theorem reconcile_deletion_witness:
  "\<exists>s'. run_state (Reconcile quantity_parse fakeClient sample_key) (sample_state sample_deleted) =
       (Returns (no_requeue, None), s') \<and> cl_pdis (fake_cluster s') sample_key = None"
proof -
  have m: "pd_ObjectMeta sample_deleted =
      (pd_ObjectMeta sample_pdis)\<lparr>om_Finalizers := [finalizer], om_DeletionTimestamp := Some 9\<rparr>"
    by (simp add: sample_deleted_def)
  have "\<not> Time_IsZero (om_DeletionTimestamp (pd_ObjectMeta sample_deleted))" by (simp add: m)
  from reconcile_deletion [OF fake_server.kube_reliable_axioms sample_stored(2,1) [OF m] this, of quantity_parse]
  obtain s' where "run_state (Reconcile quantity_parse fakeClient sample_key) (sample_state sample_deleted) =
       (Returns (no_requeue, None), s')"
      "case cl_pdis (fake_cluster s') sample_key of None \<Rightarrow> True | Some q \<Rightarrow> False"
    by (auto simp: m split: option.splits)
  then show ?thesis by (auto split: option.splits)
qed

text \<open>
  C14: A missing profile is reported. On a server that answers, reconciling a live service whose
  profile is not stored succeeds without a requeue, leaves every group alone and stores the
  phase Failed with an event that names the profile; conditions, endpoint and role statuses
  stay as they were.
\<close>

theorem reconcile_missing_profile:
  assumes "kube_reliable api cluster admit ok" and "ok s" and "cl_pdis (cluster s) req = Some p"
    and "Time_IsZero (om_DeletionTimestamp (pd_ObjectMeta p))" and "admit (pd_Spec p) = pd_Spec p"
    and "merged_of (cluster s) p = None"
  shows "\<exists>s' q e. run_state (Reconcile pq api req) s = (Returns (no_requeue, None), s') \<and>
     cl_rbgs (cluster s') = cl_rbgs (cluster s) \<and> cl_pdis (cluster s') req = Some q \<and> pd_Spec q = pd_Spec p \<and>
     pd_Status q = (pd_Status p)\<lparr>st_Phase := PhaseFailed, st_LastEvent := Some
       \<lparr>evr_Reason = ''ProfileResolveFailed'',
        evr_Message = ''get profile '' @ go_quote (sp_EngineProfileRef (pd_Spec p)) @ '': '' @ Error e\<rparr>\<rparr>"
proof -
  from kube_reliable.Reconcile_reports_failure [OF assms] obtain s' where
      r: "run_state (Reconcile pq api req) s = (Returns (no_requeue, None), s')" by blast
  have "kube_writer api cluster admit" using assms(1) by (simp add: kube_reliable_def)
  from kube_writer.Reconcile_failed_profile [OF this r assms(3-6)] r show ?thesis
    by (auto simp: failedStatus_def)
qed

definition sample_unprofiled :: PDInferenceService where
  "sample_unprofiled = sample_pdis\<lparr>pd_Spec := sample_spec\<lparr>sp_EngineProfileRef := ''gone''\<rparr>\<rparr>"

theorem reconcile_missing_profile_witness:
  "\<exists>s' q. run_state (Reconcile quantity_parse fakeClient sample_key) (sample_state sample_unprofiled) =
       (Returns (no_requeue, None), s') \<and>
     cl_pdis (fake_cluster s') sample_key = Some q \<and> st_Phase (pd_Status q) = PhaseFailed"
proof -
  have m: "pd_ObjectMeta sample_unprofiled =
      (pd_ObjectMeta sample_pdis)\<lparr>om_Finalizers := [], om_DeletionTimestamp := None\<rparr>"
    using sample_meta by (simp add: sample_unprofiled_def)
  have "merged_of (fake_cluster (sample_state sample_unprofiled)) sample_unprofiled = None"
    by (simp add: merged_of_def sample_unprofiled_def sample_state_def tracker_lookup_def)
  moreover have "Time_IsZero (om_DeletionTimestamp (pd_ObjectMeta sample_unprofiled))" by (simp add: m)
  ultimately show ?thesis
    using reconcile_missing_profile [OF fake_server.kube_reliable_axioms sample_stored(2,1) [OF m], of quantity_parse]
    by fastforce
qed

text \<open>
  C30: No reconciliation that succeeds writes the phase Terminating: a service that did not have
  it and is still stored afterwards does not have it then.
\<close>

theorem reconcile_never_terminating:
  assumes "kube_writer api cluster admit"
    and "run_state (Reconcile pq api req) s = (Returns (res, None), s')" and "rbg_settled (cluster s) req"
    and "cl_pdis (cluster s) req = Some p" and "cl_pdis (cluster s') req = Some p'"
    and "st_Phase (pd_Status p) \<noteq> PhaseTerminating"
  shows "st_Phase (pd_Status p') \<noteq> PhaseTerminating"
  using kube_writer.Reconcile_never_terminating [OF assms] .

theorem reconcile_never_terminating_witness:
  "\<exists>s' p'. run_state (Reconcile quantity_parse fakeClient sample_key) (sample_state sample_pdis) =
       (Returns (\<lparr>res_RequeueAfter = 10 * Second\<rparr>, None), s') \<and>
     cl_pdis (fake_cluster s') sample_key = Some p' \<and> st_Phase (pd_Status p') \<noteq> PhaseTerminating"
proof (rule sample_run)
  fix s' assume a: "run_state (Reconcile quantity_parse fakeClient sample_key) (sample_state sample_pdis) =
      (Returns (\<lparr>res_RequeueAfter = 10 * Second\<rparr>, None), s')"
    "in_sync quantity_parse (fake_cluster s') sample_key"
  from a(2) obtain p' where p': "cl_pdis (fake_cluster s') sample_key = Some p'" by (auto simp: in_sync_def)
  have "st_Phase (pd_Status sample_pdis) \<noteq> PhaseTerminating"
    by (simp add: sample_pdis_def zero_defs Phase_defs)
  from reconcile_never_terminating [OF fake_write.kube_writer_axioms a(1) sample_stored(3,1) [OF sample_meta] p' this]
  show ?thesis using a(1) p' by blast
qed

text \<open>
  C29: The quantities decide. On a server that answers, take a live service with a resolvable
  configuration whose quantity texts are of bounded length and without huge exponents. When every text
  is a quantity, a reconciliation succeeds and the stored objects agree; when one is not, every
  reconciliation panics, no group is touched, and the service never gets one.
\<close>

theorem reconcile_quantities_decide:
  assumes "kube_reliable api cluster admit ok" and "ok s" and "cl_pdis (cluster s) req = Some p"
    and "Time_IsZero (om_DeletionTimestamp (pd_ObjectMeta p))" and "admit (pd_Spec p) = pd_Spec p"
    and "merged_of (cluster s) p \<noteq> None" and "rbg_settled (cluster s) req"
    and "list_all small_text (spec_quantities (pd_Spec p))"
  shows "if list_all quantity_syntax (spec_quantities (pd_Spec p))
    then \<exists>s'. run_state (Reconcile quantity_parse api req) s = (Returns (\<lparr>res_RequeueAfter = 10 * Second\<rparr>, None), s') \<and>
      in_sync quantity_parse (cluster s') req
    else \<exists>m s'. run_state (Reconcile quantity_parse api req) s = (Panic m, s') \<and>
      cl_rbgs (cluster s') = cl_rbgs (cluster s)"
proof (cases "list_all quantity_syntax (spec_quantities (pd_Spec p))")
  case True
  then have "reconcilable quantity_parse admit (cluster s) req (pd_Spec p)"
    using assms(3-7) parser.parses_all [OF assms(8)] by (auto simp: reconcilable_def)
  from kube_reliable.Reconcile_reconcilable [OF assms(1,2) this] True show ?thesis by auto
next
  case False
  then have "\<exists>t \<in> set (spec_quantities (pd_Spec p)). \<not> parses quantity_parse t"
    using parser.parses_all [OF assms(8)] by auto
  from kube_reliable.Reconcile_always_panics [OF assms(1-6) this] obtain m s' where
      r: "run_state (Reconcile quantity_parse api req) s = (Panic m, s')" by blast
  have "kube_writer api cluster admit" using assms(1) by (simp add: kube_reliable_def)
  from kube_writer.Reconcile_panic [OF this r] r False show ?thesis by auto
qed

definition sample_poisoned :: PDInferenceService where
  "sample_poisoned = sample_pdis\<lparr>pd_Spec := sample_spec\<lparr>sp_Decode := sample_role\<lparr>irs_GPU := ''eight''\<rparr>\<rparr>\<rparr>"

theorem reconcile_quantities_decide_witness:
  "(\<exists>m s'. run_state (Reconcile quantity_parse fakeClient sample_key) (sample_state sample_poisoned) = (Panic m, s')) \<and>
   spec_valid (pd_Spec sample_poisoned)"
proof
  have m: "pd_ObjectMeta sample_poisoned =
      (pd_ObjectMeta sample_pdis)\<lparr>om_Finalizers := [], om_DeletionTimestamp := None\<rparr>"
    using sample_meta by (simp add: sample_poisoned_def)
  have qs: "spec_quantities (pd_Spec sample_poisoned) = [''4'', ''1'', ''8'', ''4'', ''1'', ''eight'']"
    by (simp add: sample_poisoned_def spec_quantities_def sample_defs volume_quantities_def resource_quantities_def)
  then have small: "list_all small_text (spec_quantities (pd_Spec sample_poisoned))"
    by (simp add: small_text_def parse_eval)
  have "\<not> parses quantity_parse ''eight''" by (simp add: parses_def quantity_parse_def parse_eval)
  moreover have "small_text ''eight''" by (simp add: small_text_def parse_eval)
  ultimately have bad: "\<not> list_all quantity_syntax (spec_quantities (pd_Spec sample_poisoned))"
    unfolding qs by (simp add: parses_quantity_parse)
  have "merged_of (fake_cluster (sample_state sample_poisoned)) sample_poisoned \<noteq> None"
    by (simp add: merged_of_def sample_poisoned_def sample_spec_def zero_defs)
  with reconcile_quantities_decide [OF fake_server.kube_reliable_axioms sample_stored(2,1) [OF m] _ _ _
      sample_stored(3) [OF m] small] m bad
  show "\<exists>m s'. run_state (Reconcile quantity_parse fakeClient sample_key) (sample_state sample_poisoned) = (Panic m, s')"
    by auto
  show "spec_valid (pd_Spec sample_poisoned)"
    by (simp add: spec_valid_def sample_poisoned_def sample_defs inline_complete_def all_roles mounts_defined_def)
qed

section \<open>The controller among others\<close>

lemma fake_keyed: "keyed (fake_cluster s)"
  using pdis_kind.lookup_key by (fastforce simp: keyed_def)

text \<open>
  A concrete run: the manager starts with the sample service, its event arrives, the first of
  two workers reconciles it and asks for it again in ten seconds.
\<close>

lemma sample_woken: "sample_key \<in> woken no_objects (fake_cluster (sample_state sample_pdis))"
  using woken_service [of no_objects "fake_cluster (sample_state sample_pdis)" sample_key] fake_keyed
    sample_stored(1) [OF sample_meta] by (simp add: keyed_def no_objects_def)

definition sample_queued :: "fake_state manager" where
  "sample_queued = (start_manager fake_cluster (sample_state sample_pdis))
     \<lparr>mg_queue := on_delaying (on_typed (Typed_Add sample_key)) NewTypedRateLimitingQueue\<rparr>"

definition sample_taken :: "fake_state manager" where
  "sample_taken = sample_queued\<lparr>mg_queue := on_delaying (on_typed (\<lambda>q. q\<lparr>wq_queue := [], wq_dirty := {},
     wq_processing := {sample_key}\<rparr>)) NewTypedRateLimitingQueue, mg_workers := (\<lambda>_. Idle)(0 := Taken sample_key)\<rparr>"

lemmas sample_manager_defs = sample_queued_def sample_taken_def start_manager_def NewTypedRateLimitingQueue_def
  newDelayingQueue_def newQueue_def Typed_Add_def

lemma sample_queued_run:
  "manager_run quantity_parse fakeClient fake_cluster 2 (start_manager fake_cluster (sample_state sample_pdis)) 0 sample_queued"
proof -
  let ?m = "start_manager fake_cluster (sample_state sample_pdis)"
  have "sample_key \<in> mg_events ?m" using sample_woken by (simp add: start_manager_def)
  from manager_run.outer [OF manager_run.begin_run outer_step.deliver [OF this disjI1 [OF refl]]]
  show ?thesis by (simp add: sample_queued_def start_manager_def)
qed

lemma sample_taken_run:
  "manager_run quantity_parse fakeClient fake_cluster 2 (start_manager fake_cluster (sample_state sample_pdis)) 1 sample_taken"
proof -
  have "GetWithPriority (mg_queue sample_queued) = Some (Some sample_key, mg_queue sample_taken)"
    by (simp add: GetWithPriority_def Typed_Get_def sample_manager_defs)
  from manager_run.work [OF sample_queued_run _ worker_step.take [OF _ this], of 0]
  show ?thesis by (simp add: sample_taken_def sample_queued_def start_manager_def)
qed

text \<open>
  C3: No live service is forgotten. Take the controller with its real queue: any number of
  workers, events that arrive late and in any order, delayed and rate limited requests, and
  anybody else changing the stored objects at any time. In every state it can reach before it
  is told to shut down, each stored service that is not marked for deletion has its request
  outstanding (in an event on its way, in the queue, among the delayed entries, or with a worker
  that will still reconcile it or add it again), or its stored status says that its profile
  could not be resolved.
\<close>

theorem no_service_forgotten:
  assumes "kube_writer api cluster admit" and "\<And>s. keyed (cluster s)"
    and "manager_run pq api cluster n (start_manager cluster s0) c m" and "\<not> shut (delaying m)"
    and "cl_pdis (cluster (mg_server m)) k = Some p" and "Time_IsZero (om_DeletionTimestamp (pd_ObjectMeta p))"
  shows "k \<in> outstanding n m \<or> profile_failed p"
proof -
  obtain Q where "reachable pq api cluster (mg_server m, Q)" "Q \<subseteq> outstanding n m"
    using manager_refines_system [OF assms(3,4)] by blast
  with kube_writer.queue_invariant [OF assms(1,2) _ assms(5,6)] show ?thesis by blast
qed

theorem no_service_forgotten_witness:
  "manager_run quantity_parse fakeClient fake_cluster 2 (start_manager fake_cluster (sample_state sample_pdis)) 1 sample_taken \<and>
   wq_queue (dt_TypedInterface (delaying sample_taken)) = [] \<and> sample_key \<in> outstanding 2 sample_taken"
proof -
  have "\<not> shut (delaying sample_taken)" "mg_server sample_taken = sample_state sample_pdis"
    by (simp_all add: sample_manager_defs)
  moreover have "wq_queue (dt_TypedInterface (delaying sample_taken)) = []" by (simp add: sample_manager_defs)
  ultimately show ?thesis
    using no_service_forgotten [OF fake_write.kube_writer_axioms fake_keyed sample_taken_run, of sample_key sample_pdis]
      sample_stored(1) [OF sample_meta] sample_taken_run
    by (simp add: sample_defs profile_failed_def empty_ObjectMeta_def PhaseFailed_def)
qed

text \<open>
  C4: Each request is with one worker at a time. With any number of workers, in every state
  the system can reach, no two workers hold the same request; the requests held are exactly
  those the queue lists as being processed, and the queue holds, without duplicates, exactly the
  requests to be done that nobody holds. A request added while a worker holds it therefore
  waits for that worker.
\<close>

theorem one_worker_per_request:
  assumes "manager_run pq api cluster n (start_manager cluster s) c m"
  shows "(\<forall>i j k. i < n \<longrightarrow> j < n \<longrightarrow> held (mg_workers m i) = Some k \<longrightarrow> held (mg_workers m j) = Some k \<longrightarrow> i = j) \<and>
    processing (delaying m) = {k. \<exists>i < n. held (mg_workers m i) = Some k} \<and>
    distinct (wq_queue (dt_TypedInterface (delaying m))) \<and>
    set (wq_queue (dt_TypedInterface (delaying m))) =
      dirty m - {k. \<exists>i < n. held (mg_workers m i) = Some k}"
proof -
  have inv: "manager_inv n m" using manager_run_inv [OF assms manager_inv_start] .
  then have "typed_inv (dt_TypedInterface (delaying m))" by (auto simp: manager_inv_def dest: delaying_invD(1))
  with inv show ?thesis unfolding manager_inv_def typed_inv_def by simp
qed

theorem one_worker_per_request_witness:
  "held (mg_workers sample_taken 0) = Some sample_key \<and> sample_key \<in> processing (delaying sample_taken) \<and>
   held (mg_workers sample_taken 1) \<noteq> Some sample_key \<and> sample_key \<notin> set (wq_queue (dt_TypedInterface (delaying sample_taken)))"
proof -
  have h: "held (mg_workers sample_taken 0) = Some sample_key" by (simp add: sample_taken_def)
  note all = one_worker_per_request [OF sample_taken_run]
  have "sample_key \<in> {k. \<exists>i < 2. held (mg_workers sample_taken i) = Some k}"
    using h by (auto intro: exI [of _ "0::nat"])
  then have "sample_key \<in> processing (delaying sample_taken)"
      "sample_key \<notin> set (wq_queue (dt_TypedInterface (delaying sample_taken)))" using all by auto
  moreover have "held (mg_workers sample_taken 1) \<noteq> Some sample_key"
  proof
    assume "held (mg_workers sample_taken 1) = Some sample_key"
    with h conjunct1 [OF all, rule_format, of 0 1 sample_key] show False by simp
  qed
  ultimately show ?thesis using h by simp
qed

text \<open>
  C5: A shutdown ends. Once the queue is told to shut down, under any interleaving with events
  and other actors the \<open>n\<close> workers make at most \<open>work_left\<close> more steps, a number known at that
  moment. As long as some worker has not stopped one of them can go on, and when all have
  stopped nothing is left in the queue: every request that was queued has been reconciled.
\<close>

theorem shutdown_terminates:
  assumes "manager_run pq api cluster n (start_manager cluster s) c0 m" and "shut (delaying m)"
    and "manager_run pq api cluster n m c m'"
  shows "c \<le> work_left n m \<and>
    ((\<exists>i < n. mg_workers m' i \<noteq> Stopped) \<longleftrightarrow> (\<exists>i < n. \<exists>m''. worker_step pq api cluster i m' m'')) \<and>
    (0 < n \<longrightarrow> (\<forall>i < n. mg_workers m' i = Stopped) \<longrightarrow> dirty m' = {})"
proof -
  have inv: "manager_inv n m" using manager_run_inv [OF assms(1) manager_inv_start] .
  note left = shutdown_uses_work [OF assms(3) inv assms(2)]
  have ended: "dt_stopped (delaying m')"
    using manager_run_inv [OF assms(3) inv] left by (simp add: manager_inv_def)
  have stopped: "\<not> worker_step pq api cluster i m' m''" if "mg_workers m' i = Stopped" for i m''
    using that by (auto elim!: worker_stepE)
  have "dirty m' = {}" if "0 < n" "\<forall>i < n. mg_workers m' i = Stopped"
  proof -
    have empty: "wq_queue (dt_TypedInterface (delaying m')) = []"
      using all_stopped_queue [OF manager_run_trans [OF assms(1,3)]] that by simp
    have inv': "manager_inv n m'" using manager_run_inv [OF assms(3) inv] .
    then have "typed_inv (dt_TypedInterface (delaying m'))" by (simp add: manager_inv_def delaying_invD(1))
    moreover have "processing (delaying m') = {}" using inv' that by (auto simp: manager_inv_def)
    ultimately show ?thesis using empty by (simp add: typed_inv_def)
  qed
  moreover have "(\<exists>i < n. mg_workers m' i \<noteq> Stopped) \<longleftrightarrow> (\<exists>i < n. \<exists>m''. worker_step pq api cluster i m' m'')"
    using stopped worker_can_step [OF conjunct1 [OF left] _ ended] by blast
  ultimately show ?thesis using left by simp
qed

theorem shutdown_terminates_witness:
  "\<exists>m. outer_step fake_cluster sample_queued m \<and> shut (delaying m) \<and>
     (\<forall>c m'. manager_run quantity_parse fakeClient fake_cluster 2 m c m' \<longrightarrow> c \<le> 6)"
proof -
  let ?m = "sample_queued\<lparr>mg_queue := on_delaying delaying_ShutDown (mg_queue sample_queued)\<rparr>"
  have step: "outer_step fake_cluster sample_queued ?m" by (rule outer_step.shutdown)
  have s: "shut (delaying ?m)" by (simp add: sample_manager_defs delaying_ShutDown_def)
  have "work_left 2 ?m = 6" by (simp add: work_left_def sample_manager_defs delaying_ShutDown_def lessThan_Suc numeral_2_eq_2)
  with shutdown_terminates [OF manager_run.outer [OF sample_queued_run step] s] step s show ?thesis by auto
qed

text \<open>
  C6: The loop of a worker returns after a shutdown. From every state the system can reach,
  whatever the server answers and the clock says, it reconciles the queued requests in their
  order, each exactly once, and leaves the queue empty: requests that ask to come back do not reach
  the queue any more, even where \<^verbatim>\<open>AddAfter\<close> misses the shutdown.
\<close>

theorem worker_loop_returns:
  assumes "manager_run pq api cluster n (start_manager cluster s) c m" and "shut (delaying m)"
  shows "\<exists>q. worker_loop pq api env i (mg_server m, mg_queue m) =
      Some (fold (\<lambda>k s. snd (run_state (Reconcile pq api k) s)) (wq_queue (dt_TypedInterface (delaying m))) (mg_server m), q) \<and>
    wq_queue (dt_TypedInterface (inner q)) = [] \<and> wq_dirty (dt_TypedInterface (inner q)) \<subseteq> processing (delaying m)"
proof -
  have "delaying_inv (delaying m)" "dt_stopped (delaying m)"
    using manager_run_inv [OF assms(1) manager_inv_start] assms(2) by (simp_all add: manager_inv_def)
  from worker_loop_drains [OF this(1) assms(2) this(2), of pq api env i "mg_server m"] show ?thesis by fastforce
qed

theorem worker_loop_returns_witness:
  "\<exists>m q s. outer_step fake_cluster sample_queued m \<and>
     worker_loop quantity_parse fakeClient (\<lambda>_. (True, 0, 0)) 0 (mg_server m, mg_queue m) = Some (s, q) \<and>
     in_sync quantity_parse (fake_cluster s) sample_key \<and> wq_queue (dt_TypedInterface (inner q)) = []"
proof (rule sample_run)
  fix s' assume a: "run_state (Reconcile quantity_parse fakeClient sample_key) (sample_state sample_pdis) =
      (Returns (\<lparr>res_RequeueAfter = 10 * Second\<rparr>, None), s')" "in_sync quantity_parse (fake_cluster s') sample_key"
  let ?m = "sample_queued\<lparr>mg_queue := on_delaying delaying_ShutDown (mg_queue sample_queued)\<rparr>"
  have step: "outer_step fake_cluster sample_queued ?m" by (rule outer_step.shutdown)
  have s: "shut (delaying ?m)" by (simp add: sample_manager_defs delaying_ShutDown_def)
  have q: "wq_queue (dt_TypedInterface (delaying ?m)) = [sample_key]" "mg_server ?m = sample_state sample_pdis"
    by (simp_all add: sample_manager_defs delaying_ShutDown_def Typed_ShutDown_def)
  from worker_loop_returns [OF manager_run.outer [OF sample_queued_run step] s, of "\<lambda>_. (True, 0, 0)" 0]
  obtain q where "worker_loop quantity_parse fakeClient (\<lambda>_. (True, 0, 0)) 0 (mg_server ?m, mg_queue ?m) = Some (s', q)"
    "wq_queue (dt_TypedInterface (inner q)) = []"
    unfolding q by (auto simp: a)
  with step a(2) show ?thesis by blast
qed

text \<open>
  C7: Delayed requests come back when they are due. In every state the system can reach, a
  turn of the goroutine of the delaying queue at time \<open>now\<close> adds exactly the requests whose
  time has come, each once and in the order of their times, and keeps the others waiting: the
  heap it pops them from has the earliest at its root at all times.
\<close>

theorem delayed_requests_come_back:
  assumes "manager_run pq api cluster n (start_manager cluster s) c m"
  shows "\<exists>ks. dt_TypedInterface (add_ready now (delaying m)) = fold Typed_Add ks (dt_TypedInterface (delaying m)) \<and>
    distinct ks \<and> set ks = {k. \<exists>t. wait_time (delaying m) k = Some t \<and> t \<le> now} \<and>
    sorted (map (\<lambda>k. the (wait_time (delaying m) k)) ks) \<and>
    wait_time (add_ready now (delaying m)) = (\<lambda>k. if k \<in> set ks then None else wait_time (delaying m) k)"
proof -
  have "delaying_inv (delaying m)" using manager_run_inv [OF assms manager_inv_start] by (simp add: manager_inv_def)
  from add_ready_adds [OF this, of now] obtain ks where
    "dt_TypedInterface (add_ready now (delaying m)) = fold Typed_Add ks (dt_TypedInterface (delaying m))"
    "distinct ks" "set ks = due now (delaying m)" "sorted (map (\<lambda>k. the (wait_time (delaying m) k)) ks)"
    "wait_time (add_ready now (delaying m)) = not_due now (delaying m)" by blast
  then show ?thesis by (intro exI [of _ ks]) (simp add: not_due_def due_def)
qed

lemma sample_waiting:
  obtains m where "manager_run quantity_parse fakeClient fake_cluster 2
      (start_manager fake_cluster (sample_state sample_pdis)) 3 m"
    and "wait_time (delaying m) = [sample_key \<mapsto> 10 * Second]" and "\<not> shut (delaying m)"
proof (rule sample_run)
  fix s' assume a: "run_state (Reconcile quantity_parse fakeClient sample_key) (sample_state sample_pdis) =
      (Returns (\<lparr>res_RequeueAfter = 10 * Second\<rparr>, None), s')"
  let ?run = "manager_run quantity_parse fakeClient fake_cluster 2 (start_manager fake_cluster (sample_state sample_pdis))"
  let ?out = "Returns (\<lparr>res_RequeueAfter = 10 * Second\<rparr>, None :: go_error option)"
  have t: "mg_workers sample_taken 0 = Taken sample_key" "mg_server sample_taken = sample_state sample_pdis"
    by (simp_all add: sample_manager_defs)
  obtain m1 where m1: "?run 2 m1" "mg_workers m1 0 = Returned sample_key ?out" "mg_queue m1 = mg_queue sample_taken"
    using manager_run.work [OF sample_taken_run _ worker_step.run [OF t(1)], of ?out s'] t(2) a
    by (simp add: numeral_2_eq_2)
  define d where "d = (delaying sample_taken)\<lparr>dt_waitingForQueue :=
    \<lparr>pq_objs = [\<lparr>wf_data = sample_key, wf_readyAt = 10 * Second, wf_index = 0\<rparr>], pq_slots = []\<rparr>,
    dt_waitingForAddCh := [0]\<rparr>"
  obtain q where q: "reconcileHandler False 0 0 sample_key ?out (mg_queue m1) = Some q" "inner q = d"
    by (simp add: m1(3) reconcileHandler_def runtime_Reconcile_def AddAfter_def Second_def Let_def
        waitingForAddCh_cap_def rateLimiting_Forget_def sample_manager_defs d_def)
  obtain m2 where m2: "?run 3 m2" "delaying m2 = d"
    using manager_run.work [OF m1(1) _ worker_step.handle [OF m1(2) q(1)]] q(2) by (simp add: numeral_3_eq_3 numeral_2_eq_2)
  have d: "delaying_inv d" using manager_run_inv [OF m2(1) manager_inv_start] m2(2) by (simp add: manager_inv_def)
  have o: "\<not> shut d" and w: "wait_time d = Map.empty"
    by (simp_all add: d_def sample_manager_defs wait_time_def fun_eq_iff)
  let ?m = "m2\<lparr>mg_queue := on_delaying (wait_receive 0) (mg_queue m2)\<rparr>"
  have "wait_time (wait_receive 0 d) = [sample_key \<mapsto> 10 * Second]"
    using wait_receive_time [OF d, of 0 "[]" 0] w by (simp add: d_def Second_def)
  moreover have "?run 3 ?m" using manager_run.outer [OF m2(1) outer_step.receive] .
  ultimately show thesis using that [of ?m] wait_receive_keeps(4) [OF d, of 0] o m2(2) by simp
qed

theorem delayed_requests_come_back_witness:
  "\<exists>m. manager_run quantity_parse fakeClient fake_cluster 2 (start_manager fake_cluster (sample_state sample_pdis)) 3 m \<and>
     sample_key \<in> wq_dirty (dt_TypedInterface (add_ready (10 * Second) (delaying m))) \<and>
     wait_time (add_ready (9 * Second) (delaying m)) sample_key = Some (10 * Second)"
proof (rule sample_waiting)
  fix m assume m: "manager_run quantity_parse fakeClient fake_cluster 2
      (start_manager fake_cluster (sample_state sample_pdis)) 3 m"
    "wait_time (delaying m) = [sample_key \<mapsto> 10 * Second]" "\<not> shut (delaying m)"
  from delayed_requests_come_back [OF m(1), of "10 * Second"] m(2)
  have "sample_key \<in> wq_dirty (dt_TypedInterface (add_ready (10 * Second) (delaying m)))"
    by (auto simp: fold_Add_open [OF m(3)])
  moreover from delayed_requests_come_back [OF m(1), of "9 * Second"] m(2)
  have "wait_time (add_ready (9 * Second) (delaying m)) sample_key = Some (10 * Second)"
    by (auto simp: Second_def)
  ultimately show ?thesis using m(1) by blast
qed

text \<open>
  A group the controller created is watched. When a reconciliation created the group, any
  later change of the stored group, its removal included, wakes the controller for that
  service again: the controller reference that \<^verbatim>\<open>Build\<close> writes is the one the owner watch
  matches.
\<close>

lemma created_group_is_watched:
  assumes "kube_writer api cluster admit"
    and "run_state (Reconcile pq api k) s = (Returns (res, None), s')" and "res \<noteq> no_requeue"
    and "cl_rbgs (cluster s) k = None" and "cl_rbgs c k \<noteq> cl_rbgs (cluster s') k"
  shows "k \<in> woken (cluster s') c"
  using kube_writer.created_group_wakes [OF assms] .

lemma created_group_is_watched_witness:
  "\<exists>s'. run_state (Reconcile quantity_parse fakeClient sample_key) (sample_state sample_pdis) =
      (Returns (\<lparr>res_RequeueAfter = 10 * Second\<rparr>, None), s') \<and>
    sample_key \<in> woken (fake_cluster s') ((fake_cluster s')\<lparr>cl_rbgs := Map.empty\<rparr>)"
proof (rule sample_run)
  fix s' assume a: "run_state (Reconcile quantity_parse fakeClient sample_key) (sample_state sample_pdis) =
      (Returns (\<lparr>res_RequeueAfter = 10 * Second\<rparr>, None), s')" "in_sync quantity_parse (fake_cluster s') sample_key"
  have "cl_rbgs (fake_cluster (sample_state sample_pdis)) sample_key = None"
    by (simp add: sample_state_def tracker_lookup_def)
  moreover have "cl_rbgs ((fake_cluster s')\<lparr>cl_rbgs := Map.empty\<rparr>) sample_key \<noteq> cl_rbgs (fake_cluster s') sample_key"
    using a(2) by (auto simp: in_sync_def)
  ultimately show ?thesis
    using created_group_is_watched [OF fake_write.kube_writer_axioms a(1) requeue_ne] a(1) by blast
qed

text \<open>
  C9: A reconciliation loses no update, whatever others do and however stale its cache. Let others
  change the stored objects in any way before each call a reconciliation makes, and let every read be
  answered from any state the server has been in, also one before the reconciliation began or before
  its own writes. If over all these states a resource version of an object stands for one specification,
  then, whatever the outcome, every single call leaves what it found: it adds no service, changes no
  specification of one (beyond mutating admission) and no profile, and of a stored group it replaces the
  role list only. An edit the reconciliation has not seen is thus never overwritten: the write is refused
  as a conflict.
\<close>

theorem interleaved_no_lost_update:
  assumes "kube_versioned api cluster admit"
    and "run_state (Reconcile pq (interfering api) k) (s, past, script, []) = (out, s', past', script', calls)"
    and "versions_ok cluster (set past')" and "(before, after) \<in> set calls"
  shows "keeps_foreign admit (cluster before) (cluster after)"
  using kube_versioned.interleaved_keeps_foreign [OF assms] .

definition edited :: "PDInferenceService \<Rightarrow> PDInferenceService" where
  "edited p = p\<lparr>pd_Spec := (pd_Spec p)\<lparr>sp_Model := ''other''\<rparr>,
     pd_ObjectMeta := (pd_ObjectMeta p)\<lparr>om_ResourceVersion := om_ResourceVersion (pd_ObjectMeta p) @ ''0''\<rparr>\<rparr>"

definition sample_edit :: "fake_state \<Rightarrow> fake_state" where
  "sample_edit s = s\<lparr>fk_pdis := map edited (fk_pdis s)\<rparr>"

lemma lookup_map: "(\<And>x. kd_key K (f x) = kd_key K x) \<Longrightarrow>
    tracker_lookup K (map f st) k = map_option f (tracker_lookup K st k)"
  by (induction st) (simp_all add: tracker_lookup_def)

lemma sample_edit_versions:
  "versions_ok fake_cluster {sample_state sample_pdis, sample_edit (sample_state sample_pdis)}"
proof -
  have "kd_key PDISKind (edited p) = kd_key PDISKind p" for p
    by (simp add: edited_def meta_key_def)
  then show ?thesis by (auto simp: versions_ok_def sample_edit_def lookup_map edited_def)
qed

lemma sample_read:
  "run_state (Get_PDIS fakeClient sample_key) (sample_state sample_pdis) = (Inr sample_pdis, sample_state sample_pdis)"
  by (simp add: sample_state_def sample_key_def tracker_Get_def tracker_lookup_def meta_key_def sample_pdis_def)

lemma sample_conflict:
  "run_state (Update_PDIS fakeClient (with_finalizers sample_pdis fs)) (sample_edit (sample_state sample_pdis)) =
     (Inl (NewConflict ''pdinferenceservices.pdai.pdai.io'' ''svc'' ''object was modified''),
      sample_edit (sample_state sample_pdis))"
  by (simp add: sample_state_def sample_edit_def edited_def tracker_update_def tracker_lookup_def meta_key_def sample_pdis_def
      merge_status_def PDISKind_def zero_defs Let_def with_finalizers_def with_version_def kd_key_def)

text \<open>
  A run in which a user has edited the service and the cache still shows it as it was: the
  reconciliation tries to add its finalizer to the old object, and is refused.
\<close>

lemma sample_race:
  defines "old \<equiv> sample_state sample_pdis" and "new \<equiv> sample_edit (sample_state sample_pdis)"
  shows "\<exists>e. run_state (Reconcile quantity_parse (interfering fakeClient) sample_key) (new, [old], [(\<lambda>s. s, 1)], []) =
    (Returns (no_requeue, Some e), new, [new, new, new, old], [], [(new, new), (new, new)])"
proof -
  have "Time_IsZero (om_DeletionTimestamp (pd_ObjectMeta sample_pdis))" "pd_Finalizers sample_pdis = []"
    by (simp_all add: sample_pdis_def empty_ObjectMeta_def)
  then show ?thesis
    by (simp add: Reconcile_def ensureFinalizer_def interleaved_def cached_def others_act_def cache_shows_def Let_def
        sample_read sample_conflict old_def new_def del: fake_reads fake_writes)
qed

theorem interleaved_no_lost_update_witness:
  "\<exists>e calls past. run_state (Reconcile quantity_parse (interfering fakeClient) sample_key)
       (sample_edit (sample_state sample_pdis), [sample_state sample_pdis], [(\<lambda>s. s, 1)], []) =
     (Returns (no_requeue, Some e), sample_edit (sample_state sample_pdis), past, [], calls) \<and>
     keeps_foreign (\<lambda>spec. spec) (fake_cluster (fst (hd calls))) (fake_cluster (snd (hd calls)))"
proof -
  obtain e where r: "run_state (Reconcile quantity_parse (interfering fakeClient) sample_key)
       (sample_edit (sample_state sample_pdis), [sample_state sample_pdis], [(\<lambda>s. s, 1)], []) =
     (Returns (no_requeue, Some e), sample_edit (sample_state sample_pdis),
      [sample_edit (sample_state sample_pdis), sample_edit (sample_state sample_pdis),
       sample_edit (sample_state sample_pdis), sample_state sample_pdis], [],
      [(sample_edit (sample_state sample_pdis), sample_edit (sample_state sample_pdis)),
       (sample_edit (sample_state sample_pdis), sample_edit (sample_state sample_pdis))])"
    using sample_race by blast
  have "versions_ok fake_cluster (set [sample_edit (sample_state sample_pdis), sample_edit (sample_state sample_pdis),
       sample_edit (sample_state sample_pdis), sample_state sample_pdis])"
    using sample_edit_versions by (simp add: insert_commute)
  from interleaved_no_lost_update [OF fake_versioned.kube_versioned_axioms r this] r show ?thesis
    by (intro exI conjI) (assumption, simp)
qed



section \<open>Admission and the builder\<close>

text \<open>The containers of a built role, and the mounts and volumes of its pod.\<close>

definition mounts_resolve :: "RoleSpec \<Rightarrow> bool" where
  "mounts_resolve r \<longleftrightarrow> (\<forall>c \<in> set (ps_Containers (role_pod r)).
     set (map mnt_Name (ct_VolumeMounts c)) \<subseteq> set (map vol_Name (ps_Volumes (role_pod r))))"

definition runnable :: "RoleSpec \<Rightarrow> bool" where
  "runnable r \<longleftrightarrow> ps_Containers (role_pod r) \<noteq> [] \<and> (\<exists>n. rs_Replicas r = Some n \<and> 1 \<le> sint n) \<and>
     (\<forall>c \<in> set (ps_Containers (role_pod r)). ct_Image c \<noteq> '''' \<and> ct_Args c \<noteq> [])"

lemma role_ok_mounts:
  assumes "role_ok pq spec r name n img cmd args ms ers"
    and "set (map vms_Name ms) \<subseteq> set (map vs_Name (sp_Volumes spec))"
  shows "mounts_resolve r"
proof -
  from assms(1) obtain c where v: "buildVolumes pq (sp_Volumes spec) = Returns (ps_Volumes (role_pod r))"
      and c: "ps_Containers (role_pod r) = [c]" "ct_VolumeMounts c = buildVolumeMounts ms"
    unfolding role_ok_def by blast
  have "set (map mnt_Name (ct_VolumeMounts c)) = set (map vms_Name ms)"
    using c(2) buildVolumeMounts_names [of ms] by (metis)
  moreover have "set (map vol_Name (ps_Volumes (role_pod r))) = set (map vs_Name (sp_Volumes spec))"
    using buildVolumes_names [OF v] by metis
  ultimately show ?thesis using assms(2) c(1) by (simp add: mounts_resolve_def)
qed

lemma role_ok_runnable:
  "role_ok pq spec r name n img cmd args ms ers \<Longrightarrow> 1 \<le> sint n \<Longrightarrow> img \<noteq> '''' \<Longrightarrow> args \<noteq> [] \<Longrightarrow> runnable r"
  by (auto simp: role_ok_def runnable_def)

lemma Build_roles_ok:
  assumes "Build pq p cfg = Returns (Inr g)"
  obtains router prefill decode e1 e2 e3 where "rgs_Roles (rbg_Spec g) = [router, prefill, decode]"
    and "role_ok pq (pd_Spec p) router ''router'' (routerReplicas (sp_Router (pd_Spec p)))
         (im_Router (mc_Images cfg)) (mc_RouterCommand cfg) (mc_RouterArgs cfg)
         (ror_VolumeMounts (sp_Router (pd_Spec p))) e1"
    and "role_ok pq (pd_Spec p) prefill ''prefill'' (irs_Replicas (sp_Prefill (pd_Spec p)))
         (im_Prefill (mc_Images cfg)) (mc_PrefillCommand cfg) (mc_PrefillArgs cfg)
         (irs_VolumeMounts (sp_Prefill (pd_Spec p))) e2"
    and "role_ok pq (pd_Spec p) decode ''decode'' (irs_Replicas (sp_Decode (pd_Spec p)))
         (im_Decode (mc_Images cfg)) (mc_DecodeCommand cfg) (mc_DecodeArgs cfg)
         (irs_VolumeMounts (sp_Decode (pd_Spec p))) e3"
  using assms that unfolding Build_returns_iff by (metis buildRouterRole_ok buildInferenceRole_ok)

text \<open>
  C25: No dangling mounts. Every container of every role built from a service that creation
  admitted mounts only volumes its pod declares, whatever the merged configuration.
\<close>

theorem admitted_mounts_resolve:
  assumes "fst (run_state (ValidateCreate cl (PDISObject p)) s) = None"
    and "Build pq p cfg = Returns (Inr g)"
  shows "list_all mounts_resolve (rgs_Roles (rbg_Spec g))"
proof -
  have m: "mounts_defined (pd_Spec p)"
    using assms(1) by (simp add: ValidateCreate_accepts spec_valid_def)
  from assms(2) show ?thesis
    by (rule Build_roles_ok) (use m in \<open>simp add: mounts_defined_def role_ok_mounts\<close>)
qed

lemma sample_valid: "spec_valid (pd_Spec sample_pdis)"
  by (simp add: spec_valid_def sample_defs inline_complete_def all_roles mounts_defined_def)

lemma sample_admitted: "fst (run_state (ValidateCreate cl (PDISObject sample_pdis)) s) = None"
proof -
  have "sp_EngineProfileRef (pd_Spec sample_pdis) = ''''" by (simp add: sample_defs)
  then show ?thesis using sample_valid by (simp add: ValidateCreate_accepts profile_reachable_def)
qed

theorem admitted_mounts_resolve_witness:
  "\<exists>g. Build quantity_parse sample_pdis zero_MergedConfig = Returns (Inr g) \<and>
       list_all mounts_resolve (rgs_Roles (rbg_Spec g))"
proof -
  obtain g where g: "Build quantity_parse sample_pdis zero_MergedConfig = Returns (Inr g)"
    using sample_builds by blast
  from admitted_mounts_resolve [OF sample_admitted g] g show ?thesis by blast
qed

text \<open>
  C26: An admitted service without a profile can run. Resolved and built, each of its three
  roles has at least one replica and containers with an image and arguments.
\<close>

theorem admitted_inline_runnable:
  assumes "fst (run_state (ValidateCreate cl (PDISObject p)) s) = None"
    and "sp_EngineProfileRef (pd_Spec p) = ''''"
    and "run_state (Resolve cl' p) t = (Inr cfg, t')" and "Build pq p cfg = Returns (Inr g)"
  shows "length (rgs_Roles (rbg_Spec g)) = 3 \<and> list_all runnable (rgs_Roles (rbg_Spec g))"
proof -
  have v: "spec_valid (pd_Spec p)" using assms(1) by (simp add: ValidateCreate_accepts)
  have cfg: "cfg = overrideInline (pd_Spec p) zero_MergedConfig"
    using assms(2,3) by (simp add: Resolve_without_profile)
  have "inline_complete (pd_Spec p)" using v assms(2) by (simp add: spec_valid_def)
  then have "\<forall>r. ly_image (config_layer cfg) r \<noteq> [] \<and> ly_args (config_layer cfg) r \<noteq> []"
    unfolding cfg inline_complete_def overrideInline_layer lookup_layers_def by simp
  then have "im_Router (mc_Images cfg) \<noteq> ''''" "im_Prefill (mc_Images cfg) \<noteq> ''''" "im_Decode (mc_Images cfg) \<noteq> ''''"
      "mc_RouterArgs cfg \<noteq> []" "mc_PrefillArgs cfg \<noteq> []" "mc_DecodeArgs cfg \<noteq> []"
    unfolding all_roles by simp_all
  moreover have "1 \<le> sint (irs_Replicas (sp_Prefill (pd_Spec p)))" "1 \<le> sint (irs_Replicas (sp_Decode (pd_Spec p)))"
    using v by (simp_all add: spec_valid_def)
  ultimately show ?thesis
    using assms(4) by (elim Build_roles_ok) (auto intro: role_ok_runnable simp: routerReplicas_pos)
qed

theorem admitted_inline_runnable_witness:
  "\<exists>cfg g. run_state (Resolve fakeClient sample_pdis) (sample_state sample_pdis) = (Inr cfg, sample_state sample_pdis) \<and>
     Build quantity_parse sample_pdis cfg = Returns (Inr g) \<and> list_all runnable (rgs_Roles (rbg_Spec g))"
proof -
  have ref: "sp_EngineProfileRef (pd_Spec sample_pdis) = ''''" by (simp add: sample_defs)
  note r = Resolve_without_profile [OF ref, of fakeClient "sample_state sample_pdis"]
  obtain g where g: "Build quantity_parse sample_pdis (overrideInline (pd_Spec sample_pdis) zero_MergedConfig) = Returns (Inr g)"
    using sample_builds by blast
  from admitted_inline_runnable [OF sample_admitted ref r g] r g show ?thesis by blast
qed

section \<open>The webhooks switched on\<close>

text \<open>
  C16: The webhooks never block the controller. Put in front of any server that keeps the laws
  of the client interfaces, they give a server that keeps them too, with the defaulter as
  mutating admission and the invariant that every stored service is defaulted; so every
  property above holds with webhooks. In particular a reconciliation of a live, resolvable,
  parseable service still succeeds and brings it in sync: none of its updates is refused.
\<close>

theorem webhooks_never_block:
  assumes "kube_plain api cluster ok" and "ok s" and "all_defaulted (cluster s)"
    and "reconcilable pq defaultSpec (cluster s) req spec"
  shows "kube_rest (admitting denied api) cluster defaultSpec (\<lambda>s. ok s \<and> all_defaulted (cluster s)) \<and>
    kube_versioned (admitting denied api) cluster defaultSpec \<and>
    (\<exists>s'. run_state (Reconcile pq (admitting denied api) req) s =
        (Returns (\<lparr>res_RequeueAfter = 10 * Second\<rparr>, None), s') \<and>
      in_sync pq (cluster s') req \<and> ok s' \<and> all_defaulted (cluster s'))"
proof -
  note laws = kube_plain.webhooks_laws [OF assms(1), of denied]
  from kube_reliable.Reconcile_reconcilable [OF kube_rest.axioms(1) [OF laws(1)], of s pq req spec] assms(2-4)
  show ?thesis using laws by blast
qed

lemma sample_defaulted: "defaulted (pd_Spec sample_pdis)"
  by (simp add: defaulted_def sample_defs EngineTypeSGLang_def)

theorem webhooks_never_block_witness:
  "\<exists>s'. run_state (Reconcile quantity_parse (admitting (\<lambda>e. e) fakeClient) sample_key) (sample_state sample_pdis) =
      (Returns (\<lparr>res_RequeueAfter = 10 * Second\<rparr>, None), s') \<and> in_sync quantity_parse (fake_cluster s') sample_key"
proof -
  have "all_defaulted (fake_cluster (sample_state sample_pdis))"
    using sample_defaulted by (auto simp: all_defaulted_def sample_state_def tracker_lookup_def split: if_splits)
  moreover have "reconcilable quantity_parse defaultSpec (fake_cluster (sample_state sample_pdis)) sample_key sample_spec"
    using sample_reconcilable defaultSpec_id [OF sample_defaulted] by (simp add: reconcilable_def sample_pdis_def)
  ultimately show ?thesis
    using webhooks_never_block [OF fake_plain.kube_plain_axioms sample_stored(2) [OF sample_meta],
        of quantity_parse sample_key sample_spec "\<lambda>e. e"] by blast
qed

text \<open>
  C17: What the webhooks guarantee of the stored services. Along every sequence of calls by
  anybody to a server with webhooks, starting from services for which it holds (none, for
  example), every stored service has a model, an engine and at least one router replica as a
  signed 32-bit number. And no single call changes the model, the engine or the profile
  reference of a stored service.
\<close>

theorem stored_services_admitted:
  assumes "kube_plain api cluster ok" and "(api_call denied api)\<^sup>*\<^sup>* s s'"
    and "\<And>k p. cl_pdis (cluster s) k = Some p \<Longrightarrow> defaulted (pd_Spec p) \<and> sp_Model (pd_Spec p) \<noteq> ''''"
    and "cl_pdis (cluster s') k = Some q"
  shows "sp_Model (pd_Spec q) \<noteq> '''' \<and> sp_Engine (pd_Spec q) \<noteq> '''' \<and>
    1 \<le> sint (ror_Replicas (sp_Router (pd_Spec q))) \<and>
    (\<forall>t q'. api_call denied api s' t \<longrightarrow> cl_pdis (cluster t) k = Some q' \<longrightarrow>
       sp_Model (pd_Spec q') = sp_Model (pd_Spec q) \<and> sp_Engine (pd_Spec q') = sp_Engine (pd_Spec q) \<and>
       sp_EngineProfileRef (pd_Spec q') = sp_EngineProfileRef (pd_Spec q))"
  using kube_plain.api_calls_admitted [OF assms] kube_plain.api_call_leaves [OF assms(1), of denied s'] assms(4)
  by (fastforce simp: defaulted_def call_leaves_def frozen_def)

definition blank_pdis :: PDInferenceService where
  "blank_pdis = sample_pdis\<lparr>pd_Spec := sample_spec\<lparr>sp_Engine := ''''\<rparr>,
     pd_ObjectMeta := (pd_ObjectMeta sample_pdis)\<lparr>om_ResourceVersion := ''''\<rparr>\<rparr>"

lemma blank_created:
  obtains q s' where "run_state (Create_PDIS (admitting denied fakeClient) blank_pdis) empty_state = (Inr q, s')"
    and "cl_pdis (fake_cluster s') sample_key = Some q"
proof -
  have v: "fst (run_state (ValidateCreate fakeClient (PDISObject (mutate blank_pdis))) empty_state) = None"
    using sample_valid
    by (simp add: ValidateCreate_accepts profile_reachable_def spec_valid_defaultSpec blank_pdis_def sample_defs
        spec_valid_def inline_complete_def mounts_defined_def all_roles)
  have e: "snd (run_state (ValidateCreate fakeClient (PDISObject (mutate blank_pdis))) empty_state) = empty_state"
    by (simp add: ValidateCreate_asks blank_pdis_def sample_defs)
  have "\<exists>q st. tracker_Create PDISKind (mutate blank_pdis) [] = (Inr q, st)"
    by (rule pdis_kind.Create_accepts) (simp_all add: tracker_lookup_def blank_pdis_def sample_defs)
  then obtain q s' where c: "run_state (Create_PDIS fakeClient (mutate blank_pdis)) empty_state = (Inr q, s')"
    by (auto simp: empty_state_def)
  from v e have "run_state (ValidateCreate fakeClient (PDISObject (mutate blank_pdis))) empty_state = (None, empty_state)"
    by (simp add: prod_eq_iff)
  with c have r: "run_state (Create_PDIS (admitting denied fakeClient) blank_pdis) empty_state = (Inr q, s')"
    by (simp add: admitted_create_def Let_def)
  have "pdis_key (mutate blank_pdis) = sample_key"
    by (simp add: blank_pdis_def sample_pdis_def sample_key_def meta_key_def)
  with fake_create_pdis_ok [OF c] have "cl_pdis (fake_cluster s') sample_key = Some q" by simp
  with r that show thesis by blast
qed

theorem stored_services_admitted_witness:
  "\<exists>q s'. run_state (Create_PDIS (admitting (\<lambda>e. e) fakeClient) blank_pdis) empty_state = (Inr q, s') \<and>
     sp_Engine (pd_Spec blank_pdis) = '''' \<and> sp_Engine (pd_Spec q) \<noteq> ''''"
proof (rule blank_created)
  fix q s' assume a: "run_state (Create_PDIS (admitting (\<lambda>e. e) fakeClient) blank_pdis) empty_state = (Inr q, s')"
    "cl_pdis (fake_cluster s') sample_key = Some q"
  then have "(api_call (\<lambda>e. e) fakeClient)\<^sup>*\<^sup>* empty_state s'" by (blast intro: api_call.create_pdis)
  from stored_services_admitted [OF fake_plain.kube_plain_axioms this _ a(2)] a(1) show ?thesis
    by (auto simp: empty_state_def tracker_lookup_def blank_pdis_def)
qed

section \<open>The REST server\<close>

text \<open>
  C32: What POST creates, GET returns. When creating a service answers 201, its body is the
  object that is now stored, under the name sent and the namespace sent or else
  \<^verbatim>\<open>default\<close>, live and with the admitted specification; a later GET of that name answers 200
  with exactly that body when the namespace was absent or \<^verbatim>\<open>default\<close>.
\<close>

theorem create_then_get:
  assumes "kube_rest api cluster admit ok" and "ok s"
    and "run_state (Create dec (New api api) body) s = (rp, s1)" and "rp_Code rp = StatusCreated"
    and "dec_pdis dec body = Inr p" and "pd_Namespace p \<in> {'''', default_ns}"
  shows "\<exists>p' s2. rp_Body rp = JsonPDIS p' \<and> cl_pdis (cluster s) (mk_key default_ns (pd_Name p)) = None \<and>
     cl_pdis (cluster s1) (mk_key default_ns (pd_Name p)) = Some p' \<and> pd_Spec p' = admit (pd_Spec p) \<and>
     Time_IsZero (om_DeletionTimestamp (pd_ObjectMeta p')) \<and>
     run_state (Get (New api api) (pd_Name p)) s1 = (\<lparr>rp_Code = StatusOK, rp_Body = rp_Body rp\<rparr>, s2)"
proof -
  have k: "meta_key (defaultNamespace (pd_ObjectMeta p)) = mk_key default_ns (pd_Name p)"
    using assms(6) by (auto simp: meta_key_def)
  from assms(1,3,4) show ?thesis
  proof (rule kube_rest.Create_201)
    fix q p' assume a: "dec_pdis dec body = Inr q" "rp_Body rp = JsonPDIS p'"
      "cl_pdis (cluster s) (meta_key (defaultNamespace (pd_ObjectMeta q))) = None"
      "cluster s1 = (cluster s)\<lparr>cl_pdis := (cl_pdis (cluster s))(meta_key (defaultNamespace (pd_ObjectMeta q)) \<mapsto> p')\<rparr>"
      "om_DeletionTimestamp (pd_ObjectMeta p') = None" "pd_Spec p' = admit (pd_Spec q)"
    have "q = p" using a(1) assms(5) by simp
    have "ok s1"
    proof -
      have "run_state (Create_PDIS api (p\<lparr>pd_ObjectMeta := defaultNamespace (pd_ObjectMeta p)\<rparr>)) s = (Inr p', s1)"
        using assms(3-5) a(2) by (auto simp: Create_def Status_codes write_json_def split: prod.splits sum.splits)
      then show ?thesis using kube_rest.rest_keeps_ok(1) [OF assms(1,2)] by (metis snd_conv)
    qed
    from kube_rest.Get_answer [OF assms(1) this, of api "pd_Name p"] a k \<open>q = p\<close> show ?thesis
      by (auto simp: write_json_def)
  qed
qed

definition no_decoders :: decoders where
  "no_decoders = \<lparr>dec_pdis = (\<lambda>_. Inl ''unexpected end of JSON input''),
     dec_profile = (\<lambda>_. Inl ''unexpected end of JSON input''),
     dec_update = (\<lambda>_. Inl ''unexpected end of JSON input'')\<rparr>"

definition sample_new :: PDInferenceService where
  "sample_new = zero_PDInferenceService\<lparr>pd_ObjectMeta := empty_ObjectMeta\<lparr>om_Name := ''svc''\<rparr>, pd_Spec := sample_spec\<rparr>"

definition sample_decoders :: decoders where
  "sample_decoders = no_decoders\<lparr>dec_pdis := (\<lambda>_. Inr sample_new),
     dec_update := (\<lambda>_. Inr \<lparr>ur_Model = '''', ur_Prefill = Some (Some 3), ur_Decode = Some None\<rparr>)\<rparr>"

lemma empty_ok: "fake_ok empty_state"
  by (simp add: fake_ok_def stored_ok_def empty_state_def)

lemma sample_posted:
  obtains rp s1 where "run_state (Create sample_decoders (New fakeClient fakeClient) body) empty_state = (rp, s1)"
    and "rp_Code rp = StatusCreated"
proof -
  let ?p = "sample_new\<lparr>pd_ObjectMeta := defaultNamespace (pd_ObjectMeta sample_new)\<rparr>"
  obtain new st where "tracker_Create PDISKind ?p [] = (Inr new, st)"
    using pdis_kind.Create_accepts [of "[]" ?p]
    by (auto simp: tracker_lookup_def sample_new_def empty_ObjectMeta_def defaultNamespace_def)
  then show thesis
    by (intro that) (auto simp: Create_def sample_decoders_def empty_state_def)
qed

theorem create_then_get_witness:
  "\<exists>rp s1 s2. run_state (Create sample_decoders (New fakeClient fakeClient) ''{}'') empty_state = (rp, s1) \<and>
     rp_Code rp = StatusCreated \<and>
     run_state (Get (New fakeClient fakeClient) ''svc'') s1 = (\<lparr>rp_Code = StatusOK, rp_Body = rp_Body rp\<rparr>, s2)"
proof (rule sample_posted [of "''{}''"])
  fix rp s1 assume a: "run_state (Create sample_decoders (New fakeClient fakeClient) ''{}'') empty_state = (rp, s1)"
    "rp_Code rp = StatusCreated"
  have "dec_pdis sample_decoders ''{}'' = Inr sample_new" "pd_Namespace sample_new \<in> {'''', default_ns}"
    by (simp_all add: sample_decoders_def sample_new_def empty_ObjectMeta_def)
  from create_then_get [OF fake_rest.kube_rest_axioms empty_ok a this] a show ?thesis
    by (auto simp: sample_new_def)
qed

text \<open>
  C33: PUT changes the replica counts and nothing else. When updating a service answers 200,
  the request named no model, the service was stored, and the stored object (which is the
  body) has the old metadata up to the resource version, the old status and, before
  admission, the old specification with the requested prefill and decode replicas in place of
  the old ones; all other objects are unchanged.
\<close>

theorem update_only_replicas:
  assumes "kube_rest api cluster admit ok"
    and "run_state (Update dec (New api api) name body) s = (rp, s')" and "rp_Code rp = StatusOK"
    and "\<And>p. cl_pdis (cluster s) (mk_key default_ns name) = Some p \<Longrightarrow> \<not> gone_after_update (pd_ObjectMeta p)"
  shows "\<exists>req old new spec. dec_update dec body = Inr req \<and> ur_Model req = '''' \<and>
     cl_pdis (cluster s) (mk_key default_ns name) = Some old \<and> rp_Body rp = JsonPDIS new \<and>
     cluster s' = (cluster s)\<lparr>cl_pdis := (cl_pdis (cluster s))(mk_key default_ns name \<mapsto> new)\<rparr> \<and>
     same_object_meta (pd_ObjectMeta old) (pd_ObjectMeta new) \<and> pd_Status new = pd_Status old \<and>
     pd_Spec new = admit spec \<and> clear_replicas spec = clear_replicas (pd_Spec old) \<and>
     irs_Replicas (sp_Prefill spec) = requested (ur_Prefill req) (irs_Replicas (sp_Prefill (pd_Spec old))) \<and>
     irs_Replicas (sp_Decode spec) = requested (ur_Decode req) (irs_Replicas (sp_Decode (pd_Spec old)))"
  by (rule kube_rest.Update_200 [OF assms]) (use setReplicas_effect in blast)+

theorem update_only_replicas_witness:
  "\<exists>rp s' new. run_state (Update sample_decoders (New fakeClient fakeClient) ''svc'' ''{}'') (sample_state sample_pdis) = (rp, s') \<and>
     rp_Code rp = StatusOK \<and> rp_Body rp = JsonPDIS new \<and>
     irs_Replicas (sp_Prefill (pd_Spec new)) = 3 \<and> irs_Replicas (sp_Decode (pd_Spec new)) = 2"
proof -
  note st = sample_stored [OF sample_meta]
  let ?p = "sample_pdis\<lparr>pd_Spec := setReplicas \<lparr>ur_Model = '''', ur_Prefill = Some (Some 3), ur_Decode = Some None\<rparr> sample_spec\<rparr>"
  have g: "run_state (Get_PDIS fakeClient (mk_key default_ns ''svc'')) (sample_state sample_pdis) =
      (Inr sample_pdis, sample_state sample_pdis)"
    using st(1) by (simp add: tracker_Get_def sample_key_def default_ns_def)
  have "pdis_key ?p = sample_key" by (simp add: sample_key_def sample_pdis_def meta_key_def)
  then have "cl_pdis (fake_cluster (sample_state sample_pdis)) (pdis_key ?p) = Some sample_pdis"
    using st(1) by metis
  from fake_update_pdis_total [OF st(2) this, of False] obtain q s' where
      "run_state (Update_PDIS fakeClient ?p) (sample_state sample_pdis) = (Inr q, s')"
    unfolding fake_writes by (auto simp del: run_on)
  with g obtain rp where u: "run_state (Update sample_decoders (New fakeClient fakeClient) ''svc'' ''{}'') (sample_state sample_pdis) = (rp, s')"
      and c: "rp_Code rp = StatusOK"
    by (auto simp: Update_def sample_decoders_def sample_pdis_def simp del: fake_reads fake_writes)
  have k: "mk_key default_ns ''svc'' = sample_key" by (simp add: sample_key_def default_ns_def)
  have "\<not> gone_after_update (pd_ObjectMeta p)"
    if "cl_pdis (fake_cluster (sample_state sample_pdis)) (mk_key default_ns ''svc'') = Some p" for p
    using that st(1) unfolding k by (simp add: gone_after_update_def sample_pdis_def empty_ObjectMeta_def)
  from update_only_replicas [OF fake_rest.kube_rest_axioms u c this] u c st(1) show ?thesis
    unfolding k
    by (fastforce simp: sample_decoders_def requested_def sample_pdis_def sample_spec_def sample_role_def)
qed

text \<open>
  C34: A scaling request loses no update. Let others change the stored objects in any way between
  the read and the write of a PUT request, and let the read be as old as it likes. If a resource
  version stands for one specification, then no call of the handler changes anything but the replica
  counts of what is stored when it is made (beyond mutating admission): an edit the request has not seen
  is kept, and the request is refused.
\<close>

theorem interleaved_scaling_safe:
  assumes "kube_versioned api cluster admit"
    and "run_state (Update dec (New (interfering api) (interfering api)) name body) (s, past, script, []) =
      (rp, s', past', script', calls)"
    and "versions_ok cluster (set past')" and "(before, after) \<in> set calls"
  shows "scales_only admit (cluster before) (cluster after)"
  using kube_versioned.interleaved_scales_only [OF assms] .

text \<open>A request that read the service before a user edited it.\<close>

lemma sample_scale_conflict:
  "run_state (Update_PDIS fakeClient (sample_pdis\<lparr>pd_Spec := spec\<rparr>)) (sample_edit (sample_state sample_pdis)) =
     (Inl (NewConflict ''pdinferenceservices.pdai.pdai.io'' ''svc'' ''object was modified''),
      sample_edit (sample_state sample_pdis))"
  by (simp add: sample_state_def sample_edit_def edited_def tracker_update_def tracker_lookup_def meta_key_def sample_pdis_def
      merge_status_def PDISKind_def zero_defs Let_def with_version_def kd_key_def)

theorem interleaved_scaling_safe_witness:
  "\<exists>rp past calls. run_state (Update sample_decoders (New (interfering fakeClient) (interfering fakeClient)) ''svc'' ''{}'')
       (sample_state sample_pdis, [], [(\<lambda>s. s, 0), (sample_edit, 0)], []) =
     (rp, sample_edit (sample_state sample_pdis), past, [], calls) \<and> rp_Code rp = StatusInternalServerError \<and>
     list_all (\<lambda>(b, a). scales_only (\<lambda>spec. spec) (fake_cluster b) (fake_cluster a)) calls"
proof -
  let ?old = "sample_state sample_pdis" and ?new = "sample_edit (sample_state sample_pdis)"
  have k: "mk_key default_ns ''svc'' = sample_key" by (simp add: sample_key_def default_ns_def)
  obtain rp where r: "run_state (Update sample_decoders (New (interfering fakeClient) (interfering fakeClient)) ''svc'' ''{}'')
       (?old, [], [(\<lambda>s. s, 0), (sample_edit, 0)], []) = (rp, ?new, [?new, ?new, ?old], [], [(?new, ?new), (?old, ?old)])"
      "rp_Code rp = StatusInternalServerError"
    by (simp add: Update_def sample_decoders_def k interleaved_def cached_def others_act_def cache_shows_def Let_def
        sample_read sample_scale_conflict http_Error_def del: fake_reads fake_writes)
  have "versions_ok fake_cluster (set [?new, ?new, ?old])"
    using sample_edit_versions by (simp add: insert_commute)
  note safe = interleaved_scaling_safe [OF fake_versioned.kube_versioned_axioms r(1) this]
  then have "list_all (\<lambda>(b, a). scales_only (\<lambda>spec. spec) (fake_cluster b) (fake_cluster a)) [(?new, ?new), (?old, ?old)]"
    by (simp only: list_all_iff split_paired_Ball_Sigma prod.case) auto
  with r show ?thesis by blast
qed

text \<open>
  DELETE is idempotent. On a server that answers, deleting by name always answers 200. A
  stored service without finalizers is then gone, one with finalizers is stored with a deletion
  stamp and otherwise the same, nothing else changes, and deleting again answers 200 once more.
\<close>

lemma delete_idempotent:
  assumes "kube_rest api cluster admit ok" and "ok s"
  shows "\<exists>s1 s2. run_state (Delete (New api api) name) s = (\<lparr>rp_Code = StatusOK, rp_Body = NoBody\<rparr>, s1) \<and>
     only_pdis (mk_key default_ns name) (cluster s) (cluster s1) \<and>
     (case cl_pdis (cluster s) (mk_key default_ns name) of
        None \<Rightarrow> cl_pdis (cluster s1) (mk_key default_ns name) = None
      | Some old \<Rightarrow> pdis_after_delete old (cl_pdis (cluster s1) (mk_key default_ns name))) \<and>
     run_state (Delete (New api api) name) s1 = (\<lparr>rp_Code = StatusOK, rp_Body = NoBody\<rparr>, s2)"
proof -
  from kube_rest.Delete_answer [OF assms, of name] obtain s1 where
      s1: "run_state (Delete (New api api) name) s = (write_json StatusOK NoBody, s1)" "ok s1"
      "only_pdis (mk_key default_ns name) (cluster s) (cluster s1)"
      "case cl_pdis (cluster s) (mk_key default_ns name) of
        None \<Rightarrow> cl_pdis (cluster s1) (mk_key default_ns name) = None
      | Some old \<Rightarrow> pdis_after_delete old (cl_pdis (cluster s1) (mk_key default_ns name))" by blast
  from kube_rest.Delete_answer [OF assms(1) s1(2), of name] s1 show ?thesis
    unfolding write_json_def by blast
qed

lemma delete_idempotent_witness:
  "\<exists>s1. run_state (Delete (New fakeClient fakeClient) ''svc'') (sample_state sample_pdis) =
       (\<lparr>rp_Code = StatusOK, rp_Body = NoBody\<rparr>, s1) \<and>
     cl_pdis (fake_cluster s1) sample_key = None"
proof -
  note st = sample_stored [OF sample_meta]
  have k: "mk_key default_ns ''svc'' = sample_key" by (simp add: sample_key_def default_ns_def)
  have f: "om_Finalizers (pd_ObjectMeta sample_pdis) = []"
    by (simp add: sample_pdis_def empty_ObjectMeta_def)
  from delete_idempotent [OF fake_rest.kube_rest_axioms st(2), of "''svc''"] obtain s1 where
      "run_state (Delete (New fakeClient fakeClient) ''svc'') (sample_state sample_pdis) =
       (\<lparr>rp_Code = StatusOK, rp_Body = NoBody\<rparr>, s1)"
      "pdis_after_delete sample_pdis (cl_pdis (fake_cluster s1) sample_key)"
    unfolding k st(1) option.case by blast
  then show ?thesis using f by (auto simp: pdis_after_delete_def split: option.splits)
qed

text \<open>
  GET and HEAD are safe. Whatever its path, and whichever client the handlers write with,
  a request with one of these methods leaves the stored objects as they are.
\<close>

lemma serve_safe_methods:
  assumes "kube_rest api cluster admit ok"
    and "run_state (ServeHTTP dec (New cl api) rq) s = (rp, s')"
    and "rq_Method rq \<in> {''GET'', ''HEAD''}"
  shows "cluster s' = cluster s"
  using kube_rest.ServeHTTP_safe [OF assms(1,2)] assms(3) by simp

lemma serve_safe_methods_witness:
  "\<exists>rp s'. run_state (ServeHTTP no_decoders (New fakeClient fakeClient)
       \<lparr>rq_Method = ''HEAD'', rq_Path = [''api'', ''v1'', ''pd-inference-services'', ''svc''], rq_Body = ''''\<rparr>)
       (sample_state sample_pdis) = (rp, s') \<and>
     fake_cluster s' = fake_cluster (sample_state sample_pdis)"
proof -
  let ?rq = "\<lparr>rq_Method = ''HEAD'', rq_Path = [''api'', ''v1'', ''pd-inference-services'', ''svc''], rq_Body = ''''\<rparr>"
  obtain rp s' where r: "run_state (ServeHTTP no_decoders (New fakeClient fakeClient) ?rq) (sample_state sample_pdis) = (rp, s')"
    by (rule prod.exhaust)
  have "rq_Method ?rq \<in> {''GET'', ''HEAD''}" by simp
  from serve_safe_methods [OF fake_rest.kube_rest_axioms r this] r show ?thesis by blast
qed

lemma path_served:
  "path_known path \<Longrightarrow> \<exists>m. find_route m path \<noteq> None"
  unfolding path_known_def find_route_def list_ex_iff
  by (auto simp: find_None_iff method_matches_def)

text \<open>
  Routing. A request no pattern serves is answered without touching anything: with 405
  when its path is a collection, an item with a non-empty name or \<^verbatim>\<open>/healthz\<close>, and with 404
  otherwise; and a path is served by some method exactly when it has one of these forms.
\<close>

lemma serve_routes:
  "(find_route (rq_Method rq) (rq_Path rq) = None \<longrightarrow>
     (\<exists>msg. run_state (ServeHTTP dec h rq) s =
       (http_Error msg (if path_known (rq_Path rq) then StatusMethodNotAllowed else StatusNotFound), s))) \<and>
   (path_known path \<longleftrightarrow> (\<exists>m. find_route m path \<noteq> None)) \<and>
   (path_known path \<longleftrightarrow>
     (\<exists>coll. (coll = ''pd-inference-services'' \<or> coll = ''pd-engine-profiles'') \<and>
        (path = [''api'', ''v1'', coll] \<or> (\<exists>name. name \<noteq> '''' \<and> path = [''api'', ''v1'', coll, name]))) \<or>
     path = [''healthz''])"
proof (intro conjI)
  show "path_known path \<longleftrightarrow> (\<exists>m. find_route m path \<noteq> None)"
    using path_served find_route_known by blast
  show "path_known path \<longleftrightarrow>
     (\<exists>coll. (coll = ''pd-inference-services'' \<or> coll = ''pd-engine-profiles'') \<and>
        (path = [''api'', ''v1'', coll] \<or> (\<exists>name. name \<noteq> '''' \<and> path = [''api'', ''v1'', coll, name]))) \<or>
     path = [''healthz'']"
    unfolding path_known_iff by blast
qed (auto simp: ServeHTTP_def)

lemma serve_routes_witness:
  "\<exists>msg. run_state (ServeHTTP no_decoders (New fakeClient fakeClient)
      \<lparr>rq_Method = ''PATCH'', rq_Path = [''healthz''], rq_Body = ''''\<rparr>) empty_state =
      (http_Error msg StatusMethodNotAllowed, empty_state)"
proof -
  let ?rq = "\<lparr>rq_Method = ''PATCH'', rq_Path = [''healthz''], rq_Body = ''''\<rparr>"
  have "find_route (rq_Method ?rq) (rq_Path ?rq) = None"
    by (simp add: find_route_def patterns_def method_matches_def)
  moreover have "path_known (rq_Path ?rq)"
    by (simp add: path_known_iff)
  ultimately show ?thesis
    using conjunct1 [OF serve_routes [of ?rq no_decoders "New fakeClient fakeClient" empty_state]]
    by (simp only: if_True simp_thms)
qed

section \<open>The life of a service\<close>

context kube_rest
begin

lemma posted_reconcilable:
  assumes "ok s" and "run_state (Create dec (New api api) body) s = (rp, s1)" and "rp_Code rp = StatusCreated"
    and "dec_pdis dec body = Inr p" and "pd_Namespace p \<in> {'''', default_ns}"
    and "admit (admit (pd_Spec p)) = admit (pd_Spec p)"
    and "rbg_settled (cluster s) (mk_key default_ns (pd_Name p))"
    and "sp_EngineProfileRef (admit (pd_Spec p)) = '''' \<or>
         cl_profiles (cluster s) (mk_key default_ns (sp_EngineProfileRef (admit (pd_Spec p)))) \<noteq> None"
    and "\<forall>t \<in> set (spec_quantities (admit (pd_Spec p))). parses pq t"
  obtains p' where "ok s1" and "cl_pdis (cluster s1) (mk_key default_ns (pd_Name p)) = Some p'"
    and "pd_Finalizers p' = pd_Finalizers p"
    and "reconcilable pq admit (cluster s1) (mk_key default_ns (pd_Name p)) (admit (pd_Spec p))"
proof -
  let ?p = "p\<lparr>pd_ObjectMeta := defaultNamespace (pd_ObjectMeta p)\<rparr>"
  let ?k = "mk_key default_ns (pd_Name p)"
  from assms(2-4) obtain p' where c: "run_state (Create_PDIS api ?p) s = (Inr p', s1)"
    by (auto simp: Create_def Status_codes split: prod.splits sum.splits)
  have k: "pdis_key ?p = ?k" using assms(5) by (auto simp: meta_key_def)
  note st = create_pdis_ok [OF c, unfolded k]
  have ns: "pd_Namespace p' = default_ns"
    using st assms(5) by (auto simp: same_identity_def)
  have "merged_of (cluster s1) p' \<noteq> None"
    using st assms(8) ns by (auto simp: merged_of_def)
  moreover have "rbg_settled (cluster s1) ?k" using st assms(7) by (simp add: rbg_settled_def)
  ultimately have "reconcilable pq admit (cluster s1) ?k (admit (pd_Spec p))"
    using st assms(6,9) by (auto simp: reconcilable_def)
  moreover have "ok s1" using rest_keeps_ok(1) [OF assms(1), of ?p] c by simp
  ultimately show thesis using that [of p'] st by (auto simp: same_identity_def)
qed

lemma delete_reconcile_gone:
  assumes "ok s" and "cl_pdis (cluster s) (mk_key default_ns name) = Some q"
    and "pd_Finalizers q = [finalizer]"
  obtains s3 s4 where "run_state (Delete (New api api) name) s = (write_json StatusOK NoBody, s3)"
    and "run_state (Reconcile pq api (mk_key default_ns name)) s3 = (Returns (no_requeue, None), s4)"
    and "cl_pdis (cluster s4) (mk_key default_ns name) = None" and "cl_rbgs (cluster s4) = cl_rbgs (cluster s)"
proof -
  let ?k = "mk_key default_ns name"
  from Delete_answer [OF assms(1), of name] assms(2) obtain s3 where
      d: "run_state (Delete (New api api) name) s = (write_json StatusOK NoBody, s3)" "ok s3"
        "only_pdis ?k (cluster s) (cluster s3)" "pdis_after_delete q (cl_pdis (cluster s3) ?k)" by auto
  from d(4) assms(3) obtain q' where q': "cl_pdis (cluster s3) ?k = Some q'"
      "stamped (pd_ObjectMeta q) (pd_ObjectMeta q')"
    by (auto simp: pdis_after_delete_def split: option.splits)
  have m: "\<not> Time_IsZero (om_DeletionTimestamp (pd_ObjectMeta q'))" "pd_Finalizers q' = [finalizer]"
    using stampedD [OF q'(2)] assms(3) by simp_all
  from Reconcile_finishes_deletion [OF d(2) q'(1) m(1)] obtain s4 where
      r: "run_state (Reconcile pq api ?k) s3 = (Returns (no_requeue, None), s4)" by blast
  from Reconcile_deleting [OF r q'(1) m(1)] m(2)
  have "cl_pdis (cluster s4) ?k = None" "cl_rbgs (cluster s4) = cl_rbgs (cluster s3)"
    by (auto split: option.splits)
  with d r show thesis by (intro that [of s3 s4]) (auto simp: only_pdis_def)
qed

end

text \<open>
  C15: From POST to gone. On a server that answers, take a service posted with 201 into the
  default namespace without finalizers, whose admitted specification is stable, resolves and
  parses. Its first reconciliation brings it in sync; a DELETE then answers 200 and one more
  reconciliation removes it, leaving its group to the garbage collector.
\<close>

theorem service_lifecycle:
  assumes "kube_rest api cluster admit ok" and "ok s"
    and "run_state (Create dec (New api api) body) s = (rp, s1)" and "rp_Code rp = StatusCreated"
    and "dec_pdis dec body = Inr p" and "pd_Namespace p \<in> {'''', default_ns}" and "pd_Finalizers p = []"
    and "admit (admit (pd_Spec p)) = admit (pd_Spec p)"
    and "rbg_settled (cluster s) (mk_key default_ns (pd_Name p))"
    and "sp_EngineProfileRef (admit (pd_Spec p)) = '''' \<or>
         cl_profiles (cluster s) (mk_key default_ns (sp_EngineProfileRef (admit (pd_Spec p)))) \<noteq> None"
    and "\<forall>t \<in> set (spec_quantities (admit (pd_Spec p))). parses pq t"
  shows "\<exists>s2 s3 s4.
     run_state (Reconcile pq api (mk_key default_ns (pd_Name p))) s1 =
       (Returns (\<lparr>res_RequeueAfter = 10 * Second\<rparr>, None), s2) \<and>
     in_sync pq (cluster s2) (mk_key default_ns (pd_Name p)) \<and>
     run_state (Delete (New api api) (pd_Name p)) s2 = (write_json StatusOK NoBody, s3) \<and>
     run_state (Reconcile pq api (mk_key default_ns (pd_Name p))) s3 = (Returns (no_requeue, None), s4) \<and>
     cl_pdis (cluster s4) (mk_key default_ns (pd_Name p)) = None \<and> cl_rbgs (cluster s4) = cl_rbgs (cluster s2)"
proof -
  let ?k = "mk_key default_ns (pd_Name p)"
  have rel: "kube_reliable api cluster admit ok" using assms(1) by (simp add: kube_rest_def)
  then have wr: "kube_writer api cluster admit" by (simp add: kube_reliable_def)
  obtain p' where s1: "ok s1" "cl_pdis (cluster s1) ?k = Some p'" "pd_Finalizers p' = pd_Finalizers p"
      "reconcilable pq admit (cluster s1) ?k (admit (pd_Spec p))"
    by (rule kube_rest.posted_reconcilable [OF assms(1-6,8-11)])
  from kube_reliable.Reconcile_reconcilable [OF rel s1(1,4)] obtain s2 where
      r: "run_state (Reconcile pq api ?k) s1 = (Returns (\<lparr>res_RequeueAfter = 10 * Second\<rparr>, None), s2)"
      and s2: "ok s2" "in_sync pq (cluster s2) ?k" by blast
  have "rbg_settled (cluster s1) ?k" using s1(4) by (auto simp: reconcilable_def)
  from kube_writer.Reconcile_keeps_spec [OF wr r requeue_ne this] s1(2,3) assms(7) obtain q where
      "cl_pdis (cluster s2) ?k = Some q" "pd_Finalizers q = [finalizer]"
    by (auto simp: AddFinalizer_def)
  from kube_rest.delete_reconcile_gone [OF assms(1) s2(1) this] r s2 show ?thesis by metis
qed

theorem service_lifecycle_witness:
  "\<exists>rp s1 s2 s3 s4. run_state (Create sample_decoders (New fakeClient fakeClient) ''{}'') empty_state = (rp, s1) \<and>
     run_state (Reconcile quantity_parse fakeClient sample_key) s1 =
       (Returns (\<lparr>res_RequeueAfter = 10 * Second\<rparr>, None), s2) \<and>
     in_sync quantity_parse (fake_cluster s2) sample_key \<and>
     run_state (Delete (New fakeClient fakeClient) ''svc'') s2 = (write_json StatusOK NoBody, s3) \<and>
     run_state (Reconcile quantity_parse fakeClient sample_key) s3 = (Returns (no_requeue, None), s4) \<and>
     cl_pdis (fake_cluster s4) sample_key = None"
proof (rule sample_posted [of "''{}''"])
  fix rp s1 assume a: "run_state (Create sample_decoders (New fakeClient fakeClient) ''{}'') empty_state = (rp, s1)"
    "rp_Code rp = StatusCreated"
  have k: "mk_key default_ns (pd_Name sample_new) = sample_key" "pd_Name sample_new = ''svc''"
    by (simp_all add: sample_key_def default_ns_def sample_new_def)
  have p: "dec_pdis sample_decoders ''{}'' = Inr sample_new" "pd_Namespace sample_new \<in> {'''', default_ns}"
      "pd_Finalizers sample_new = []" "pd_Spec sample_new = sample_spec" "sp_EngineProfileRef sample_spec = ''''"
    by (simp_all add: sample_decoders_def sample_new_def sample_spec_def zero_defs)
  have "rbg_settled (fake_cluster empty_state) (mk_key default_ns (pd_Name sample_new))"
    by (simp add: rbg_settled_def empty_state_def tracker_lookup_def)
  from service_lifecycle [OF fake_rest.kube_rest_axioms empty_ok a p(1-3) _ this, of quantity_parse] a k p sample_parses
  show ?thesis by auto
qed

end
